(* ===== verification/Prelude.thy ===== *)
theory Prelude
  imports Main "HOL-Library.Word"
begin

text \<open>
  Shared vocabulary of the EC byte transport development: the machine types of
  \<^verbatim>\<open>portio.cpp\<close> (8-bit port values, 16-bit port addresses, the 32-bit C \<^verbatim>\<open>int\<close>),
  the collections of rewrite rules the component theories fill, and the generic
  word and list facts their proofs share.
\<close>

unbundle bit_operations_syntax

type_synonym u8 = "8 word"
type_synonym u16 = "16 word"
type_synonym c_int = "32 word"

named_theorems port_simps "how the port primitives change the transport state"
named_theorems ec_consts "the protocol constants of portio.cpp"

subsection \<open>Casts\<close>

text \<open>
  \<^verbatim>\<open>(char)ReadPort(p) & 0xff\<close>: the byte is read as a signed \<^verbatim>\<open>char\<close>, promoted
  (sign-extended) to \<^verbatim>\<open>int\<close>, masked and stored back into a \<^verbatim>\<open>char\<close>. The bits
  survive the round trip.
\<close>

lemma ucast_scast_and_ff [simp]:
  "(ucast ((scast (b :: u8) :: c_int) AND 0xFF) :: u8) = b"
proof -
  have m: "(0xFF :: c_int) = mask 8" by (simp add: mask_eq_exp_minus_1)
  show ?thesis unfolding m by (rule bit_word_eqI) (auto simp: bit_simps)
qed

lemma ucast_c_int_add_256 [simp]:
  "(ucast (x + 256 :: c_int) :: u8) = ucast x"
proof -
  have "take_bit 8 ((uint x + 256) mod 2 ^ 32) = take_bit 8 (uint x)"
    by (simp add: take_bit_eq_mod mod_mod_cancel)
  then show ?thesis by (simp add: word_uint_eq_iff unsigned_ucast_eq uint_word_ariths)
qed

subsection \<open>Lists\<close>

lemma list_all_tl [simp]: "list_all P xs \<Longrightarrow> list_all P (tl xs)"
  by (cases xs) simp_all

text \<open>\<open>replicate\<close> of a numeral, unfolded one element at a time (schedules).\<close>

lemma replicate_numeral_Cons: "replicate (numeral k) x = x # replicate (pred_numeral k) x"
  by (simp add: numeral_eq_Suc)

end
