(* ===== verification/PortIO.thy ===== *)
theory PortIO
  imports Prelude
begin

text \<open>
  The environment of the transport: the protocol constants of \<^verbatim>\<open>portio.cpp\<close>
  (lines 34--49), the port-I/O primitives \<^verbatim>\<open>ReadPort\<close>, \<^verbatim>\<open>WritePort\<close> (TVicPort)
  and \<^verbatim>\<open>::Sleep\<close> (Win32), and the process-wide globals \<^verbatim>\<open>verbosity\<close> and
  \<^verbatim>\<open>logbuf\<close> (lines 52--54). The primitives are not part of the repository: the
  hardware behind them is an arbitrary device state \<open>'d\<close> with three operations
  (the record \<open>port_io\<close>), so every lemma about the transport holds for every
  device. Each primitive call also appends an event to an I/O trace, the
  observable behaviour of the driver on the bus.
\<close>

subsection \<open>Protocol constants\<close>

definition EC_DATAPORT :: u16 where [ec_consts]: "EC_DATAPORT = 0x1600"
definition EC_CTRLPORT :: u16 where [ec_consts]: "EC_CTRLPORT = 0x1604"

definition EC_STAT_OBF :: u8 where [ec_consts]: "EC_STAT_OBF = 0x01"
definition EC_STAT_IBF :: u8 where [ec_consts]: "EC_STAT_IBF = 0x02"
definition EC_STAT_CMD :: u8 where [ec_consts]: "EC_STAT_CMD = 0x08"

text \<open>\<^verbatim>\<open>(char)0x80\<close> is the signed \<^verbatim>\<open>char\<close> -128; \<^verbatim>\<open>WritePort\<close> takes an
  unsigned byte, so the bus sees the bit pattern 0x80.\<close>

definition EC_CTRLPORT_READ :: u8 where [ec_consts]: "EC_CTRLPORT_READ = 0x80"
definition EC_CTRLPORT_WRITE :: u8 where [ec_consts]: "EC_CTRLPORT_WRITE = 0x81"
definition EC_CTRLPORT_QUERY :: u8 where [ec_consts]: "EC_CTRLPORT_QUERY = 0x84"

lemma EC_ports_distinct [simp]: "EC_DATAPORT \<noteq> EC_CTRLPORT" "EC_CTRLPORT \<noteq> EC_DATAPORT"
  by (simp_all add: ec_consts)

subsection \<open>Devices, events and the transport state\<close>

text \<open>What the driver can do with the hardware. \<open>read_port\<close> may change the
  device (a status read lets an embedded controller make progress, a data read
  empties its output buffer).\<close>

record 'd port_io =
  read_port :: "u16 \<Rightarrow> 'd \<Rightarrow> u8 \<times> 'd"
  write_port :: "u16 \<Rightarrow> u8 \<Rightarrow> 'd \<Rightarrow> 'd"
  sleep_ms :: "nat \<Rightarrow> 'd \<Rightarrow> 'd"

datatype io_event = PortIn u16 u8 | PortOut u16 u8 | Slept nat

text \<open>The state a call of the transport sees: the device, the trace of bus events
  so far, and the two globals of \<^verbatim>\<open>portio.cpp\<close>. \<open>logbuf\<close> holds the contents
  of the \<^verbatim>\<open>char logbuf[8192]\<close> array up to its terminating NUL.\<close>

record 'd ec_io =
  hw :: 'd
  io_trace :: "io_event list"
  verbosity :: int
  logbuf :: string

definition ReadPort :: "'d port_io \<Rightarrow> u16 \<Rightarrow> 'd ec_io \<Rightarrow> u8 \<times> 'd ec_io" where
  "ReadPort io p s =
     (case read_port io p (hw s) of
        (b, h) \<Rightarrow> (b, s\<lparr>hw := h, io_trace := io_trace s @ [PortIn p b]\<rparr>))"

definition WritePort :: "'d port_io \<Rightarrow> u16 \<Rightarrow> u8 \<Rightarrow> 'd ec_io \<Rightarrow> 'd ec_io" where
  "WritePort io p v s =
     s\<lparr>hw := write_port io p v (hw s), io_trace := io_trace s @ [PortOut p v]\<rparr>"

definition Sleep :: "'d port_io \<Rightarrow> nat \<Rightarrow> 'd ec_io \<Rightarrow> 'd ec_io" where
  "Sleep io ms s = s\<lparr>hw := sleep_ms io ms (hw s), io_trace := io_trace s @ [Slept ms]\<rparr>"

subsection \<open>Observing a trace\<close>

text \<open>Total time slept, the port writes in order, and the number of status-port reads.\<close>

fun slept_total :: "io_event list \<Rightarrow> nat" where
  "slept_total [] = 0"
| "slept_total (Slept ms # evs) = ms + slept_total evs"
| "slept_total (_ # evs) = slept_total evs"

fun port_writes :: "io_event list \<Rightarrow> (u16 \<times> u8) list" where
  "port_writes [] = []"
| "port_writes (PortOut p v # evs) = (p, v) # port_writes evs"
| "port_writes (_ # evs) = port_writes evs"

fun status_reads :: "io_event list \<Rightarrow> nat" where
  "status_reads [] = 0"
| "status_reads (PortIn p _ # evs) = (if p = EC_CTRLPORT then Suc (status_reads evs) else status_reads evs)"
| "status_reads (_ # evs) = status_reads evs"

lemma trace_observers_append [simp]:
  "slept_total (xs @ ys) = slept_total xs + slept_total ys"
  "port_writes (xs @ ys) = port_writes xs @ port_writes ys"
  "status_reads (xs @ ys) = status_reads xs + status_reads ys"
  by (induction xs rule: slept_total.induct) auto

subsection \<open>What the primitives change\<close>

lemma ReadPort_effect [port_simps]:
  "ReadPort io p s = (b, s') \<Longrightarrow>
     read_port io p (hw s) = (b, hw s') \<and> io_trace s' = io_trace s @ [PortIn p b] \<and>
     verbosity s' = verbosity s \<and> logbuf s' = logbuf s"
  by (auto simp: ReadPort_def split: prod.splits)

lemma WritePort_frame [simp]:
  "io_trace (WritePort io p v s) = io_trace s @ [PortOut p v]"
  "hw (WritePort io p v s) = write_port io p v (hw s)"
  "verbosity (WritePort io p v s) = verbosity s"
  "logbuf (WritePort io p v s) = logbuf s"
  by (simp_all add: WritePort_def)

lemma Sleep_frame [simp]:
  "io_trace (Sleep io ms s) = io_trace s @ [Slept ms]"
  "hw (Sleep io ms s) = sleep_ms io ms (hw s)"
  "verbosity (Sleep io ms s) = verbosity s"
  "logbuf (Sleep io ms s) = logbuf s"
  by (simp_all add: Sleep_def)

lemma ReadPort_frame [simp]:
  "io_trace (snd (ReadPort io p s)) = io_trace s @ [PortIn p (fst (ReadPort io p s))]"
  "verbosity (snd (ReadPort io p s)) = verbosity s"
  "logbuf (snd (ReadPort io p s)) = logbuf s"
  by (simp_all add: ReadPort_def split: prod.splits)

end
