(* ===== verification/Poll.thy ===== *)
theory Poll
  imports PortIO
begin

text \<open>
  The polling idiom of \<^verbatim>\<open>portio.cpp\<close>: six \<^verbatim>\<open>for\<close> loops of the form
  \<^verbatim>\<open>for (iTime = 0; iTime < T; iTime += iTick) { data = (char)ReadPort(EC_CTRLPORT) & 0xff;
  if (cond(data)) { iOK = true; break; } ::Sleep(iTick); }\<close>
  (lines 72--79, 86--93, 100--108, 139--146, 153--160, 167--175), modelled once as
  \<open>poll\<close> with the condition and the budget as parameters. Its abstract
  specification is the inductive relation \<open>poll_run\<close>: the shape of the bus
  trace of one poll, and whether it succeeded. \<open>poll_refines_run\<close> shows that
  every poll produces such a trace, for every device.
\<close>

unbundle bit_operations_syntax

subsection \<open>Timing constants and status conditions\<close>

text \<open>The locals \<^verbatim>\<open>iTimeout\<close>, \<^verbatim>\<open>iTimeoutBuf\<close> and \<^verbatim>\<open>iTick\<close> (lines 64--67,
  131--134), in milliseconds.\<close>

definition iTimeout :: int where "iTimeout = 100"
definition iTimeoutBuf :: int where "iTimeoutBuf = 1000"
definition iTick :: int where "iTick = 10"

lemmas poll_consts = iTimeout_def iTimeoutBuf_def iTick_def

definition ec_char_byte :: "u8 \<Rightarrow> u8" where
  "ec_char_byte b = ucast ((scast b :: c_int) AND 0xFF)"

lemma ec_char_byte_id [simp]: "ec_char_byte b = b"
  by (simp add: ec_char_byte_def)

text \<open>\<^verbatim>\<open>!(data & (EC_STAT_IBF | EC_STAT_OBF))\<close> and \<^verbatim>\<open>(data & EC_STAT_OBF)\<close>.\<close>

definition buffers_clear :: "u8 \<Rightarrow> bool" where
  "buffers_clear data \<longleftrightarrow> data AND (EC_STAT_IBF OR EC_STAT_OBF) = 0"

definition obf_full :: "u8 \<Rightarrow> bool" where
  "obf_full data \<longleftrightarrow> data AND EC_STAT_OBF \<noteq> 0"

subsection \<open>The polling loop\<close>

function poll :: "'d port_io \<Rightarrow> (u8 \<Rightarrow> bool) \<Rightarrow> int \<Rightarrow> int \<Rightarrow> 'd ec_io \<Rightarrow> bool \<times> 'd ec_io" where
  "poll io cond budget iTime s =
     (if iTime < budget then
        (case ReadPort io EC_CTRLPORT s of
           (b, s1) \<Rightarrow>
             (let data = ec_char_byte b in
              if cond data then (True, s1)
              else poll io cond budget (iTime + iTick) (Sleep io (nat iTick) s1)))
      else (False, s))"
  by pat_completeness auto
termination
  by (relation "measure (\<lambda>(io, cond, budget, iTime, s). nat (budget - iTime))")
     (auto simp: iTick_def)

declare poll.simps [simp del]

lemma poll_stop [simp]: "\<not> iTime < budget \<Longrightarrow> poll io cond budget iTime s = (False, s)"
  by (simp add: poll.simps)

lemma poll_step:
  "iTime < budget \<Longrightarrow> ReadPort io EC_CTRLPORT s = (b, s1) \<Longrightarrow>
   poll io cond budget iTime s =
     (if cond b then (True, s1) else poll io cond budget (iTime + 10) (Sleep io 10 s1))"
  by (subst poll.simps) (simp add: iTick_def)

subsection \<open>Specification: the trace of one poll\<close>

text \<open>\<open>poll_run cond n evs ok\<close>: with \<open>n\<close> samples left, the poll reads the status
  port; if the byte satisfies \<open>cond\<close> it stops with success, otherwise it sleeps one
  tick and goes on; with none left it fails without touching the bus.\<close>

inductive poll_run :: "(u8 \<Rightarrow> bool) \<Rightarrow> nat \<Rightarrow> io_event list \<Rightarrow> bool \<Rightarrow> bool" where
  timeout: "poll_run cond 0 [] False"
| hit: "cond b \<Longrightarrow> poll_run cond (Suc n) [PortIn EC_CTRLPORT b] True"
| miss: "\<not> cond b \<Longrightarrow> poll_run cond n evs ok \<Longrightarrow>
           poll_run cond (Suc n) (PortIn EC_CTRLPORT b # Slept 10 # evs) ok"

inductive_cases poll_run_0E [elim!]: "poll_run cond 0 evs ok"
inductive_cases poll_run_SucE: "poll_run cond (Suc n) evs ok"

text \<open>The number of samples a budget allows: \<open>\<lceil>(budget - iTime) / iTick\<rceil>\<close>.\<close>

definition poll_ticks :: "int \<Rightarrow> int \<Rightarrow> nat" where
  "poll_ticks budget iTime = nat ((budget - iTime + 9) div 10)"

lemma poll_ticks_step:
  assumes "iTime < budget"
  shows "poll_ticks budget iTime = Suc (poll_ticks budget (iTime + 10))"
proof -
  from assms have "(budget - iTime + 9) div 10 = (budget - (iTime + 10) + 9) div 10 + 1"
    by (simp add: algebra_simps div_add_self2 [symmetric])
  moreover from assms have "0 \<le> (budget - (iTime + 10) + 9) div 10" by simp
  ultimately show ?thesis unfolding poll_ticks_def by simp
qed

lemma poll_ticks_stop: "\<not> iTime < budget \<Longrightarrow> poll_ticks budget iTime = 0"
  unfolding poll_ticks_def by simp

lemma poll_ticks_pos: "iTime < budget \<Longrightarrow> 0 < poll_ticks budget iTime"
  by (simp add: poll_ticks_step)

lemma poll_ticks_budgets [simp]:
  "poll_ticks iTimeout 0 = 10" "poll_ticks iTimeoutBuf 0 = 100"
  by (simp_all add: poll_ticks_def poll_consts)

subsection \<open>Every poll is a run of the specification\<close>

lemma poll_trace:
  "poll io cond budget iTime s = (ok, s') \<Longrightarrow>
   \<exists>evs. io_trace s' = io_trace s @ evs \<and> poll_run cond (poll_ticks budget iTime) evs ok \<and>
         verbosity s' = verbosity s \<and> logbuf s' = logbuf s"
proof (induction io cond budget iTime s arbitrary: ok s' rule: poll.induct)
  case (1 io cond budget iTime s)
  show ?case
  proof (cases "iTime < budget")
    case False
    with "1.prems" show ?thesis by (auto simp: poll_ticks_stop intro: poll_run.timeout)
  next
    case True
    obtain b s1 where r: "ReadPort io EC_CTRLPORT s = (b, s1)"
      by (cases "ReadPort io EC_CTRLPORT s") auto
    note eff = ReadPort_effect [OF r]
    have ticks: "poll_ticks budget iTime = Suc (poll_ticks budget (iTime + 10))"
      using True by (rule poll_ticks_step)
    show ?thesis
    proof (cases "cond b")
      case True
      with "1.prems" poll_step [OF \<open>iTime < budget\<close> r] eff ticks show ?thesis
        by (auto intro: poll_run.hit)
    next
      case False
      with "1.prems" poll_step [OF \<open>iTime < budget\<close> r]
      have "poll io cond budget (iTime + 10) (Sleep io 10 s1) = (ok, s')" by simp
      with "1.IH" [OF True r [symmetric] refl] False
      obtain evs where "io_trace s' = io_trace (Sleep io 10 s1) @ evs"
          and "poll_run cond (poll_ticks budget (iTime + 10)) evs ok"
          and "verbosity s' = verbosity (Sleep io 10 s1)" and "logbuf s' = logbuf (Sleep io 10 s1)"
        by (auto simp: iTick_def)
      with eff ticks False show ?thesis
        by (auto intro!: exI [of _ "PortIn EC_CTRLPORT b # Slept 10 # evs"] poll_run.miss)
    qed
  qed
qed

subsection \<open>What a run of the specification shows on the bus\<close>

lemma poll_run_no_writes: "poll_run cond n evs ok \<Longrightarrow> port_writes evs = []"
  by (induction rule: poll_run.induct) auto

lemma poll_run_failed:
  "poll_run cond n evs False \<Longrightarrow> status_reads evs = n \<and> slept_total evs = 10 * n"
  by (induction n evs "False" rule: poll_run.induct) auto

lemma poll_run_bounds:
  "poll_run cond n evs ok \<Longrightarrow> status_reads evs \<le> n \<and> slept_total evs \<le> 10 * n"
  by (induction rule: poll_run.induct) auto

lemma poll_run_samples_fail:
  "poll_run cond n evs ok \<Longrightarrow> PortIn p b \<in> set (butlast evs) \<Longrightarrow> \<not> cond b"
  by (induction rule: poll_run.induct) (auto split: if_splits)

lemma poll_run_succeeded:
  "poll_run cond n evs True \<Longrightarrow> \<exists>pre b. evs = pre @ [PortIn EC_CTRLPORT b] \<and> cond b"
proof (induction n evs "True" rule: poll_run.induct)
  case timeout
  then show ?case by simp
next
  case (hit c b n)
  then show ?case by auto
next
  case (miss c b n evs)
  then obtain pre d where "evs = pre @ [PortIn EC_CTRLPORT d] \<and> c d" by blast
  then show ?case by (intro exI [of _ "PortIn EC_CTRLPORT b # Slept 10 # pre"]) auto
qed

subsection \<open>Handshake discipline of a trace\<close>

text \<open>
  The protocol rule every phase of the transport serves: a byte is written to
  either port only right after a status sample showing both buffers empty, and
  the data port is read only right after a status sample showing the output
  buffer full. \<open>handshake_ok st evs\<close> checks a trace, \<open>st\<close> being the status
  byte sampled by the event just before (\<open>None\<close> when that event was not a
  status read).
\<close>

fun handshake_ok :: "u8 option \<Rightarrow> io_event list \<Rightarrow> bool" where
  "handshake_ok st [] = True"
| "handshake_ok st (PortIn p b # evs) =
     (if p = EC_CTRLPORT then handshake_ok (Some b) evs
      else (case st of Some c \<Rightarrow> obf_full c | None \<Rightarrow> False) \<and> handshake_ok None evs)"
| "handshake_ok st (PortOut p v # evs) =
     ((case st of Some c \<Rightarrow> buffers_clear c | None \<Rightarrow> False) \<and> handshake_ok None evs)"
| "handshake_ok st (Slept ms # evs) = handshake_ok None evs"

fun last_status :: "u8 option \<Rightarrow> io_event list \<Rightarrow> u8 option" where
  "last_status st [] = st"
| "last_status st (PortIn p b # evs) = last_status (if p = EC_CTRLPORT then Some b else None) evs"
| "last_status st (_ # evs) = last_status None evs"

lemma handshake_ok_append [simp]:
  "handshake_ok st (xs @ ys) \<longleftrightarrow> handshake_ok st xs \<and> handshake_ok (last_status st xs) ys"
  by (induction st xs rule: handshake_ok.induct) auto

lemma last_status_append [simp]:
  "last_status st (xs @ ys) = last_status (last_status st xs) ys"
  by (induction st xs rule: last_status.induct) auto

lemma poll_run_handshake:
  "poll_run cond n evs ok \<Longrightarrow>
   handshake_ok st evs \<and> (ok \<longrightarrow> (\<exists>b. last_status st evs = Some b \<and> cond b))"
  by (induction arbitrary: st rule: poll_run.induct) auto

lemma handshake_ok_None_mono: "handshake_ok None evs \<Longrightarrow> handshake_ok st evs"
  by (cases "(st, evs)" rule: handshake_ok.cases) (auto split: option.splits if_splits)

text \<open>\<open>trace_ext s s'\<close>: \<open>s'\<close> extends the bus trace of \<open>s\<close> by events that keep
  the handshake discipline on their own, and the globals are unchanged.\<close>

definition trace_ext :: "'d ec_io \<Rightarrow> 'd ec_io \<Rightarrow> bool" where
  "trace_ext s s' \<longleftrightarrow>
     (\<exists>evs. io_trace s' = io_trace s @ evs \<and> handshake_ok None evs \<and>
            verbosity s' = verbosity s \<and> logbuf s' = logbuf s)"

lemma reflp_trace_ext: "reflp trace_ext"
  by (rule reflpI) (auto simp: trace_ext_def)

lemma transp_trace_ext: "transp trace_ext"
  by (rule transpI) (auto simp: trace_ext_def intro: handshake_ok_None_mono)

lemma last_status_Some_any: "last_status None evs = Some b \<Longrightarrow> last_status st evs = Some b"
  by (cases "(st, evs)" rule: last_status.cases) auto

text \<open>A device whose status never satisfies the condition makes every poll fail.\<close>

lemma poll_never:
  "(\<forall>h. \<not> cond (fst (read_port io EC_CTRLPORT h))) \<Longrightarrow> \<not> fst (poll io cond budget iTime s)"
proof (induction io cond budget iTime s rule: poll.induct)
  case (1 io cond budget iTime s)
  show ?case
  proof (cases "iTime < budget")
    case False
    then show ?thesis by simp
  next
    case True
    obtain b s1 where r: "ReadPort io EC_CTRLPORT s = (b, s1)"
      by (cases "ReadPort io EC_CTRLPORT s") auto
    from ReadPort_effect [OF r] have "read_port io EC_CTRLPORT (hw s) = (b, hw s1)" by blast
    then have "b = fst (read_port io EC_CTRLPORT (hw s))" by simp
    with "1.prems" have nc: "\<not> cond b" by blast
    have "\<not> fst (poll io cond budget (iTime + iTick) (Sleep io (nat iTick) s1))"
      using "1.IH" [OF True r [symmetric] refl] nc "1.prems" by simp
    with poll_step [OF True r] nc show ?thesis by (simp add: iTick_def)
  qed
qed

end
