(* ===== verification/SetupLoop.thy ===== *)
theory SetupLoop
  imports Prelude
begin

text \<open>
  The retry loop that \<^verbatim>\<open>ReadByteFromEC\<close> and \<^verbatim>\<open>WriteByteToEC\<close> share
  (lines 70--113 and 137--177): \<^verbatim>\<open>while (numSetupTries > 0) { ... }\<close> around one
  sweep of the handshake phases. A sweep either leaves the function with
  \<^verbatim>\<open>return 0\<close> (an idle or command wait timed out) or runs to the end of the body
  with the flag \<^verbatim>\<open>iOK\<close> of its last wait; on success the body sets
  \<^verbatim>\<open>numSetupTries = 1\<close> before the common decrement. The loop is generic in the
  state and the sweep, so both operations instantiate it. \<open>retry\<close> is the
  reference definition of the intended policy ("up to \<open>n\<close> sweeps, stop at the
  first success or early return"), and \<open>setup_loop_is_retry\<close> shows the
  counter manipulation implements it.
\<close>

datatype 's sweep = Return0 's | Swept bool 's

primrec sweep_state :: "'s sweep \<Rightarrow> 's" where
  "sweep_state (Return0 s) = s"
| "sweep_state (Swept ok s) = s"

function setup_loop :: "('s \<Rightarrow> 's sweep) \<Rightarrow> int \<Rightarrow> bool \<Rightarrow> 's \<Rightarrow> 's sweep" where
  "setup_loop body numSetupTries iOK s =
     (if 0 < numSetupTries then
        (case body s of
           Return0 s' \<Rightarrow> Return0 s'
         | Swept ok s' \<Rightarrow> setup_loop body ((if ok then 1 else numSetupTries) - 1) ok s')
      else Swept iOK s)"
  by pat_completeness auto
termination
  by (relation "measure (\<lambda>(body, n, iOK, s). nat n)") auto

declare setup_loop.simps [simp del]

lemma setup_loop_stop [simp]: "\<not> 0 < n \<Longrightarrow> setup_loop body n iOK s = Swept iOK s"
  by (simp add: setup_loop.simps)

lemma setup_loop_step:
  "0 < n \<Longrightarrow> setup_loop body n iOK s =
     (case body s of
        Return0 s' \<Rightarrow> Return0 s'
      | Swept ok s' \<Rightarrow> setup_loop body ((if ok then 1 else n) - 1) ok s')"
  by (subst setup_loop.simps) simp

subsection \<open>Reference definition of the retry policy\<close>

fun retry :: "('s \<Rightarrow> 's sweep) \<Rightarrow> nat \<Rightarrow> 's \<Rightarrow> 's sweep" where
  "retry body 0 s = Swept False s"
| "retry body (Suc n) s =
     (case body s of
        Return0 s' \<Rightarrow> Return0 s'
      | Swept ok s' \<Rightarrow> if ok then Swept True s' else retry body n s')"

text \<open>C5: the retry loop, with its counter set to 1 on success and decremented
  after every sweep, is the policy "run up to \<open>n\<close> sweeps, stop at the first
  early return or the first successful sweep, fail after \<open>n\<close> failed sweeps", for
  every sweep and every positive number of tries.\<close>

theorem setup_loop_is_retry:
  "setup_loop body (int (Suc n)) iOK s = retry body (Suc n) s"
proof (induction n arbitrary: iOK s)
  case 0
  show ?case by (simp add: setup_loop_step split: sweep.split)
next
  case (Suc n)
  have "setup_loop body (int (Suc (Suc n))) iOK s =
        (case body s of
           Return0 s' \<Rightarrow> Return0 s'
         | Swept ok s' \<Rightarrow> setup_loop body ((if ok then 1 else int (Suc (Suc n))) - 1) ok s')"
    by (rule setup_loop_step) simp
  also have "\<dots> = retry body (Suc (Suc n)) s"
    using Suc.IH by (simp split: sweep.split)
  finally show ?case .
qed

subsection \<open>Facts every sweep passes on to the loop\<close>

text \<open>A relation between a state and the states after it that every sweep
  establishes holds across the whole loop.\<close>

lemma setup_loop_rel:
  "(\<And>s. R s (sweep_state (body s))) \<Longrightarrow> reflp R \<Longrightarrow> transp R \<Longrightarrow>
   R s (sweep_state (setup_loop body n iOK s))"
proof (induction body n iOK s rule: setup_loop.induct)
  case (1 body n iOK s)
  note step = "1.prems"(1) [of s]
  show ?case
  proof (cases "0 < n")
    case False
    then show ?thesis using "1.prems"(2) by (simp add: reflpD)
  next
    case True
    show ?thesis
    proof (cases "body s")
      case (Return0 s')
      with True step show ?thesis by (simp add: setup_loop_step)
    next
      case (Swept ok s')
      with True "1.IH" "1.prems"
      have "R s' (sweep_state (setup_loop body ((if ok then 1 else n) - 1) ok s'))"
        by simp
      moreover from Swept step have "R s s'" by simp
      ultimately have "R s (sweep_state (setup_loop body ((if ok then 1 else n) - 1) ok s'))"
        using "1.prems"(3) by (blast dest: transpD)
      with True Swept show ?thesis by (simp add: setup_loop_step)
    qed
  qed
qed

text \<open>A loop that ends with success ends with a sweep that succeeded.\<close>

lemma setup_loop_success:
  "(\<And>s. R s (sweep_state (body s))) \<Longrightarrow> reflp R \<Longrightarrow> transp R \<Longrightarrow>
   setup_loop body n iOK s = Swept True s' \<Longrightarrow>
   (iOK \<and> s' = s) \<or> (\<exists>s0. R s s0 \<and> body s0 = Swept True s')"
proof (induction body n iOK s rule: setup_loop.induct)
  case (1 body n iOK s)
  note step = "1.prems"(1) [of s]
  show ?case
  proof (cases "0 < n")
    case False
    with "1.prems"(4) show ?thesis by simp
  next
    case True
    show ?thesis
    proof (cases "body s")
      case (Return0 s'')
      with True "1.prems"(4) show ?thesis by (simp add: setup_loop_step)
    next
      case (Swept ok s'')
      with True "1.prems"(4)
      have loop: "setup_loop body ((if ok then 1 else n) - 1) ok s'' = Swept True s'"
        by (simp add: setup_loop_step)
      with True Swept "1.IH" "1.prems"(1-3)
      have disj: "(ok \<and> s' = s'') \<or> (\<exists>s0. R s'' s0 \<and> body s0 = Swept True s')"
        by simp
      from Swept step have rs: "R s s''" by simp
      from disj show ?thesis
      proof
        assume "ok \<and> s' = s''"
        moreover have "R s s" using "1.prems"(2) by (rule reflpD)
        ultimately show ?thesis using Swept by auto
      next
        assume "\<exists>s0. R s'' s0 \<and> body s0 = Swept True s'"
        then obtain s0 where "R s'' s0" "body s0 = Swept True s'" by blast
        with rs "1.prems"(3) show ?thesis by (blast dest: transpD)
      qed
    qed
  qed
qed

text \<open>A quantity that one sweep raises by at most \<open>c\<close> rises by at most
  \<open>c\<close> times the number of tries over the loop.\<close>

lemma setup_loop_growth:
  "(\<And>s. f (sweep_state (body s)) \<le> f s + (c :: nat)) \<Longrightarrow>
   f (sweep_state (setup_loop body n iOK s)) \<le> f s + c * nat n"
proof (induction body n iOK s rule: setup_loop.induct)
  case (1 body n iOK s)
  note step = "1.prems" [of s]
  show ?case
  proof (cases "0 < n")
    case False
    then show ?thesis by simp
  next
    case True
    then have n1: "1 \<le> nat n" by simp
    show ?thesis
    proof (cases "body s")
      case (Return0 s')
      then have "f s' \<le> f s + c" using step by simp
      also have "\<dots> \<le> f s + c * nat n" using n1 by simp
      finally show ?thesis using True Return0 by (simp add: setup_loop_step)
    next
      case (Swept ok s')
      let ?m = "(if ok then 1 else n) - 1"
      from True Swept "1.IH" "1.prems"
      have ih: "f (sweep_state (setup_loop body ?m ok s')) \<le> f s' + c * nat ?m" by simp
      from True have "nat ?m + 1 \<le> nat n" by auto
      then have "c * (nat ?m + 1) \<le> c * nat n" by (rule mult_le_mono2)
      then have cm: "c * nat ?m + c \<le> c * nat n" by (simp add: algebra_simps)
      from Swept step have "f s' \<le> f s + c" by simp
      with ih cm have "f (sweep_state (setup_loop body ?m ok s')) \<le> f s + c * nat n" by linarith
      with Swept True show ?thesis by (simp add: setup_loop_step)
    qed
  qed
qed

end
