(* ===== verification/Sweep.thy ===== *)
theory Sweep
  imports Poll SetupLoop
begin

text \<open>
  One sweep of the EC handshake, the body of the retry loop of both operations:
  wait (1000 ms) for both buffers to be empty, write a command to the control
  port, wait (100 ms) for both buffers to be empty, write the register offset to
  the data port, wait (100 ms) for the operation's final condition. An idle or
  command wait that times out leaves the operation (\<^verbatim>\<open>return 0\<close>); the last
  wait only sets \<^verbatim>\<open>iOK\<close>. \<open>ec_sweep\<close> is this shape with the command and
  the final condition as parameters; \<^verbatim>\<open>ReadByteFromEC\<close> uses it with
  \<^verbatim>\<open>EC_CTRLPORT_READ\<close> and "output buffer full", \<^verbatim>\<open>WriteByteToEC\<close> with
  \<^verbatim>\<open>EC_CTRLPORT_WRITE\<close> and "both buffers empty" (the theories \<open>ReadEC\<close>
  and \<open>WriteEC\<close> define their sweeps from the source and prove them equal to
  these instances). \<open>ec_sweep_trace\<close> describes the bus trace of every sweep
  on every device, and \<open>ec_loop_trace\<close> lifts it to the whole retry loop.
\<close>

definition ec_sweep :: "'d port_io \<Rightarrow> u8 \<Rightarrow> (u8 \<Rightarrow> bool) \<Rightarrow> u8 \<Rightarrow> 'd ec_io \<Rightarrow> 'd ec_io sweep" where
  "ec_sweep io cmd final off s =
     (case poll io buffers_clear iTimeoutBuf 0 s of
        (ok1, s1) \<Rightarrow>
          if \<not> ok1 then Return0 s1
          else (case poll io buffers_clear iTimeout 0 (WritePort io EC_CTRLPORT cmd s1) of
                  (ok2, s2) \<Rightarrow>
                    if \<not> ok2 then Return0 s2
                    else (case poll io final iTimeout 0 (WritePort io EC_DATAPORT off s2) of
                            (ok3, s3) \<Rightarrow> Swept ok3 s3)))"

subsection \<open>The trace of one sweep\<close>

definition sweep_events :: "u8 \<Rightarrow> (u8 \<Rightarrow> bool) \<Rightarrow> u8 \<Rightarrow> 'd ec_io sweep \<Rightarrow> io_event list \<Rightarrow> bool" where
  "sweep_events cmd final off r evs \<longleftrightarrow>
     handshake_ok None evs \<and>
     (\<forall>s'. r = Swept True s' \<longrightarrow> (\<exists>b. last_status None evs = Some b \<and> final b)) \<and>
     set (port_writes evs) \<subseteq> {(EC_CTRLPORT, cmd), (EC_DATAPORT, off)} \<and>
     length (port_writes evs) \<le> 2 \<and>
     slept_total evs \<le> 1200 \<and> status_reads evs \<le> 120"

lemma poll_run_last:
  "poll_run cond n evs True \<Longrightarrow> \<exists>b. last_status st evs = Some b \<and> cond b"
  using poll_run_handshake by blast

text \<open>What one poll of a sweep contributes to its trace.\<close>

lemma poll_phase:
  assumes "poll io cond budget 0 s = (ok, s')"
  obtains evs where "io_trace s' = io_trace s @ evs" "verbosity s' = verbosity s"
    "logbuf s' = logbuf s" "port_writes evs = []" "handshake_ok None evs"
    "status_reads evs \<le> poll_ticks budget 0" "slept_total evs \<le> 10 * poll_ticks budget 0"
    "ok \<Longrightarrow> \<exists>b. last_status None evs = Some b \<and> cond b"
proof -
  from poll_trace [OF assms] obtain evs where t: "io_trace s' = io_trace s @ evs"
    and r: "poll_run cond (poll_ticks budget 0) evs ok"
    and g: "verbosity s' = verbosity s" "logbuf s' = logbuf s"
    by blast
  have "ok \<Longrightarrow> \<exists>b. last_status None evs = Some b \<and> cond b"
    using r poll_run_last [of cond "poll_ticks budget 0" evs None] by simp
  with t g poll_run_no_writes [OF r] poll_run_bounds [OF r] poll_run_handshake [OF r, of None]
  show ?thesis using that by blast
qed

lemma ec_sweep_trace:
  "\<exists>evs. io_trace (sweep_state (ec_sweep io cmd final off s)) = io_trace s @ evs \<and>
         sweep_events cmd final off (ec_sweep io cmd final off s) evs \<and>
         verbosity (sweep_state (ec_sweep io cmd final off s)) = verbosity s \<and>
         logbuf (sweep_state (ec_sweep io cmd final off s)) = logbuf s"
proof -
  obtain ok1 s1 where p1: "poll io buffers_clear iTimeoutBuf 0 s = (ok1, s1)" by fastforce
  then obtain evs1 where t1: "io_trace s1 = io_trace s @ evs1"
    and g1: "verbosity s1 = verbosity s" "logbuf s1 = logbuf s"
    and w1: "port_writes evs1 = []" and h1: "handshake_ok None evs1"
    and b1: "status_reads evs1 \<le> 100" "slept_total evs1 \<le> 1000"
    and l1: "ok1 \<Longrightarrow> \<exists>b. last_status None evs1 = Some b \<and> buffers_clear b"
    by (rule poll_phase) simp_all
  show ?thesis
  proof (cases ok1)
    case False
    with p1 have "ec_sweep io cmd final off s = Return0 s1" by (simp add: ec_sweep_def)
    with t1 g1 w1 h1 b1 show ?thesis by (simp add: sweep_events_def)
  next
    case True
    with l1 obtain c1 where c1: "last_status None evs1 = Some c1" "buffers_clear c1" by blast
    let ?w1 = "WritePort io EC_CTRLPORT cmd s1"
    obtain ok2 s2 where p2: "poll io buffers_clear iTimeout 0 ?w1 = (ok2, s2)" by fastforce
    then obtain evs2 where t2: "io_trace s2 = io_trace ?w1 @ evs2"
      and g2: "verbosity s2 = verbosity ?w1" "logbuf s2 = logbuf ?w1"
      and w2: "port_writes evs2 = []" and h2: "handshake_ok None evs2"
      and b2: "status_reads evs2 \<le> 10" "slept_total evs2 \<le> 100"
      and l2: "ok2 \<Longrightarrow> \<exists>b. last_status None evs2 = Some b \<and> buffers_clear b"
      by (rule poll_phase) simp_all
    let ?e2 = "evs1 @ PortOut EC_CTRLPORT cmd # evs2"
    have h12: "handshake_ok None ?e2" using h1 h2 c1 by simp
    show ?thesis
    proof (cases ok2)
      case False
      with p1 p2 \<open>ok1\<close> have "ec_sweep io cmd final off s = Return0 s2" by (simp add: ec_sweep_def)
      moreover have "io_trace s2 = io_trace s @ ?e2" using t1 t2 by simp
      moreover have "sweep_events cmd final off (Return0 s2) ?e2"
        using h12 w1 w2 b1 b2 by (simp add: sweep_events_def)
      ultimately show ?thesis using g1 g2 by auto
    next
      case True
      with l2 obtain c2 where c2: "last_status None evs2 = Some c2" "buffers_clear c2" by blast
      let ?w2 = "WritePort io EC_DATAPORT off s2"
      obtain ok3 s3 where p3: "poll io final iTimeout 0 ?w2 = (ok3, s3)" by fastforce
      then obtain evs3 where t3: "io_trace s3 = io_trace ?w2 @ evs3"
        and g3: "verbosity s3 = verbosity ?w2" "logbuf s3 = logbuf ?w2"
        and w3: "port_writes evs3 = []" and h3: "handshake_ok None evs3"
        and b3: "status_reads evs3 \<le> 10" "slept_total evs3 \<le> 100"
        and l3: "ok3 \<Longrightarrow> \<exists>b. last_status None evs3 = Some b \<and> final b"
        by (rule poll_phase) simp_all
      let ?e3 = "?e2 @ PortOut EC_DATAPORT off # evs3"
      from p1 p2 p3 \<open>ok1\<close> True have sw: "ec_sweep io cmd final off s = Swept ok3 s3"
        by (simp add: ec_sweep_def)
      have "io_trace s3 = io_trace s @ ?e3" using t1 t2 t3 by simp
      moreover have "handshake_ok None ?e3" using h12 h3 c2
        by (simp add: handshake_ok_None_mono)
      moreover have "ok3 \<Longrightarrow> \<exists>b. last_status None ?e3 = Some b \<and> final b"
        using l3 by (auto intro: last_status_Some_any)
      moreover have "port_writes ?e3 = [(EC_CTRLPORT, cmd), (EC_DATAPORT, off)]"
        using w1 w2 w3 by simp
      moreover have "slept_total ?e3 \<le> 1200" "status_reads ?e3 \<le> 120"
        using b1 b2 b3 by simp_all
      ultimately show ?thesis using sw g1 g2 g3 by (simp add: sweep_events_def)
    qed
  qed
qed

subsection \<open>The trace of the retry loop\<close>

definition sweeps_rel :: "u8 \<Rightarrow> u8 \<Rightarrow> 'd ec_io \<Rightarrow> 'd ec_io \<Rightarrow> bool" where
  "sweeps_rel cmd off s s' \<longleftrightarrow>
     (\<exists>evs. io_trace s' = io_trace s @ evs \<and> handshake_ok None evs \<and>
            set (port_writes evs) \<subseteq> {(EC_CTRLPORT, cmd), (EC_DATAPORT, off)} \<and>
            verbosity s' = verbosity s \<and> logbuf s' = logbuf s)"

lemma reflp_sweeps_rel: "reflp (sweeps_rel cmd off)"
  by (rule reflpI) (auto simp: sweeps_rel_def)

lemma transp_sweeps_rel: "transp (sweeps_rel cmd off)"
  by (rule transpI) (fastforce simp: sweeps_rel_def intro: handshake_ok_None_mono)

lemma ec_sweep_rel: "sweeps_rel cmd off s (sweep_state (ec_sweep io cmd final off s))"
  using ec_sweep_trace [of io cmd final off s] by (auto simp: sweeps_rel_def sweep_events_def)

lemma ec_sweep_growth:
  "slept_total (io_trace (sweep_state (ec_sweep io cmd final off s))) \<le> slept_total (io_trace s) + 1200"
  "status_reads (io_trace (sweep_state (ec_sweep io cmd final off s))) \<le> status_reads (io_trace s) + 120"
  "length (port_writes (io_trace (sweep_state (ec_sweep io cmd final off s)))) \<le>
     length (port_writes (io_trace s)) + 2"
  using ec_sweep_trace [of io cmd final off s] by (auto simp: sweep_events_def)

lemma ec_loop_trace:
  fixes io :: "'d port_io" and cmd off :: u8 and final :: "u8 \<Rightarrow> bool" and n :: int
    and s :: "'d ec_io"
  defines "r \<equiv> setup_loop (ec_sweep io cmd final off) n False s"
  shows "\<exists>evs. io_trace (sweep_state r) = io_trace s @ evs \<and> handshake_ok None evs \<and>
           set (port_writes evs) \<subseteq> {(EC_CTRLPORT, cmd), (EC_DATAPORT, off)} \<and>
           length (port_writes evs) \<le> 2 * nat n \<and> slept_total evs \<le> 1200 * nat n \<and>
           status_reads evs \<le> 120 * nat n \<and>
           verbosity (sweep_state r) = verbosity s \<and> logbuf (sweep_state r) = logbuf s \<and>
           (\<forall>s'. r = Swept True s' \<longrightarrow> (\<exists>b. last_status None evs = Some b \<and> final b))"
proof -
  have rel: "sweeps_rel cmd off s (sweep_state r)"
    unfolding r_def
    by (rule setup_loop_rel [OF ec_sweep_rel reflp_sweeps_rel transp_sweeps_rel])
  then obtain evs where t: "io_trace (sweep_state r) = io_trace s @ evs" and h: "handshake_ok None evs"
    and w: "set (port_writes evs) \<subseteq> {(EC_CTRLPORT, cmd), (EC_DATAPORT, off)}"
    and g: "verbosity (sweep_state r) = verbosity s" "logbuf (sweep_state r) = logbuf s"
    by (auto simp: sweeps_rel_def)
  have "slept_total (io_trace (sweep_state r)) \<le> slept_total (io_trace s) + 1200 * nat n"
    unfolding r_def
    by (rule setup_loop_growth [where f = "\<lambda>s. slept_total (io_trace s)"]) (rule ec_sweep_growth(1))
  moreover have "status_reads (io_trace (sweep_state r)) \<le> status_reads (io_trace s) + 120 * nat n"
    unfolding r_def
    by (rule setup_loop_growth [where f = "\<lambda>s. status_reads (io_trace s)"]) (rule ec_sweep_growth(2))
  moreover have "length (port_writes (io_trace (sweep_state r))) \<le>
      length (port_writes (io_trace s)) + 2 * nat n"
    unfolding r_def
    by (rule setup_loop_growth [where f = "\<lambda>s. length (port_writes (io_trace s))"])
       (rule ec_sweep_growth(3))
  ultimately have grow: "slept_total evs \<le> 1200 * nat n" "status_reads evs \<le> 120 * nat n"
    "length (port_writes evs) \<le> 2 * nat n"
    using t by simp_all
  have last: "\<exists>b. last_status None evs = Some b \<and> final b" if ok: "r = Swept True s'" for s'
  proof -
    from setup_loop_success [of "sweeps_rel cmd off" "ec_sweep io cmd final off" n False s s',
        OF ec_sweep_rel reflp_sweeps_rel transp_sweeps_rel] ok
    obtain s0 where rel0: "sweeps_rel cmd off s s0" and sw: "ec_sweep io cmd final off s0 = Swept True s'"
      unfolding r_def by blast
    from rel0 obtain evs0 where t0: "io_trace s0 = io_trace s @ evs0" by (auto simp: sweeps_rel_def)
    from ec_sweep_trace [of io cmd final off s0] sw obtain evs1 b where
      t1: "io_trace s' = io_trace s0 @ evs1" and b: "last_status None evs1 = Some b" "final b"
      by (auto simp: sweep_events_def)
    from ok have "sweep_state r = s'" by simp
    with t t0 t1 have "evs = evs0 @ evs1" by simp
    with b show ?thesis by (auto intro: last_status_Some_any)
  qed
  from t h w g grow last show ?thesis by blast
qed

end
