(* ===== verification/DiagLog.thy ===== *)
theory DiagLog
  imports Prelude
begin

text \<open>
  The diagnostic log of \<^verbatim>\<open>portio.cpp\<close>: the global \<^verbatim>\<open>char logbuf[8192]\<close>
  (line 54) and the record a successful read appends when \<^verbatim>\<open>verbosity > 0\<close>
  (line 118), \<^verbatim>\<open>sprintf(logbuf + strlen(logbuf), "readec: offset= %x, data= %02x\n",
  offset, *pdata)\<close>. The conversions \<^verbatim>\<open>%x\<close> and \<^verbatim>\<open>%02x\<close> belong to the C
  library and are modelled from the C standard: the argument is converted to
  \<^verbatim>\<open>unsigned int\<close> and printed in lower-case hexadecimal without leading zeros,
  padded with zeros to width 2 for \<^verbatim>\<open>%02x\<close>. \<^verbatim>\<open>*pdata\<close> is a \<^verbatim>\<open>char\<close>,
  which the variadic call promotes to \<^verbatim>\<open>int\<close> with sign extension (\<^verbatim>\<open>char\<close> is
  signed under the compiler the project targets), hence the \<open>scast\<close>.
  \<open>hex_val\<close> reads a hexadecimal field back; it is the inverse used to state
  what a log record says.
\<close>

definition LOGBUF_SIZE :: nat where "LOGBUF_SIZE = 8192"

subsection \<open>Hexadecimal conversion\<close>

definition hex_digits :: string where "hex_digits = ''0123456789abcdef''"

definition hex_digit :: "nat \<Rightarrow> char" where "hex_digit d = hex_digits ! d"

fun hex_nat :: "nat \<Rightarrow> string" where
  "hex_nat n = (if n < 16 then [hex_digit n] else hex_nat (n div 16) @ [hex_digit (n mod 16)])"

declare hex_nat.simps [simp del]

definition fmt_x :: "c_int \<Rightarrow> string" where
  "fmt_x v = hex_nat (unat v)"

definition fmt_02x :: "c_int \<Rightarrow> string" where
  "fmt_02x v = (let h = hex_nat (unat v) in replicate (2 - length h) (CHR ''0'') @ h)"

definition readec_entry :: "c_int \<Rightarrow> u8 \<Rightarrow> string" where
  "readec_entry offset d =
     ''readec: offset= '' @ fmt_x offset @ '', data= '' @ fmt_02x (scast d) @ ''\<newline>''"

subsection \<open>Reading a hexadecimal field back\<close>

definition digit_val :: "char \<Rightarrow> nat" where
  "digit_val c = (let n = of_char c in if n < 58 then n - 48 else n - 87)"

fun hex_val :: "nat \<Rightarrow> string \<Rightarrow> nat" where
  "hex_val acc [] = acc"
| "hex_val acc (c # cs) = hex_val (16 * acc + digit_val c) cs"

lemma digit_val_hex_digit [simp]: "d < 16 \<Longrightarrow> digit_val (hex_digit d) = d"
proof -
  assume "d < 16"
  then have "d \<in> set [0..<16]" by simp
  then show ?thesis
    by (simp add: upt_rec digit_val_def hex_digit_def hex_digits_def) (elim disjE; simp)
qed

lemma hex_val_append: "hex_val acc (xs @ ys) = hex_val (hex_val acc xs) ys"
  by (induction xs arbitrary: acc) auto

lemma hex_val_hex_nat: "hex_val acc (hex_nat n) = 16 ^ length (hex_nat n) * acc + n"
proof (induction n arbitrary: acc rule: hex_nat.induct)
  case (1 n)
  show ?case
  proof (cases "n < 16")
    case True
    then show ?thesis by (simp add: hex_nat.simps)
  next
    case False
    then have "hex_nat n = hex_nat (n div 16) @ [hex_digit (n mod 16)]"
      by (simp add: hex_nat.simps)
    then show ?thesis using "1" [OF False, of acc] by (simp add: hex_val_append algebra_simps)
  qed
qed

lemma hex_nat_not_Nil [simp]: "hex_nat n \<noteq> []"
  by (subst hex_nat.simps) simp

lemma length_fmt_02x: "2 \<le> length (fmt_02x v)"
  by (simp add: fmt_02x_def Let_def)

lemma length_readec_entry: "28 \<le> length (readec_entry offset d)"
proof -
  have "1 \<le> length (fmt_x offset)" by (simp add: fmt_x_def Suc_le_eq)
  with length_fmt_02x [of "scast d"] show ?thesis by (simp add: readec_entry_def)
qed

subsection \<open>Lengths and values of the conversions\<close>

lemma length_hex_nat_le: "n < 16 ^ k \<Longrightarrow> 0 < k \<Longrightarrow> length (hex_nat n) \<le> k"
proof (induction n arbitrary: k rule: hex_nat.induct)
  case (1 n)
  show ?case
  proof (cases "n < 16")
    case True
    with "1.prems" show ?thesis by (simp add: hex_nat.simps)
  next
    case False
    then obtain k' where k: "k = Suc k'" using "1.prems"(2) by (cases k) auto
    from False "1.prems"(1) k have "0 < k'" by (cases k') auto
    moreover from "1.prems"(1) k have "n div 16 < 16 ^ k'" by (simp add: div_less_iff_less_mult)
    ultimately have "length (hex_nat (n div 16)) \<le> k'" using "1.IH" [OF False] by blast
    with False k show ?thesis by (simp add: hex_nat.simps [of n])
  qed
qed

lemma length_hex_nat_ge: "16 ^ k \<le> n \<Longrightarrow> Suc k \<le> length (hex_nat n)"
proof (induction n arbitrary: k rule: hex_nat.induct)
  case (1 n)
  show ?case
  proof (cases k)
    case 0
    then show ?thesis by (simp add: Suc_le_eq)
  next
    case (Suc k')
    have "(16::nat) \<le> 16 ^ k" using Suc by simp
    with "1.prems" have big: "\<not> n < 16" by linarith
    from "1.prems" Suc have "16 ^ k' \<le> n div 16" by (simp add: less_eq_div_iff_mult_less_eq mult.commute)
    then have "Suc k' \<le> length (hex_nat (n div 16))" using "1.IH" [OF big] by blast
    with big Suc show ?thesis by (simp add: hex_nat.simps [of n])
  qed
qed

lemma hex_val_zeros: "hex_val acc (replicate k (CHR ''0'')) = 16 ^ k * acc"
  by (induction k arbitrary: acc) (simp_all add: digit_val_def)

lemma hex_val_fmt_02x_gen: "hex_val 0 (fmt_02x v) = unat v"
  using hex_val_hex_nat [of "hex_val 0 (replicate (2 - length (hex_nat (unat v))) (CHR ''0''))" "unat v"]
  by (simp add: fmt_02x_def Let_def hex_val_append hex_val_zeros)

lemma length_fmt_02x_small: "unat v < 256 \<Longrightarrow> length (fmt_02x v) = 2"
  using length_hex_nat_le [of "unat v" 2] by (simp add: fmt_02x_def Let_def)

lemma uint_scast_u8: "uint (scast (d :: u8) :: c_int) = (if d < 0x80 then uint d else uint d + 4294967040)"
proof -
  have u: "0 \<le> uint d" "uint d < 256" using uint_lt2p [of d] by simp_all
  have lt: "d < 0x80 \<longleftrightarrow> uint d < 128" by (simp add: word_less_def)
  have "sint d = signed_take_bit 7 (uint d)" by (simp add: sint_uint)
  also have "\<dots> = take_bit 8 (uint d + 128) - 128" by (simp add: signed_take_bit_eq_take_bit_shift)
  finally have s: "sint d = (uint d + 128) mod 256 - 128" by (simp only: take_bit_eq_mod) simp
  have sc: "uint (scast d :: c_int) = sint d mod 4294967296"
    by (simp only: scast_eq uint_word_of_int_eq) (simp add: take_bit_eq_mod)
  show ?thesis
  proof (cases "uint d < 128")
    case True
    then have "(uint d + 128) mod 256 = uint d + 128" using u by (simp add: mod_pos_pos_trivial)
    with s sc u True lt show ?thesis by (simp add: mod_pos_pos_trivial)
  next
    case False
    have "(uint d + 128) mod 256 = (uint d - 128 + 256) mod 256" by (simp add: add.commute)
    also have "\<dots> = (uint d - 128) mod 256" by (rule mod_add_self2)
    also have "\<dots> = uint d - 128" using u False by (simp add: mod_pos_pos_trivial)
    finally have "sint d = uint d - 256" using s by simp
    moreover have "(uint d - 256) mod 4294967296 = uint d + 4294967040"
    proof -
      have "(uint d - 256) mod 4294967296 = (uint d - 256 + 4294967296) mod 4294967296"
        by (rule mod_add_self2 [symmetric])
      also have "\<dots> = uint d + 4294967040" using u by (simp add: mod_pos_pos_trivial)
      finally show ?thesis .
    qed
    ultimately show ?thesis using sc lt False by simp
  qed
qed

lemma unat_scast_u8:
  "unat (scast (d :: u8) :: c_int) = (if d < 0x80 then unat d else unat d + 4294967040)"
proof -
  have "unat (scast d :: c_int) = nat (uint (scast d :: c_int))" by (rule unat_eq_nat_uint)
  also have "\<dots> = nat (if d < 0x80 then uint d else uint d + 4294967040)"
    by (simp only: uint_scast_u8)
  finally show ?thesis by (cases "d < 0x80") (simp_all add: nat_add_distrib)
qed

subsection \<open>What a log record says\<close>

text \<open>C18: a log record says what was read: it has the fixed shape of line 118,
  and its two fields, read back as hexadecimal, give the offset and the data
  argument as \<^verbatim>\<open>sprintf\<close> received it (for \<^verbatim>\<open>%x\<close> and for the zero-padded
  \<^verbatim>\<open>%02x\<close>).\<close>

theorem readec_entry_roundtrip:
  "\<exists>x y. readec_entry offset d = ''readec: offset= '' @ x @ '', data= '' @ y @ ''\<newline>'' \<and>
         hex_val 0 x = unat offset \<and> hex_val 0 y = unat (scast d :: c_int)"
proof (intro exI conjI)
  show "readec_entry offset d =
          ''readec: offset= '' @ fmt_x offset @ '', data= '' @ fmt_02x (scast d) @ ''\<newline>''"
    by (simp add: readec_entry_def)
  show "hex_val 0 (fmt_x offset) = unat offset"
    using hex_val_hex_nat [of 0 "unat offset"] by (simp add: fmt_x_def)
  show "hex_val 0 (fmt_02x (scast d)) = unat (scast d :: c_int)"
    by (rule hex_val_fmt_02x_gen)
qed

text \<open>C19: the data field of a log record is two hexadecimal digits only for bytes
  below \<open>0x80\<close>. A byte with its top bit set is sign-extended when the
  \<^verbatim>\<open>char\<close> is passed to \<^verbatim>\<open>sprintf\<close>, and \<^verbatim>\<open>%02x\<close> prints eight digits, the
  byte plus \<open>0xFFFFFF00\<close>: reading \<open>0x85\<close> at offset \<open>0x2F\<close> logs
  \<open>data= ffffff85\<close>.\<close>

theorem readec_entry_sign_extension:
  "length (fmt_02x (scast (d :: u8))) = (if d < 0x80 then 2 else 8) \<and>
   hex_val 0 (fmt_02x (scast d)) = (if d < 0x80 then unat d else unat d + 0xFFFFFF00) \<and>
   readec_entry 0x2F 0x85 = ''readec: offset= 2f, data= ffffff85\<newline>''"
proof (intro conjI)
  have u: "unat d < 256" using uint_lt2p [of d] by (simp add: nat_less_iff flip: nat_uint_eq)
  show "length (fmt_02x (scast d)) = (if d < 0x80 then 2 else 8)"
  proof (cases "d < 0x80")
    case True
    then show ?thesis using u length_fmt_02x_small [of "scast d"] by (simp add: unat_scast_u8)
  next
    case False
    let ?n = "unat d + 4294967040"
    have "length (hex_nat ?n) \<le> 8" using u by (intro length_hex_nat_le) simp_all
    moreover have "Suc 7 \<le> length (hex_nat ?n)" by (rule length_hex_nat_ge) simp
    ultimately have "length (hex_nat ?n) = 8" by simp
    with False show ?thesis by (simp add: unat_scast_u8 fmt_02x_def Let_def)
  qed
  show "hex_val 0 (fmt_02x (scast d)) = (if d < 0x80 then unat d else unat d + 0xFFFFFF00)"
    by (simp add: hex_val_fmt_02x_gen unat_scast_u8)
  show "readec_entry 0x2F 0x85 = ''readec: offset= 2f, data= ffffff85\<newline>''"
    by (simp add: readec_entry_def fmt_x_def fmt_02x_def unat_scast_u8 hex_nat.simps
        hex_digit_def hex_digits_def)
qed

end
