(* ===== verification/ReadEC.thy ===== *)
theory ReadEC
  imports Sweep DiagLog
begin

text \<open>
  \<^verbatim>\<open>FANCONTROL::ReadByteFromEC(int offset, char* pdata)\<close> (lines 60--121). The
  body of its retry loop is \<open>read_sweep\<close> (lines 72--112), the loop is the
  shared \<open>setup_loop\<close> started with \<^verbatim>\<open>numSetupTries = 5\<close> and
  \<^verbatim>\<open>iOK = false\<close>, and after the loop the data port is read into \<^verbatim>\<open>*pdata\<close>
  and, when \<^verbatim>\<open>verbosity > 0\<close>, a record is appended to \<^verbatim>\<open>logbuf\<close>. The
  pointer argument is modelled by the byte it points to before the call
  (\<open>pdata\<close>) and after (the second component of the result); the return value
  is the first component. \<^verbatim>\<open>WritePort(EC_DATAPORT, offset)\<close> passes the
  \<^verbatim>\<open>int\<close> offset to an unsigned-byte parameter, hence \<open>ucast\<close>.
\<close>

definition read_sweep :: "'d port_io \<Rightarrow> c_int \<Rightarrow> 'd ec_io \<Rightarrow> 'd ec_io sweep" where
  "read_sweep io offset s =
     (case poll io buffers_clear iTimeoutBuf 0 s of
        (iOK, s) \<Rightarrow> if \<not> iOK then Return0 s else
      case poll io buffers_clear iTimeout 0 (WritePort io EC_CTRLPORT EC_CTRLPORT_READ s) of
        (iOK, s) \<Rightarrow> if \<not> iOK then Return0 s else
      case poll io obf_full iTimeout 0 (WritePort io EC_DATAPORT (ucast offset) s) of
        (iOK, s) \<Rightarrow> Swept iOK s)"

definition ReadByteFromEC :: "'d port_io \<Rightarrow> c_int \<Rightarrow> u8 \<Rightarrow> 'd ec_io \<Rightarrow> int \<times> u8 \<times> 'd ec_io" where
  "ReadByteFromEC io offset pdata s =
     (case setup_loop (read_sweep io offset) 5 False s of
        Return0 s \<Rightarrow> (0, pdata, s)
      | Swept iOK s \<Rightarrow>
          if \<not> iOK then (0, pdata, s)
          else (case ReadPort io EC_DATAPORT s of
                  (data, s) \<Rightarrow>
                    (1, data,
                     if 0 < verbosity s then s\<lparr>logbuf := logbuf s @ readec_entry offset data\<rparr>
                     else s)))"

lemma read_sweep_is_ec_sweep:
  "read_sweep io offset = ec_sweep io EC_CTRLPORT_READ obf_full (ucast offset)"
  by (rule ext) (simp add: read_sweep_def ec_sweep_def)

text \<open>The loop of a read, with what \<open>ec_loop_trace\<close> says of it.\<close>

lemma read_loop_trace:
  "\<exists>evs. io_trace (sweep_state (setup_loop (read_sweep io offset) 5 False s)) = io_trace s @ evs \<and>
     handshake_ok None evs \<and>
     set (port_writes evs) \<subseteq> {(EC_CTRLPORT, EC_CTRLPORT_READ), (EC_DATAPORT, ucast offset)} \<and>
     length (port_writes evs) \<le> 10 \<and> slept_total evs \<le> 6000 \<and> status_reads evs \<le> 600 \<and>
     verbosity (sweep_state (setup_loop (read_sweep io offset) 5 False s)) = verbosity s \<and>
     logbuf (sweep_state (setup_loop (read_sweep io offset) 5 False s)) = logbuf s \<and>
     (\<forall>s'. setup_loop (read_sweep io offset) 5 False s = Swept True s' \<longrightarrow>
           (\<exists>b. last_status None evs = Some b \<and> obf_full b))"
  using ec_loop_trace [of io EC_CTRLPORT_READ obf_full "ucast offset" 5 s]
  by (simp add: read_sweep_is_ec_sweep)

lemma ReadByteFromEC_cases:
  obtains (fail) s1 where "ReadByteFromEC io offset pdata s = (0, pdata, s1)"
      "sweep_state (setup_loop (read_sweep io offset) 5 False s) = s1"
      "\<forall>s'. setup_loop (read_sweep io offset) 5 False s \<noteq> Swept True s'"
  | (success) s1 d s2 where "setup_loop (read_sweep io offset) 5 False s = Swept True s1"
      "ReadPort io EC_DATAPORT s1 = (d, s2)"
      "ReadByteFromEC io offset pdata s =
         (1, d, if 0 < verbosity s2 then s2\<lparr>logbuf := logbuf s2 @ readec_entry offset d\<rparr> else s2)"
proof (cases "setup_loop (read_sweep io offset) 5 False s")
  case (Return0 s1)
  then show ?thesis using fail by (simp add: ReadByteFromEC_def)
next
  case (Swept ok s1)
  show ?thesis
  proof (cases ok)
    case False
    with Swept show ?thesis using fail by (simp add: ReadByteFromEC_def)
  next
    case True
    obtain d s2 where "ReadPort io EC_DATAPORT s1 = (d, s2)" by fastforce
    with Swept True show ?thesis using success by (simp add: ReadByteFromEC_def)
  qed
qed

text \<open>C1: on every device, the bus events of a call of \<^verbatim>\<open>ReadByteFromEC\<close> keep the EC handshake: each byte written to a port follows a status sample with both buffers empty, the data port is read only after a status sample with the output buffer full, and the only bytes written are the READ command to the control port and the offset to the data port.\<close>

theorem ReadByteFromEC_handshake:
  "case ReadByteFromEC io offset pdata s of (r, d, s') \<Rightarrow>
     \<exists>evs. io_trace s' = io_trace s @ evs \<and> handshake_ok None evs \<and>
           set (port_writes evs) \<subseteq> {(EC_CTRLPORT, EC_CTRLPORT_READ), (EC_DATAPORT, ucast offset)}"
proof -
  from read_loop_trace [of io offset s] obtain evs where
    t: "io_trace (sweep_state (setup_loop (read_sweep io offset) 5 False s)) = io_trace s @ evs"
    and h: "handshake_ok None evs"
    and w: "set (port_writes evs) \<subseteq> {(EC_CTRLPORT, EC_CTRLPORT_READ), (EC_DATAPORT, ucast offset)}"
    and l: "\<forall>s'. setup_loop (read_sweep io offset) 5 False s = Swept True s' \<longrightarrow>
              (\<exists>b. last_status None evs = Some b \<and> obf_full b)"
    by blast
  show ?thesis
  proof (cases rule: ReadByteFromEC_cases [of io offset pdata s])
    case (fail s1)
    with t h w show ?thesis by auto
  next
    case (success s1 d s2)
    with l obtain b where "last_status None evs = Some b" "obf_full b" by blast
    with success t h w show ?thesis
      by (auto dest!: ReadPort_effect intro!: exI [of _ "evs @ [PortIn EC_DATAPORT d]"])
  qed
qed

text \<open>C3: a read either fails, returning 0 with \<^verbatim>\<open>*pdata\<close> and the log untouched, or succeeds, returning 1 with \<^verbatim>\<open>*pdata\<close> set to the byte read from the data port as the last bus event, right after a status sample with the output buffer full, and with exactly one log record appended when the verbosity is positive.\<close>

theorem ReadByteFromEC_outcome:
  "case ReadByteFromEC io offset pdata s of (r, d, s') \<Rightarrow>
     (r = 0 \<and> d = pdata \<and> logbuf s' = logbuf s) \<or>
     (r = 1 \<and>
      (\<exists>evs b. io_trace s' = io_trace s @ evs @ [PortIn EC_DATAPORT d] \<and>
               last_status None evs = Some b \<and> obf_full b) \<and>
      logbuf s' = logbuf s @ (if 0 < verbosity s then readec_entry offset d else []))"
proof -
  from read_loop_trace [of io offset s] obtain evs where
    t: "io_trace (sweep_state (setup_loop (read_sweep io offset) 5 False s)) = io_trace s @ evs"
    and g: "verbosity (sweep_state (setup_loop (read_sweep io offset) 5 False s)) = verbosity s"
      "logbuf (sweep_state (setup_loop (read_sweep io offset) 5 False s)) = logbuf s"
    and l: "\<forall>s'. setup_loop (read_sweep io offset) 5 False s = Swept True s' \<longrightarrow>
              (\<exists>b. last_status None evs = Some b \<and> obf_full b)"
    by blast
  show ?thesis
  proof (cases rule: ReadByteFromEC_cases [of io offset pdata s])
    case (fail s1)
    with g show ?thesis by auto
  next
    case (success s1 d s2)
    with l obtain b where "last_status None evs = Some b" "obf_full b" by blast
    with success t g show ?thesis by (auto dest!: ReadPort_effect)
  qed
qed

text \<open>C6: every read returns after at most 600 status samples, 6000 ms of sleep and 10 port writes (five sweeps of at most 120 samples, 1200 ms and 2 writes).\<close>

theorem ReadByteFromEC_bounded:
  "case ReadByteFromEC io offset pdata s of (r, d, s') \<Rightarrow>
     \<exists>evs. io_trace s' = io_trace s @ evs \<and>
           slept_total evs \<le> 6000 \<and> status_reads evs \<le> 600 \<and> length (port_writes evs) \<le> 10"
proof -
  from read_loop_trace [of io offset s] obtain evs where
    t: "io_trace (sweep_state (setup_loop (read_sweep io offset) 5 False s)) = io_trace s @ evs"
    and b: "length (port_writes evs) \<le> 10" "slept_total evs \<le> 6000" "status_reads evs \<le> 600"
    by blast
  show ?thesis
  proof (cases rule: ReadByteFromEC_cases [of io offset pdata s])
    case (fail s1)
    with t b show ?thesis by auto
  next
    case (success s1 d s2)
    with t b show ?thesis
      by (auto dest!: ReadPort_effect intro!: exI [of _ "evs @ [PortIn EC_DATAPORT d]"])
  qed
qed

text \<open>C8: if the controller never reports both buffers empty, a read fails after exactly 100 status samples and 1000 ms of sleep, writes nothing, and leaves \<^verbatim>\<open>*pdata\<close> and the log alone: the idle-wait timeout is not retried.\<close>

theorem ReadByteFromEC_never_idle:
  assumes "\<forall>h. \<not> buffers_clear (fst (read_port io EC_CTRLPORT h))"
  shows "case ReadByteFromEC io offset pdata s of (r, d, s') \<Rightarrow>
           r = 0 \<and> d = pdata \<and> logbuf s' = logbuf s \<and>
           (\<exists>evs. io_trace s' = io_trace s @ evs \<and> status_reads evs = 100 \<and>
                  slept_total evs = 1000 \<and> port_writes evs = [])"
proof -
  obtain ok s1 where p: "poll io buffers_clear iTimeoutBuf 0 s = (ok, s1)" by fastforce
  with poll_never [OF assms, of iTimeoutBuf 0 s] have "\<not> ok" by simp
  with p have "read_sweep io offset s = Return0 s1" by (simp add: read_sweep_def)
  then have "ReadByteFromEC io offset pdata s = (0, pdata, s1)"
    by (simp add: ReadByteFromEC_def setup_loop_step)
  moreover from poll_trace [OF p] \<open>\<not> ok\<close> obtain evs where
    "io_trace s1 = io_trace s @ evs" "poll_run buffers_clear 100 evs False" "logbuf s1 = logbuf s"
    by auto
  ultimately show ?thesis by (auto dest: poll_run_failed poll_run_no_writes)
qed

lemma read_sweep_offset_256: "read_sweep io (offset + 256) = read_sweep io offset"
  by (simp add: read_sweep_is_ec_sweep)

text \<open>C11: the register offset is truncated to its low byte on the bus: offsets that differ by 256 give the same result, the same byte and the same bus traffic.\<close>

theorem ReadByteFromEC_offset_wraps:
  "case (ReadByteFromEC io (offset + 256) pdata s, ReadByteFromEC io offset pdata s) of
     ((r1, d1, s1), (r2, d2, s2)) \<Rightarrow>
       r1 = r2 \<and> d1 = d2 \<and> hw s1 = hw s2 \<and> io_trace s1 = io_trace s2"
  by (simp add: ReadByteFromEC_def read_sweep_offset_256 split: sweep.split prod.split)

end
