(* ===== verification/WriteEC.thy ===== *)
theory WriteEC
  imports Sweep
begin

text \<open>
  \<^verbatim>\<open>FANCONTROL::WriteByteToEC(int offset, char NewData)\<close> (lines 127--183). The
  body of its retry loop is \<open>write_sweep\<close> (lines 139--176): the same phases as
  a read with the WRITE command, and a last wait for both buffers to be empty
  again instead of the output buffer to fill. After the loop the new value is
  written to the data port with no confirmation wait, and nothing is logged.
\<close>

definition write_sweep :: "'d port_io \<Rightarrow> c_int \<Rightarrow> 'd ec_io \<Rightarrow> 'd ec_io sweep" where
  "write_sweep io offset s =
     (case poll io buffers_clear iTimeoutBuf 0 s of
        (iOK, s) \<Rightarrow> if \<not> iOK then Return0 s else
      case poll io buffers_clear iTimeout 0 (WritePort io EC_CTRLPORT EC_CTRLPORT_WRITE s) of
        (iOK, s) \<Rightarrow> if \<not> iOK then Return0 s else
      case poll io buffers_clear iTimeout 0 (WritePort io EC_DATAPORT (ucast offset) s) of
        (iOK, s) \<Rightarrow> Swept iOK s)"

definition WriteByteToEC :: "'d port_io \<Rightarrow> c_int \<Rightarrow> u8 \<Rightarrow> 'd ec_io \<Rightarrow> int \<times> 'd ec_io" where
  "WriteByteToEC io offset NewData s =
     (case setup_loop (write_sweep io offset) 5 False s of
        Return0 s \<Rightarrow> (0, s)
      | Swept iOK s \<Rightarrow>
          if \<not> iOK then (0, s)
          else (1, WritePort io EC_DATAPORT NewData s))"

lemma write_sweep_is_ec_sweep:
  "write_sweep io offset = ec_sweep io EC_CTRLPORT_WRITE buffers_clear (ucast offset)"
  by (rule ext) (simp add: write_sweep_def ec_sweep_def)

lemma write_loop_trace:
  "\<exists>evs. io_trace (sweep_state (setup_loop (write_sweep io offset) 5 False s)) = io_trace s @ evs \<and>
     handshake_ok None evs \<and>
     set (port_writes evs) \<subseteq> {(EC_CTRLPORT, EC_CTRLPORT_WRITE), (EC_DATAPORT, ucast offset)} \<and>
     length (port_writes evs) \<le> 10 \<and> slept_total evs \<le> 6000 \<and> status_reads evs \<le> 600 \<and>
     verbosity (sweep_state (setup_loop (write_sweep io offset) 5 False s)) = verbosity s \<and>
     logbuf (sweep_state (setup_loop (write_sweep io offset) 5 False s)) = logbuf s \<and>
     (\<forall>s'. setup_loop (write_sweep io offset) 5 False s = Swept True s' \<longrightarrow>
           (\<exists>b. last_status None evs = Some b \<and> buffers_clear b))"
  using ec_loop_trace [of io EC_CTRLPORT_WRITE buffers_clear "ucast offset" 5 s]
  by (simp add: write_sweep_is_ec_sweep)

lemma WriteByteToEC_cases:
  obtains (fail) s1 where "WriteByteToEC io offset NewData s = (0, s1)"
      "sweep_state (setup_loop (write_sweep io offset) 5 False s) = s1"
  | (success) s1 where "setup_loop (write_sweep io offset) 5 False s = Swept True s1"
      "WriteByteToEC io offset NewData s = (1, WritePort io EC_DATAPORT NewData s1)"
proof (cases "setup_loop (write_sweep io offset) 5 False s")
  case (Return0 s1)
  then show ?thesis using fail by (simp add: WriteByteToEC_def)
next
  case (Swept ok s1)
  then show ?thesis using fail success by (cases ok) (simp_all add: WriteByteToEC_def)
qed

text \<open>C2: on every device, the bus events of a call of \<^verbatim>\<open>WriteByteToEC\<close> keep the EC
  handshake, and the only bytes written are the WRITE command to the control port and
  the offset and the new value to the data port.\<close>

theorem WriteByteToEC_handshake:
  "case WriteByteToEC io offset NewData s of (r, s') \<Rightarrow>
     \<exists>evs. io_trace s' = io_trace s @ evs \<and> handshake_ok None evs \<and>
           set (port_writes evs) \<subseteq>
             {(EC_CTRLPORT, EC_CTRLPORT_WRITE), (EC_DATAPORT, ucast offset), (EC_DATAPORT, NewData)}"
proof -
  from write_loop_trace [of io offset s] obtain evs where
    t: "io_trace (sweep_state (setup_loop (write_sweep io offset) 5 False s)) = io_trace s @ evs"
    and h: "handshake_ok None evs"
    and w: "set (port_writes evs) \<subseteq> {(EC_CTRLPORT, EC_CTRLPORT_WRITE), (EC_DATAPORT, ucast offset)}"
    and l: "\<forall>s'. setup_loop (write_sweep io offset) 5 False s = Swept True s' \<longrightarrow>
              (\<exists>b. last_status None evs = Some b \<and> buffers_clear b)"
    by blast
  show ?thesis
  proof (cases rule: WriteByteToEC_cases [of io offset NewData s])
    case (fail s1)
    with t h w show ?thesis by auto
  next
    case (success s1)
    with l obtain b where "last_status None evs = Some b" "buffers_clear b" by blast
    with success t h w show ?thesis
      by (auto intro!: exI [of _ "evs @ [PortOut EC_DATAPORT NewData]"])
  qed
qed

text \<open>C4: a write either fails, returning 0 without having written anything but the
  WRITE command and the offset, or succeeds, returning 1, and then its last bus event,
  and the only one after the handshake, is the write of the new value to the data port,
  right after a status sample with both buffers empty.\<close>

theorem WriteByteToEC_outcome:
  "case WriteByteToEC io offset NewData s of (r, s') \<Rightarrow>
     \<exists>evs. set (port_writes evs) \<subseteq> {(EC_CTRLPORT, EC_CTRLPORT_WRITE), (EC_DATAPORT, ucast offset)} \<and>
       ((r = 0 \<and> io_trace s' = io_trace s @ evs) \<or>
        (r = 1 \<and> io_trace s' = io_trace s @ evs @ [PortOut EC_DATAPORT NewData] \<and>
         (\<exists>b. last_status None evs = Some b \<and> buffers_clear b)))"
proof -
  from write_loop_trace [of io offset s] obtain evs where
    t: "io_trace (sweep_state (setup_loop (write_sweep io offset) 5 False s)) = io_trace s @ evs"
    and w: "set (port_writes evs) \<subseteq> {(EC_CTRLPORT, EC_CTRLPORT_WRITE), (EC_DATAPORT, ucast offset)}"
    and l: "\<forall>s'. setup_loop (write_sweep io offset) 5 False s = Swept True s' \<longrightarrow>
              (\<exists>b. last_status None evs = Some b \<and> buffers_clear b)"
    by blast
  show ?thesis
  proof (cases rule: WriteByteToEC_cases [of io offset NewData s])
    case (fail s1)
    with t w show ?thesis by auto
  next
    case (success s1)
    with l obtain b where "last_status None evs = Some b" "buffers_clear b" by blast
    with success t w show ?thesis by auto
  qed
qed

text \<open>C7: every write returns after at most 600 status samples, 6000 ms of sleep and
  11 port writes.\<close>

theorem WriteByteToEC_bounded:
  "case WriteByteToEC io offset NewData s of (r, s') \<Rightarrow>
     \<exists>evs. io_trace s' = io_trace s @ evs \<and>
           slept_total evs \<le> 6000 \<and> status_reads evs \<le> 600 \<and> length (port_writes evs) \<le> 11"
proof -
  from write_loop_trace [of io offset s] obtain evs where
    t: "io_trace (sweep_state (setup_loop (write_sweep io offset) 5 False s)) = io_trace s @ evs"
    and b: "length (port_writes evs) \<le> 10" "slept_total evs \<le> 6000" "status_reads evs \<le> 600"
    by blast
  show ?thesis
  proof (cases rule: WriteByteToEC_cases [of io offset NewData s])
    case (fail s1)
    with t b show ?thesis by auto
  next
    case (success s1)
    with t b show ?thesis by (auto intro!: exI [of _ "evs @ [PortOut EC_DATAPORT NewData]"])
  qed
qed

text \<open>C9: if the controller never reports both buffers empty, a write fails after
  exactly 100 status samples and 1000 ms of sleep and writes nothing.\<close>

theorem WriteByteToEC_never_idle:
  assumes "\<forall>h. \<not> buffers_clear (fst (read_port io EC_CTRLPORT h))"
  shows "case WriteByteToEC io offset NewData s of (r, s') \<Rightarrow>
           r = 0 \<and> (\<exists>evs. io_trace s' = io_trace s @ evs \<and> status_reads evs = 100 \<and>
                         slept_total evs = 1000 \<and> port_writes evs = [])"
proof -
  obtain ok s1 where p: "poll io buffers_clear iTimeoutBuf 0 s = (ok, s1)" by fastforce
  with poll_never [OF assms, of iTimeoutBuf 0 s] have "\<not> ok" by simp
  with p have "write_sweep io offset s = Return0 s1" by (simp add: write_sweep_def)
  then have "WriteByteToEC io offset NewData s = (0, s1)"
    by (simp add: WriteByteToEC_def setup_loop_step)
  moreover from poll_trace [OF p] \<open>\<not> ok\<close> obtain evs where
    "io_trace s1 = io_trace s @ evs" "poll_run buffers_clear 100 evs False"
    by auto
  ultimately show ?thesis by (auto dest: poll_run_failed poll_run_no_writes)
qed

text \<open>C10: a write never touches the diagnostic log or the verbosity, whatever the
  verbosity and the outcome (the asymmetry with reads the design keeps).\<close>

theorem WriteByteToEC_no_log:
  "case WriteByteToEC io offset NewData s of (r, s') \<Rightarrow>
     logbuf s' = logbuf s \<and> verbosity s' = verbosity s"
proof -
  from write_loop_trace [of io offset s]
  have g: "verbosity (sweep_state (setup_loop (write_sweep io offset) 5 False s)) = verbosity s"
      "logbuf (sweep_state (setup_loop (write_sweep io offset) 5 False s)) = logbuf s"
    by blast+
  show ?thesis
    by (cases rule: WriteByteToEC_cases [of io offset NewData s]) (use g in auto)
qed

end
