(* ===== verification/SimEC.thy ===== *)
theory SimEC
  imports Poll
begin

text \<open>
  A simulated embedded controller, the test double of the spec (section 8: "verified
  against a simulated EC model rather than real hardware"). It is not code of the
  repository; it follows the ACPI EC behaviour the driver is written for:
  \<^item> a register file \<open>regs\<close>, the abstract state a read or write acts on;
  \<^item> after every byte written to a port the controller is busy for a number of
    status reads, taken from the script \<open>delays\<close> (0 once the script is used up),
    and reports IBF while busy;
  \<^item> the control port accepts READ and WRITE commands (\<open>phase\<close>); a byte written to
    the data port after READ is taken as a register offset, and the register's
    value is put in the output buffer (OBF set); after WRITE the first data byte is
    the offset and the second the value stored;
  \<^item> reading the data port returns the output buffer and clears OBF, and OBF is
    reported (once the controller is no longer busy) until then;
  \<^item> sleeping advances a clock.
  \<open>sim_io\<close> packages this device as a \<open>port_io\<close>. The section "Polls on the
  simulator" computes what the driver's polling loop does against it.
\<close>

datatype sim_phase = Idle | RdCmd | WrCmd | WrAddr u8

record sim_ec =
  regs :: "u8 \<Rightarrow> u8"
  phase :: sim_phase
  busy :: nat
  obf :: bool
  out :: u8
  delays :: "nat list"
  clock :: nat

definition next_delay :: "nat list \<Rightarrow> nat \<times> nat list" where
  "next_delay ds = (case ds of [] \<Rightarrow> (0, []) | d # ds' \<Rightarrow> (d, ds'))"

definition sim_status :: "sim_ec \<Rightarrow> u8" where
  "sim_status e = (if 0 < busy e then EC_STAT_IBF else if obf e then EC_STAT_OBF else 0)"

definition sim_read :: "u16 \<Rightarrow> sim_ec \<Rightarrow> u8 \<times> sim_ec" where
  "sim_read p e =
     (if p = EC_CTRLPORT then (sim_status e, e\<lparr>busy := busy e - 1\<rparr>)
      else if p = EC_DATAPORT then (out e, e\<lparr>obf := False\<rparr>)
      else (0xFF, e))"

definition sim_write :: "u16 \<Rightarrow> u8 \<Rightarrow> sim_ec \<Rightarrow> sim_ec" where
  "sim_write p v e =
     (case next_delay (delays e) of
        (d, ds) \<Rightarrow>
          let e' = e\<lparr>busy := d, delays := ds\<rparr> in
          if p = EC_CTRLPORT then
            e'\<lparr>phase := (if v = EC_CTRLPORT_READ then RdCmd
                         else if v = EC_CTRLPORT_WRITE then WrCmd else Idle)\<rparr>
          else if p = EC_DATAPORT then
            (case phase e of
               RdCmd \<Rightarrow> e'\<lparr>out := regs e v, obf := True, phase := Idle\<rparr>
             | WrCmd \<Rightarrow> e'\<lparr>phase := WrAddr v\<rparr>
             | WrAddr a \<Rightarrow> e'\<lparr>regs := (regs e)(a := v), phase := Idle\<rparr>
             | Idle \<Rightarrow> e')
          else e)"

definition sim_sleep :: "nat \<Rightarrow> sim_ec \<Rightarrow> sim_ec" where
  "sim_sleep ms e = e\<lparr>clock := clock e + ms\<rparr>"

definition sim_io :: "sim_ec port_io" where
  "sim_io = \<lparr>read_port = sim_read, write_port = sim_write, sleep_ms = sim_sleep\<rparr>"

text \<open>A controller ready for a transaction: output buffer empty, and the current
  and every scripted latency shorter than the driver's 100 ms phase budget (ten
  samples).\<close>

definition sim_ready :: "sim_ec \<Rightarrow> bool" where
  "sim_ready e \<longleftrightarrow> busy e < 10 \<and> \<not> obf e \<and> list_all (\<lambda>d. d < 10) (delays e)"

subsection \<open>Rewriting the primitives on the simulator\<close>

lemma sim_status_simps [simp]:
  "0 < busy e \<Longrightarrow> sim_status e = EC_STAT_IBF"
  "busy e = 0 \<Longrightarrow> sim_status e = (if obf e then EC_STAT_OBF else 0)"
  by (simp_all add: sim_status_def)

lemma status_conds [simp]:
  "\<not> buffers_clear EC_STAT_IBF" "\<not> obf_full EC_STAT_IBF"
  "\<not> buffers_clear EC_STAT_OBF" "obf_full EC_STAT_OBF"
  "buffers_clear 0" "\<not> obf_full 0"
  by (simp_all add: buffers_clear_def obf_full_def ec_consts)

lemma ReadPort_sim_ctrl:
  "ReadPort sim_io EC_CTRLPORT s =
     (sim_status (hw s), s\<lparr>hw := (hw s)\<lparr>busy := busy (hw s) - 1\<rparr>,
                           io_trace := io_trace s @ [PortIn EC_CTRLPORT (sim_status (hw s))]\<rparr>)"
  by (simp add: ReadPort_def sim_io_def sim_read_def)

lemma ReadPort_sim_data:
  "ReadPort sim_io EC_DATAPORT s =
     (out (hw s), s\<lparr>hw := (hw s)\<lparr>obf := False\<rparr>,
                    io_trace := io_trace s @ [PortIn EC_DATAPORT (out (hw s))]\<rparr>)"
  by (simp add: ReadPort_def sim_io_def sim_read_def)

lemma sim_io_fields [simp]:
  "read_port sim_io = sim_read" "write_port sim_io = sim_write"
  "sleep_ms sim_io ms e = e\<lparr>clock := clock e + ms\<rparr>"
  by (simp_all add: sim_io_def sim_sleep_def)

lemma next_delay_cooperative:
  "list_all (\<lambda>d. d < 10) ds \<Longrightarrow>
   fst (next_delay ds) < 10 \<and> list_all (\<lambda>d. d < 10) (snd (next_delay ds))"
  by (cases ds) (simp_all add: next_delay_def)

lemma sim_write_ctrl [simp]:
  "sim_write EC_CTRLPORT v e =
     e\<lparr>busy := fst (next_delay (delays e)), delays := snd (next_delay (delays e)),
       phase := (if v = EC_CTRLPORT_READ then RdCmd else if v = EC_CTRLPORT_WRITE then WrCmd else Idle)\<rparr>"
  by (simp add: sim_write_def Let_def split: prod.split)

lemma sim_write_data [simp]:
  "sim_write EC_DATAPORT v e =
     (case phase e of
        RdCmd \<Rightarrow> e\<lparr>busy := fst (next_delay (delays e)), delays := snd (next_delay (delays e)),
                   out := regs e v, obf := True, phase := Idle\<rparr>
      | WrCmd \<Rightarrow> e\<lparr>busy := fst (next_delay (delays e)), delays := snd (next_delay (delays e)),
                   phase := WrAddr v\<rparr>
      | WrAddr a \<Rightarrow> e\<lparr>busy := fst (next_delay (delays e)), delays := snd (next_delay (delays e)),
                      regs := (regs e)(a := v), phase := Idle\<rparr>
      | Idle \<Rightarrow> e\<lparr>busy := fst (next_delay (delays e)), delays := snd (next_delay (delays e))\<rparr>)"
  by (simp add: sim_write_def Let_def split: prod.split sim_phase.split)

subsection \<open>Polls on the simulator\<close>

text \<open>A poll whose condition fails on IBF and holds once the controller is no longer
  busy succeeds after \<open>busy\<close> sleeps, if the budget allows that many samples.\<close>

lemma ReadPort_sim_ctrl_at:
  "hw s = e \<Longrightarrow> ReadPort sim_io EC_CTRLPORT s =
     (sim_status e, s\<lparr>hw := e\<lparr>busy := busy e - 1\<rparr>,
                     io_trace := io_trace s @ [PortIn EC_CTRLPORT (sim_status e)]\<rparr>)"
  by (simp add: ReadPort_sim_ctrl)

lemma poll_sim_ready:
  assumes "hw s = e" "busy e < poll_ticks budget iTime"
    and "cond (sim_status (e\<lparr>busy := 0\<rparr>))" "\<not> cond EC_STAT_IBF"
  shows "\<exists>evs. poll sim_io cond budget iTime s =
           (True, s\<lparr>hw := e\<lparr>busy := 0, clock := clock e + 10 * busy e\<rparr>,
                    io_trace := io_trace s @ evs\<rparr>)"
  using assms
proof (induction "busy e" arbitrary: e s iTime)
  case 0
  then have lt: "iTime < budget" using poll_ticks_stop by fastforce
  from "0" have "e\<lparr>busy := 0\<rparr> = e" by simp
  with "0" show ?case
    by (auto simp: poll_step [OF lt ReadPort_sim_ctrl_at [OF "0.prems"(1)]])
next
  case (Suc k)
  then have lt: "iTime < budget" using poll_ticks_stop by fastforce
  let ?r = "s\<lparr>hw := e\<lparr>busy := busy e - 1\<rparr>, io_trace := io_trace s @ [PortIn EC_CTRLPORT EC_STAT_IBF]\<rparr>"
  let ?s1 = "Sleep sim_io 10 ?r"
  let ?e1 = "e\<lparr>busy := k, clock := clock e + 10\<rparr>"
  have st: "sim_status e = EC_STAT_IBF" using Suc.hyps(2) by simp
  have rd: "ReadPort sim_io EC_CTRLPORT s = (EC_STAT_IBF, ?r)"
    using ReadPort_sim_ctrl_at [OF Suc.prems(1)] st by simp
  have h1: "hw ?s1 = ?e1" using Suc.hyps(2) by simp
  have "k < poll_ticks budget (iTime + 10)"
    using Suc.prems(2) Suc.hyps(2) poll_ticks_step [OF lt] by simp
  with Suc.hyps(1) [where e = ?e1 and s = ?s1 and iTime = "iTime + 10"] h1 Suc.prems(3,4)
  obtain evs where ev: "poll sim_io cond budget (iTime + 10) ?s1 =
      (True, ?s1\<lparr>hw := ?e1\<lparr>busy := 0, clock := clock ?e1 + 10 * k\<rparr>, io_trace := io_trace ?s1 @ evs\<rparr>)"
    by auto
  have "poll sim_io cond budget iTime s = poll sim_io cond budget (iTime + 10) ?s1"
    using Suc.prems(4) by (simp add: poll_step [OF lt rd])
  with ev show ?case using Suc.hyps(2) [symmetric]
    by (intro exI [of _ "PortIn EC_CTRLPORT EC_STAT_IBF # Slept 10 # evs"]) (simp add: algebra_simps)
qed

text \<open>A poll whose condition fails on every status the controller shows during
  the budget times out, having taken that many samples.\<close>

lemma poll_sim_timeout:
  assumes "hw s = e" "\<not> cond EC_STAT_IBF"
    and "poll_ticks budget iTime \<le> busy e \<or> \<not> cond (sim_status (e\<lparr>busy := 0\<rparr>))"
  shows "\<exists>evs. poll sim_io cond budget iTime s =
           (False, s\<lparr>hw := e\<lparr>busy := busy e - poll_ticks budget iTime,
                             clock := clock e + 10 * poll_ticks budget iTime\<rparr>,
                     io_trace := io_trace s @ evs\<rparr>)"
  using assms
proof (induction "poll_ticks budget iTime" arbitrary: e s iTime)
  case 0
  then have "\<not> iTime < budget" using poll_ticks_pos by fastforce
  with "0" show ?case by (intro exI [of _ "[]"]) simp
next
  case (Suc n)
  then have lt: "iTime < budget" using poll_ticks_stop by fastforce
  have n: "poll_ticks budget (iTime + 10) = n" using Suc.hyps(2) poll_ticks_step [OF lt] by simp
  have nc: "\<not> cond (sim_status e)"
    using Suc.prems Suc.hyps(2) by (cases "busy e") (auto simp: sim_status_def)
  let ?r = "s\<lparr>hw := e\<lparr>busy := busy e - 1\<rparr>, io_trace := io_trace s @ [PortIn EC_CTRLPORT (sim_status e)]\<rparr>"
  let ?s1 = "Sleep sim_io 10 ?r"
  let ?e1 = "e\<lparr>busy := busy e - 1, clock := clock e + 10\<rparr>"
  have rd: "ReadPort sim_io EC_CTRLPORT s = (sim_status e, ?r)"
    by (rule ReadPort_sim_ctrl_at [OF Suc.prems(1)])
  have h1: "hw ?s1 = ?e1" by simp
  have "n \<le> busy ?e1 \<or> \<not> cond (sim_status (?e1\<lparr>busy := 0\<rparr>))"
    using Suc.prems(3) Suc.hyps(2) by (auto simp: sim_status_def)
  with Suc.hyps(1) [where e = ?e1 and s = ?s1 and iTime = "iTime + 10"] n h1 Suc.prems(2)
  obtain evs where ev: "poll sim_io cond budget (iTime + 10) ?s1 =
      (False, ?s1\<lparr>hw := ?e1\<lparr>busy := busy ?e1 - n, clock := clock ?e1 + 10 * n\<rparr>,
                 io_trace := io_trace ?s1 @ evs\<rparr>)"
    by auto
  have "poll sim_io cond budget iTime s = poll sim_io cond budget (iTime + 10) ?s1"
    using nc by (simp add: poll_step [OF lt rd])
  with ev show ?case using Suc.hyps(2) [symmetric]
    by (intro exI [of _ "PortIn EC_CTRLPORT (sim_status e) # Slept 10 # evs"]) (simp add: algebra_simps)
qed

end
