(* ===== verification/DriverSim.thy ===== *)
theory DriverSim
  imports ReadEC WriteEC SimEC
begin

text \<open>
  The driver against the simulated controller of \<open>SimEC\<close>. On a ready controller
  (\<open>sim_ready\<close>: output buffer empty, every latency under the 100 ms phase budget)
  one sweep of either operation succeeds, and \<^verbatim>\<open>WriteByteToEC\<close> and
  \<^verbatim>\<open>ReadByteFromEC\<close> act on the register file as an assignment and a lookup at
  the offset's low byte: the refinement of the abstract register-file
  specification. The section on late replies shows what happens when the
  controller answers a read after the 100 ms budget; the last section counts the
  time a call sleeps on a ready controller.
\<close>

subsection \<open>Sequences of transactions and the register-file specification\<close>

text \<open>A caller that serialises its calls into the transport (the contract of the
  spec's section 5) issues a sequence of reads and writes; \<open>run_ops\<close> runs
  one, passing 0 as the initial \<^verbatim>\<open>*pdata\<close> of each read. The abstract
  specification of the transport is a register file of 256 bytes indexed by the
  offset's low byte: \<open>spec_op\<close> and \<open>spec_run\<close>.\<close>

datatype ec_op = Rd c_int | Wr c_int u8

datatype ec_res = RdRes int u8 | WrRes int

fun run_ops :: "'d port_io \<Rightarrow> ec_op list \<Rightarrow> 'd ec_io \<Rightarrow> ec_res list \<times> 'd ec_io" where
  "run_ops io [] s = ([], s)"
| "run_ops io (Rd offset # ops) s =
     (case ReadByteFromEC io offset 0 s of
        (r, d, s1) \<Rightarrow> (case run_ops io ops s1 of (rs, s2) \<Rightarrow> (RdRes r d # rs, s2)))"
| "run_ops io (Wr offset v # ops) s =
     (case WriteByteToEC io offset v s of
        (r, s1) \<Rightarrow> (case run_ops io ops s1 of (rs, s2) \<Rightarrow> (WrRes r # rs, s2)))"

type_synonym ec_regs = "u8 \<Rightarrow> u8"

fun spec_op :: "ec_regs \<Rightarrow> ec_op \<Rightarrow> ec_res \<times> ec_regs" where
  "spec_op m (Rd offset) = (RdRes 1 (m (ucast offset)), m)"
| "spec_op m (Wr offset v) = (WrRes 1, m(ucast offset := v))"

fun spec_run :: "ec_regs \<Rightarrow> ec_op list \<Rightarrow> ec_res list \<times> ec_regs" where
  "spec_run m [] = ([], m)"
| "spec_run m (op # ops) =
     (case spec_op m op of (r, m1) \<Rightarrow> (case spec_run m1 ops of (rs, m2) \<Rightarrow> (r # rs, m2)))"

text \<open>What a failed operation reports: 0, and for a read the untouched \<^verbatim>\<open>*pdata\<close>.\<close>

fun failed_res :: "ec_op \<Rightarrow> ec_res" where
  "failed_res (Rd offset) = RdRes 0 0"
| "failed_res (Wr offset v) = WrRes 0"

text \<open>A concrete controller for the scenarios: register \<open>0x2F\<close> holds \<open>0x30\<close>,
  the others 0, and the latencies of the next port writes are scripted by \<open>ds\<close>.\<close>

definition demo_ec :: "nat list \<Rightarrow> sim_ec" where
  "demo_ec ds = \<lparr>regs = (\<lambda>_. 0)(0x2F := 0x30), phase = Idle, busy = 0, obf = False,
                 out = 0, delays = ds, clock = 0\<rparr>"

definition demo_io :: "nat list \<Rightarrow> sim_ec ec_io" where
  "demo_io ds = \<lparr>hw = demo_ec ds, io_trace = [], verbosity = 1, logbuf = []\<rparr>"

text \<open>A latency script in which the controller accepts each of the first sweeps'
  commands in time but their offsets too late (after the 100 ms phase budget, yet
  within the next idle wait's 1000 ms): the spec's "the offset-accepted wait
  becomes true only on the Nth retry".\<close>

definition stall_ok :: "nat \<times> nat \<Rightarrow> bool" where
  "stall_ok p \<longleftrightarrow> fst p < 10 \<and> 10 \<le> snd p \<and> snd p < 110"

definition stall_script :: "(nat \<times> nat) list \<Rightarrow> nat list" where
  "stall_script ps = concat (map (\<lambda>(a, b). [a, b]) ps)"

subsection \<open>Polls of a sweep on a ready controller\<close>

lemma poll_sim_phase:
  assumes "hw s = e" "busy e < poll_ticks budget 0"
    and "cond (sim_status (e\<lparr>busy := 0\<rparr>))" "\<not> cond EC_STAT_IBF"
  obtains s' where "poll sim_io cond budget 0 s = (True, s')"
    "hw s' = e\<lparr>busy := 0, clock := clock e + 10 * busy e\<rparr>"
  using poll_sim_ready [OF assms] by fastforce

lemma cmd_consts_differ [simp]: "EC_CTRLPORT_WRITE \<noteq> EC_CTRLPORT_READ"
  by (simp add: ec_consts)

lemma sim_write_clock [simp]:
  "sim_write p v (e\<lparr>clock := c\<rparr>) = (sim_write p v e)\<lparr>clock := c\<rparr>"
  by (simp add: sim_write_def Let_def split: prod.split sim_phase.split)

lemma sim_write_busy_reset:
  "p = EC_CTRLPORT \<or> p = EC_DATAPORT \<Longrightarrow> sim_write p v (e\<lparr>busy := b\<rparr>) = sim_write p v e"
  by (auto simp: sim_write_def Let_def split: prod.split sim_phase.split)

lemma sim_write_delays:
  "p = EC_CTRLPORT \<or> p = EC_DATAPORT \<Longrightarrow>
   busy (sim_write p v e) = fst (next_delay (delays e)) \<and>
   delays (sim_write p v e) = snd (next_delay (delays e)) \<and> clock (sim_write p v e) = clock e"
  by (auto simp: sim_write_def Let_def split: prod.split sim_phase.split)

lemma snd_next_delay [simp]: "snd (next_delay ds) = tl ds"
  by (cases ds) (simp_all add: next_delay_def)

text \<open>The first two phases of a sweep on an idle controller that accepts the command
  in time: both waits succeed, and the sweep comes down to its last wait.\<close>

lemma ec_sweep_prefix_sim:
  assumes "hw s = e" "busy e < 100" "\<not> obf e" "fst (next_delay (delays e)) < 10"
  obtains s2 c where
    "ec_sweep sim_io cmd final off s =
       (case poll sim_io final iTimeout 0 (WritePort sim_io EC_DATAPORT off s2) of
          (ok3, s3) \<Rightarrow> Swept ok3 s3)"
    "hw s2 = (sim_write EC_CTRLPORT cmd e)\<lparr>busy := 0, clock := c\<rparr>"
    "c = clock e + 10 * busy e + 10 * fst (next_delay (delays e))"
proof -
  let ?e1 = "sim_write EC_CTRLPORT cmd e"
  have port: "EC_CTRLPORT = EC_CTRLPORT \<or> EC_CTRLPORT = EC_DATAPORT" by simp
  have d1: "busy ?e1 < 10" "\<not> obf ?e1"
    using assms(3,4) sim_write_delays [OF port] by simp_all
  obtain s1 where p1: "poll sim_io buffers_clear iTimeoutBuf 0 s = (True, s1)"
    and h1: "hw s1 = e\<lparr>busy := 0, clock := clock e + 10 * busy e\<rparr>"
    by (rule poll_sim_phase [of s e iTimeoutBuf buffers_clear]) (use assms in simp_all)
  let ?w1 = "WritePort sim_io EC_CTRLPORT cmd s1"
  have hw1: "hw ?w1 = ?e1\<lparr>clock := clock e + 10 * busy e\<rparr>"
    using h1 sim_write_busy_reset [OF port] by simp
  obtain s2 where p2: "poll sim_io buffers_clear iTimeout 0 ?w1 = (True, s2)"
    and h2: "hw s2 = (hw ?w1)\<lparr>busy := 0, clock := clock (hw ?w1) + 10 * busy (hw ?w1)\<rparr>"
    by (rule poll_sim_phase [of ?w1 "hw ?w1" iTimeout buffers_clear]) (use hw1 d1 in simp_all)
  have "hw s2 = ?e1\<lparr>busy := 0, clock := clock e + 10 * busy e + 10 * busy ?e1\<rparr>"
    using h2 hw1 by (simp del: sim_write_ctrl)
  moreover have "busy ?e1 = fst (next_delay (delays e))" using sim_write_delays [OF port] by simp
  moreover have "ec_sweep sim_io cmd final off s =
       (case poll sim_io final iTimeout 0 (WritePort sim_io EC_DATAPORT off s2) of
          (ok3, s3) \<Rightarrow> Swept ok3 s3)"
    using p1 p2 by (simp add: ec_sweep_def)
  ultimately show ?thesis using that by simp
qed

lemma WritePort_sim_data_after:
  "hw s2 = (sim_write EC_CTRLPORT cmd e)\<lparr>busy := 0, clock := c\<rparr> \<Longrightarrow>
   hw (WritePort sim_io EC_DATAPORT off s2) =
     (sim_write EC_DATAPORT off ((sim_write EC_CTRLPORT cmd e)\<lparr>busy := 0\<rparr>))\<lparr>clock := c\<rparr>"
  by (simp del: sim_write_ctrl sim_write_data)

text \<open>One sweep of either operation on a ready controller succeeds, and leaves the
  controller as the two port writes left it, with the latency of the second
  elapsed.\<close>

lemma ec_sweep_sim:
  fixes e :: sim_ec and cmd off :: u8 and final :: "u8 \<Rightarrow> bool" and s :: "sim_ec ec_io"
  defines "e2 \<equiv> sim_write EC_DATAPORT off ((sim_write EC_CTRLPORT cmd e)\<lparr>busy := 0\<rparr>)"
  assumes "hw s = e" "busy e < 100" "\<not> obf e"
    and "fst (next_delay (delays e)) < 10" "fst (next_delay (tl (delays e))) < 10"
    and "\<not> final EC_STAT_IBF" "final (sim_status (e2\<lparr>busy := 0\<rparr>))"
  shows "\<exists>s'. ec_sweep sim_io cmd final off s = Swept True s' \<and>
           hw s' = e2\<lparr>busy := 0, clock := clock e + 10 * (busy e + fst (next_delay (delays e)) +
                                                   fst (next_delay (tl (delays e))))\<rparr>"
proof -
  have ports: "EC_CTRLPORT = EC_CTRLPORT \<or> EC_CTRLPORT = EC_DATAPORT"
    "EC_DATAPORT = EC_CTRLPORT \<or> EC_DATAPORT = EC_DATAPORT" by simp_all
  have b2: "busy e2 = fst (next_delay (tl (delays e)))"
    using sim_write_delays [OF ports(1), of cmd e]
      sim_write_delays [OF ports(2), of off "(sim_write EC_CTRLPORT cmd e)\<lparr>busy := 0\<rparr>"]
    by (simp add: e2_def del: sim_write_ctrl sim_write_data)
  with assms(6) have d2: "busy e2 < 10" by simp
  obtain s2 c where sw: "ec_sweep sim_io cmd final off s =
       (case poll sim_io final iTimeout 0 (WritePort sim_io EC_DATAPORT off s2) of
          (ok3, s3) \<Rightarrow> Swept ok3 s3)"
    and h2: "hw s2 = (sim_write EC_CTRLPORT cmd e)\<lparr>busy := 0, clock := c\<rparr>"
    and cl: "c = clock e + 10 * busy e + 10 * fst (next_delay (delays e))"
    by (rule ec_sweep_prefix_sim [OF assms(2-5)])
  let ?w2 = "WritePort sim_io EC_DATAPORT off s2"
  have hw2: "hw ?w2 = e2\<lparr>clock := c\<rparr>"
    unfolding e2_def by (rule WritePort_sim_data_after [OF h2])
  obtain s3 where p3: "poll sim_io final iTimeout 0 ?w2 = (True, s3)"
    and h3: "hw s3 = (hw ?w2)\<lparr>busy := 0, clock := clock (hw ?w2) + 10 * busy (hw ?w2)\<rparr>"
    by (rule poll_sim_phase [of ?w2 "hw ?w2" iTimeout final]) (use hw2 d2 assms(7,8) in simp_all)
  from sw p3 have "ec_sweep sim_io cmd final off s = Swept True s3" by simp
  moreover from h3 hw2 have "hw s3 = e2\<lparr>busy := 0, clock := c + 10 * busy e2\<rparr>"
    by (simp del: sim_write_ctrl sim_write_data)
  ultimately show ?thesis using cl b2 by (simp add: algebra_simps)
qed

lemma setup_loop_first:
  "0 < n \<Longrightarrow> body s = Swept True s' \<Longrightarrow> setup_loop body n iOK s = Swept True s'"
  by (simp add: setup_loop_step)

text \<open>What a sweep needs of the controller: not busy for more than the idle budget,
  output buffer empty, and the next two latencies below the phase budget.\<close>

lemma sim_ready_sweep:
  "sim_ready e \<Longrightarrow> busy e < 100 \<and> \<not> obf e \<and> fst (next_delay (delays e)) < 10 \<and>
     fst (next_delay (tl (delays e))) < 10"
  using next_delay_cooperative [of "delays e"] next_delay_cooperative [of "tl (delays e)"]
  by (simp add: sim_ready_def)

lemma write_sweep_sim:
  assumes "busy (hw s) < 100" "\<not> obf (hw s)"
    "fst (next_delay (delays (hw s))) < 10" "fst (next_delay (tl (delays (hw s)))) < 10"
  shows "\<exists>s'. write_sweep sim_io off s = Swept True s' \<and>
           hw s' = (sim_write EC_DATAPORT (ucast off)
                      ((sim_write EC_CTRLPORT EC_CTRLPORT_WRITE (hw s))\<lparr>busy := 0\<rparr>))\<lparr>busy := 0,
                    clock := clock (hw s) + 10 * (busy (hw s) + fst (next_delay (delays (hw s))) +
                                                  fst (next_delay (tl (delays (hw s)))))\<rparr>"
  unfolding write_sweep_is_ec_sweep
  by (rule ec_sweep_sim [OF refl assms]) (use assms in simp_all)

lemma read_sweep_sim:
  assumes "busy (hw s) < 100" "\<not> obf (hw s)"
    "fst (next_delay (delays (hw s))) < 10" "fst (next_delay (tl (delays (hw s)))) < 10"
  shows "\<exists>s'. read_sweep sim_io off s = Swept True s' \<and>
           hw s' = (sim_write EC_DATAPORT (ucast off)
                      ((sim_write EC_CTRLPORT EC_CTRLPORT_READ (hw s))\<lparr>busy := 0\<rparr>))\<lparr>busy := 0,
                    clock := clock (hw s) + 10 * (busy (hw s) + fst (next_delay (delays (hw s))) +
                                                  fst (next_delay (tl (delays (hw s)))))\<rparr>"
  unfolding read_sweep_is_ec_sweep
  by (rule ec_sweep_sim [OF refl assms]) (use assms in simp_all)

subsection \<open>The two operations on a ready controller\<close>

lemma sim_ready_next:
  assumes "list_all (\<lambda>d. d < 10) ds"
  shows "fst (next_delay ds) < 10" "list_all (\<lambda>d. d < 10) (tl ds)"
  using next_delay_cooperative [OF assms] by simp_all

lemma drop_tl: "drop 2 xs = tl (tl xs)" "drop 3 xs = tl (tl (tl xs))"
  by (simp_all add: numeral_2_eq_2 numeral_3_eq_3 drop_Suc)

lemma WriteByteToEC_sim:
  assumes "sim_ready (hw s)"
  shows "\<exists>s'. WriteByteToEC sim_io off v s = (1, s') \<and>
           regs (hw s') = (regs (hw s))(ucast off := v) \<and> sim_ready (hw s') \<and>
           delays (hw s') = drop 3 (delays (hw s)) \<and>
           logbuf s' = logbuf s \<and> verbosity s' = verbosity s \<and>
           clock (hw s') = clock (hw s) + 10 * (busy (hw s) + fst (next_delay (delays (hw s))) +
                                               fst (next_delay (tl (delays (hw s)))))"
proof -
  obtain s1 c where sw: "write_sweep sim_io off s = Swept True s1"
    and h1: "hw s1 = (sim_write EC_DATAPORT (ucast off)
                ((sim_write EC_CTRLPORT EC_CTRLPORT_WRITE (hw s))\<lparr>busy := 0\<rparr>))\<lparr>busy := 0, clock := c\<rparr>"
    and cl: "c = clock (hw s) + 10 * (busy (hw s) + fst (next_delay (delays (hw s))) +
                                               fst (next_delay (tl (delays (hw s)))))"
    using write_sweep_sim sim_ready_sweep [OF assms] by blast
  have loop: "setup_loop (write_sweep sim_io off) 5 False s = Swept True s1"
    using sw by (simp add: setup_loop_first)
  from write_loop_trace [of sim_io off s] loop
  have fr: "logbuf s1 = logbuf s" "verbosity s1 = verbosity s" by auto
  have w: "WriteByteToEC sim_io off v s = (1, WritePort sim_io EC_DATAPORT v s1)"
    using loop by (simp add: WriteByteToEC_def)
  from assms have r: "\<not> obf (hw s)" "list_all (\<lambda>d. d < 10) (delays (hw s))"
    by (simp_all add: sim_ready_def)
  let ?ds = "delays (hw s)"
  have d: "fst (next_delay (tl (tl ?ds))) < 10" "list_all (\<lambda>d. d < 10) (tl (tl (tl ?ds)))"
    using r(2) by (simp_all add: sim_ready_next)
  have "regs (hw (WritePort sim_io EC_DATAPORT v s1)) = (regs (hw s))(ucast off := v) \<and>
        sim_ready (hw (WritePort sim_io EC_DATAPORT v s1)) \<and>
        delays (hw (WritePort sim_io EC_DATAPORT v s1)) = drop 3 ?ds \<and>
        clock (hw (WritePort sim_io EC_DATAPORT v s1)) = c"
    using h1 r d by (simp add: sim_ready_def drop_tl)
  with w fr cl show ?thesis by auto
qed

lemma ReadByteFromEC_sim:
  assumes "sim_ready (hw s)"
  shows "\<exists>s'. ReadByteFromEC sim_io off pdata s = (1, regs (hw s) (ucast off), s') \<and>
           regs (hw s') = regs (hw s) \<and> sim_ready (hw s') \<and>
           delays (hw s') = drop 2 (delays (hw s)) \<and> verbosity s' = verbosity s \<and>
           logbuf s' = (if 0 < verbosity s then logbuf s @ readec_entry off (regs (hw s) (ucast off))
                        else logbuf s) \<and>
           clock (hw s') = clock (hw s) + 10 * (busy (hw s) + fst (next_delay (delays (hw s))) +
                                               fst (next_delay (tl (delays (hw s)))))"
proof -
  obtain s1 c where sw: "read_sweep sim_io off s = Swept True s1"
    and h1: "hw s1 = (sim_write EC_DATAPORT (ucast off)
                ((sim_write EC_CTRLPORT EC_CTRLPORT_READ (hw s))\<lparr>busy := 0\<rparr>))\<lparr>busy := 0, clock := c\<rparr>"
    and cl: "c = clock (hw s) + 10 * (busy (hw s) + fst (next_delay (delays (hw s))) +
                                               fst (next_delay (tl (delays (hw s)))))"
    using read_sweep_sim sim_ready_sweep [OF assms] by blast
  have loop: "setup_loop (read_sweep sim_io off) 5 False s = Swept True s1"
    using sw by (simp add: setup_loop_first)
  from read_loop_trace [of sim_io off s] loop
  have fr: "logbuf s1 = logbuf s" "verbosity s1 = verbosity s" by auto
  from assms have r: "list_all (\<lambda>d. d < 10) (delays (hw s))"
    by (simp add: sim_ready_def)
  then have d: "list_all (\<lambda>d. d < 10) (tl (tl (delays (hw s))))" by simp
  show ?thesis
    using loop h1 fr d cl by (simp add: ReadByteFromEC_def ReadPort_sim_data sim_ready_def drop_tl)
qed

subsection \<open>Offsets accepted late\<close>

lemma write_sweep_sim_stall:
  assumes "busy (hw s) < 100" "\<not> obf (hw s)" "delays (hw s) = a # b # ds" "stall_ok (a, b)"
  shows "\<exists>s'. write_sweep sim_io off s = Swept False s' \<and> busy (hw s') < 100 \<and> \<not> obf (hw s') \<and>
           delays (hw s') = ds \<and> regs (hw s') = regs (hw s)"
proof -
  let ?e = "hw s"
  let ?e2 = "sim_write EC_DATAPORT (ucast off) ((sim_write EC_CTRLPORT EC_CTRLPORT_WRITE ?e)\<lparr>busy := 0\<rparr>)"
  from assms(4) have ab: "a < 10" "10 \<le> b" "b < 110" by (simp_all add: stall_ok_def)
  obtain s2 c where sw: "ec_sweep sim_io EC_CTRLPORT_WRITE buffers_clear (ucast off) s =
       (case poll sim_io buffers_clear iTimeout 0 (WritePort sim_io EC_DATAPORT (ucast off) s2) of
          (ok3, s3) \<Rightarrow> Swept ok3 s3)"
    and h2: "hw s2 = (sim_write EC_CTRLPORT EC_CTRLPORT_WRITE ?e)\<lparr>busy := 0, clock := c\<rparr>"
    and "c = clock ?e + 10 * busy ?e + 10 * fst (next_delay (delays ?e))"
    by (rule ec_sweep_prefix_sim [OF refl assms(1,2)]) (use assms(3) ab in \<open>simp add: next_delay_def\<close>)
  let ?w2 = "WritePort sim_io EC_DATAPORT (ucast off) s2"
  have hw2: "hw ?w2 = ?e2\<lparr>clock := c\<rparr>" by (rule WritePort_sim_data_after [OF h2])
  have e2: "busy ?e2 = b" "\<not> obf ?e2" "regs ?e2 = regs ?e" "delays ?e2 = ds"
    using assms(2,3) by (simp_all add: next_delay_def)
  obtain s3 where p3: "poll sim_io buffers_clear iTimeout 0 ?w2 = (False, s3)"
    and h3: "hw s3 = (hw ?w2)\<lparr>busy := busy (hw ?w2) - 10, clock := clock (hw ?w2) + 10 * 10\<rparr>"
    using poll_sim_timeout [of ?w2 "hw ?w2" buffers_clear iTimeout 0] hw2 e2 ab by fastforce
  from sw p3 have "write_sweep sim_io off s = Swept False s3" by (simp add: write_sweep_is_ec_sweep)
  moreover have "busy (hw s3) < 100 \<and> \<not> obf (hw s3) \<and> delays (hw s3) = ds \<and> regs (hw s3) = regs ?e"
    using h3 hw2 e2 ab by simp
  ultimately show ?thesis by blast
qed

lemma stall_script_Cons: "stall_script ((a, b) # ps) = a # b # stall_script ps"
  by (simp add: stall_script_def)

lemma write_loop_stalls_fail:
  "busy (hw s) < 100 \<Longrightarrow> \<not> obf (hw s) \<Longrightarrow> list_all stall_ok ps \<Longrightarrow>
   delays (hw s) = stall_script ps @ ds \<Longrightarrow> n \<le> length ps \<Longrightarrow>
   \<exists>s'. setup_loop (write_sweep sim_io off) (int n) False s = Swept False s' \<and> regs (hw s') = regs (hw s)"
proof (induction n arbitrary: s ps)
  case 0
  then show ?case by simp
next
  case (Suc n)
  then obtain a b ps' where ps: "ps = (a, b) # ps'" by (cases ps) auto
  with Suc.prems obtain s1 where s1: "write_sweep sim_io off s = Swept False s1"
    "busy (hw s1) < 100" "\<not> obf (hw s1)" "delays (hw s1) = stall_script ps' @ ds"
    "regs (hw s1) = regs (hw s)"
    using write_sweep_sim_stall [of s a b "stall_script ps' @ ds" off] by (auto simp: stall_script_Cons)
  from Suc.IH [OF s1(2,3)] Suc.prems(3,5) s1(4) ps obtain s' where
    "setup_loop (write_sweep sim_io off) (int n) False s1 = Swept False s'" "regs (hw s') = regs (hw s1)"
    by auto
  with s1(1,5) show ?case by (auto simp: setup_loop_step)
qed

lemma write_loop_stalls_ok:
  "busy (hw s) < 100 \<Longrightarrow> \<not> obf (hw s) \<Longrightarrow> list_all stall_ok ps \<Longrightarrow>
   delays (hw s) = stall_script ps @ ds \<Longrightarrow> list_all (\<lambda>d. d < 10) ds \<Longrightarrow> length ps < n \<Longrightarrow>
   \<exists>s'. setup_loop (write_sweep sim_io off) (int n) False s = Swept True s' \<and>
        regs (hw s') = regs (hw s) \<and> phase (hw s') = WrAddr (ucast off) \<and>
        delays (hw s') = tl (tl ds) \<and> busy (hw s') = 0 \<and> \<not> obf (hw s')"
proof (induction ps arbitrary: s n)
  case Nil
  then have d: "fst (next_delay (delays (hw s))) < 10" "fst (next_delay (tl (delays (hw s)))) < 10"
    using sim_ready_next [of ds] sim_ready_next [of "tl ds"] by (simp_all add: stall_script_def)
  obtain s1 c where sw: "write_sweep sim_io off s = Swept True s1"
    and h1: "hw s1 = (sim_write EC_DATAPORT (ucast off)
                ((sim_write EC_CTRLPORT EC_CTRLPORT_WRITE (hw s))\<lparr>busy := 0\<rparr>))\<lparr>busy := 0, clock := c\<rparr>"
    using write_sweep_sim [OF Nil.prems(1,2) d] by blast
  have "setup_loop (write_sweep sim_io off) (int n) False s = Swept True s1"
    using sw Nil.prems(6) by (simp add: setup_loop_first)
  moreover have "regs (hw s1) = regs (hw s) \<and> phase (hw s1) = WrAddr (ucast off) \<and>
      delays (hw s1) = tl (tl ds) \<and> busy (hw s1) = 0 \<and> \<not> obf (hw s1)"
    using h1 Nil.prems(2,4) by (simp add: stall_script_def)
  ultimately show ?case by blast
next
  case (Cons p ps)
  obtain a b where p: "p = (a, b)" by fastforce
  with Cons.prems obtain s1 where s1: "write_sweep sim_io off s = Swept False s1"
    "busy (hw s1) < 100" "\<not> obf (hw s1)" "delays (hw s1) = stall_script ps @ ds"
    "regs (hw s1) = regs (hw s)"
    using write_sweep_sim_stall [of s a b "stall_script ps @ ds" off] by (auto simp: stall_script_Cons)
  from Cons.prems(6) have n: "length ps < n - 1" "int n - 1 = int (n - 1)" by auto
  from Cons.IH [OF s1(2,3) _ s1(4) Cons.prems(5) n(1)] Cons.prems(3) obtain s' where
    "setup_loop (write_sweep sim_io off) (int (n - 1)) False s1 = Swept True s'"
    "regs (hw s') = regs (hw s1) \<and> phase (hw s') = WrAddr (ucast off) \<and>
     delays (hw s') = tl (tl ds) \<and> busy (hw s') = 0 \<and> \<not> obf (hw s')"
    by auto
  with s1(1,5) n(2) Cons.prems(6) show ?case by (auto simp: setup_loop_step)
qed

subsection \<open>A controller with a stale reply\<close>

text \<open>A controller whose output buffer is full never shows both buffers empty:
  every idle wait times out and leaves the buffer full.\<close>

lemma poll_sim_obf:
  assumes "hw s = e" "obf e"
  shows "\<exists>s'. poll sim_io buffers_clear budget iTime s = (False, s') \<and>
           obf (hw s') \<and> regs (hw s') = regs e \<and> delays (hw s') = delays e"
  using poll_sim_timeout [of s e buffers_clear budget iTime] assms by fastforce

lemma ec_sweep_sim_obf:
  assumes "obf (hw s)"
  shows "\<exists>s'. ec_sweep sim_io cmd final off s = Return0 s' \<and>
           obf (hw s') \<and> regs (hw s') = regs (hw s) \<and> delays (hw s') = delays (hw s)"
proof -
  obtain s' where "poll sim_io buffers_clear iTimeoutBuf 0 s = (False, s')"
    "obf (hw s')" "regs (hw s') = regs (hw s)" "delays (hw s') = delays (hw s)"
    using poll_sim_obf [OF refl assms] by blast
  then show ?thesis by (simp add: ec_sweep_def)
qed

lemma setup_loop_Return0:
  "0 < n \<Longrightarrow> body s = Return0 s' \<Longrightarrow> setup_loop body n iOK s = Return0 s'"
  by (simp add: setup_loop_step)

lemma ReadByteFromEC_sim_obf:
  assumes "obf (hw s)"
  shows "\<exists>s'. ReadByteFromEC sim_io off pdata s = (0, pdata, s') \<and>
           obf (hw s') \<and> regs (hw s') = regs (hw s) \<and> delays (hw s') = delays (hw s)"
proof -
  obtain s' where "read_sweep sim_io off s = Return0 s'" "obf (hw s')"
    "regs (hw s') = regs (hw s)" "delays (hw s') = delays (hw s)"
    using ec_sweep_sim_obf [OF assms, of EC_CTRLPORT_READ obf_full "ucast off"]
    by (auto simp: read_sweep_is_ec_sweep)
  then show ?thesis by (simp add: ReadByteFromEC_def setup_loop_Return0)
qed

lemma WriteByteToEC_sim_obf:
  assumes "obf (hw s)"
  shows "\<exists>s'. WriteByteToEC sim_io off v s = (0, s') \<and>
           obf (hw s') \<and> regs (hw s') = regs (hw s) \<and> delays (hw s') = delays (hw s)"
proof -
  obtain s' where "write_sweep sim_io off s = Return0 s'" "obf (hw s')"
    "regs (hw s') = regs (hw s)" "delays (hw s') = delays (hw s)"
    using ec_sweep_sim_obf [OF assms, of EC_CTRLPORT_WRITE buffers_clear "ucast off"]
    by (auto simp: write_sweep_is_ec_sweep)
  then show ?thesis by (simp add: WriteByteToEC_def setup_loop_Return0)
qed

subsection \<open>The driver refines the register file\<close>

text \<open>C12: on a ready controller a write succeeds and acts on the controller as the
  abstract assignment of the new value to the register at the offset's low byte;
  the controller is ready again afterwards and the log is untouched.\<close>

theorem WriteByteToEC_refines:
  "sim_ready (hw s) \<Longrightarrow>
   case WriteByteToEC sim_io offset v s of (r, s') \<Rightarrow>
     (WrRes r, regs (hw s')) = spec_op (regs (hw s)) (Wr offset v) \<and>
     sim_ready (hw s') \<and> logbuf s' = logbuf s"
  using WriteByteToEC_sim [of s offset v] by auto

theorem WriteByteToEC_refines_witness:
  "sim_ready (hw (demo_io [])) \<and>
   (case WriteByteToEC sim_io 0x3A 0x3C (demo_io []) of (r, s') \<Rightarrow>
     (WrRes r, regs (hw s')) = spec_op (regs (hw (demo_io []))) (Wr 0x3A 0x3C) \<and>
     sim_ready (hw s') \<and> logbuf s' = logbuf (demo_io []))"
proof
  show r: "sim_ready (hw (demo_io []))" by (simp add: demo_io_def demo_ec_def sim_ready_def)
  show "case WriteByteToEC sim_io 0x3A 0x3C (demo_io []) of (r, s') \<Rightarrow>
     (WrRes r, regs (hw s')) = spec_op (regs (hw (demo_io []))) (Wr 0x3A 0x3C) \<and>
     sim_ready (hw s') \<and> logbuf s' = logbuf (demo_io [])"
    by (rule WriteByteToEC_refines [OF r])
qed

text \<open>C13: on a ready controller a read succeeds and returns the register at the
  offset's low byte, leaving the register file unchanged and the controller ready.\<close>

theorem ReadByteFromEC_refines:
  "sim_ready (hw s) \<Longrightarrow>
   case ReadByteFromEC sim_io offset pdata s of (r, d, s') \<Rightarrow>
     (RdRes r d, regs (hw s')) = spec_op (regs (hw s)) (Rd offset) \<and> sim_ready (hw s')"
  using ReadByteFromEC_sim [of s offset pdata] by auto

text \<open>The spec's first scenario: reading offset \<open>0x2F\<close> from an idle, immediately
  responding controller whose register holds \<open>0x30\<close> yields \<open>(1, 0x30)\<close>.\<close>

theorem ReadByteFromEC_refines_witness:
  "sim_ready (hw (demo_io [])) \<and>
   (case ReadByteFromEC sim_io 0x2F 0 (demo_io []) of (r, d, s') \<Rightarrow>
     (RdRes r d, regs (hw s')) = spec_op (regs (hw (demo_io []))) (Rd 0x2F) \<and> sim_ready (hw s')) \<and>
   spec_op (regs (hw (demo_io []))) (Rd 0x2F) = (RdRes 1 0x30, regs (hw (demo_io [])))"
proof (intro conjI)
  show r: "sim_ready (hw (demo_io []))" by (simp add: demo_io_def demo_ec_def sim_ready_def)
  show "case ReadByteFromEC sim_io 0x2F 0 (demo_io []) of (r, d, s') \<Rightarrow>
     (RdRes r d, regs (hw s')) = spec_op (regs (hw (demo_io []))) (Rd 0x2F) \<and> sim_ready (hw s')"
    by (rule ReadByteFromEC_refines [OF r])
  show "spec_op (regs (hw (demo_io []))) (Rd 0x2F) = (RdRes 1 0x30, regs (hw (demo_io [])))"
    by (simp add: demo_io_def demo_ec_def)
qed

text \<open>C14: on a ready controller, a write followed by a read of the same offset
  returns the value written (the spec's round-trip property).\<close>

theorem write_read_roundtrip:
  "sim_ready (hw s) \<Longrightarrow>
   case WriteByteToEC sim_io offset v s of (r, s1) \<Rightarrow>
     (case ReadByteFromEC sim_io offset pdata s1 of (r', d, s2) \<Rightarrow> r = 1 \<and> r' = 1 \<and> d = v)"
proof -
  assume r: "sim_ready (hw s)"
  from WriteByteToEC_sim [OF r, of offset v] obtain s1 where
    w: "WriteByteToEC sim_io offset v s = (1, s1)"
    "regs (hw s1) = (regs (hw s))(ucast offset := v)" "sim_ready (hw s1)"
    by blast
  from ReadByteFromEC_sim [OF w(3), of offset pdata] obtain s2 where
    "ReadByteFromEC sim_io offset pdata s1 = (1, regs (hw s1) (ucast offset), s2)"
    by blast
  with w show ?thesis by simp
qed

theorem write_read_roundtrip_witness:
  "sim_ready (hw (demo_io [])) \<and>
   (case WriteByteToEC sim_io 0x3A 0x3C (demo_io []) of (r, s1) \<Rightarrow>
     (case ReadByteFromEC sim_io 0x3A 7 s1 of (r', d, s2) \<Rightarrow> r = 1 \<and> r' = 1 \<and> d = 0x3C))"
proof
  show r: "sim_ready (hw (demo_io []))" by (simp add: demo_io_def demo_ec_def sim_ready_def)
  show "case WriteByteToEC sim_io 0x3A 0x3C (demo_io []) of (r, s1) \<Rightarrow>
     (case ReadByteFromEC sim_io 0x3A 7 s1 of (r', d, s2) \<Rightarrow> r = 1 \<and> r' = 1 \<and> d = 0x3C)"
    by (rule write_read_roundtrip [OF r])
qed

text \<open>C15: a serialised sequence of reads and writes on a ready controller, whatever
  the scripted latencies below the phase budget, returns what the register-file
  specification returns, ends with the register file the specification computes,
  and keeps the controller ready after every transaction.\<close>

theorem run_ops_refines:
  "sim_ready (hw s) \<Longrightarrow>
   case run_ops sim_io ops s of (rs, s') \<Rightarrow>
     (rs, regs (hw s')) = spec_run (regs (hw s)) ops \<and> sim_ready (hw s')"
proof (induction ops arbitrary: s)
  case Nil
  then show ?case by simp
next
  case (Cons op ops)
  show ?case
  proof (cases op)
    case (Rd offset)
    from ReadByteFromEC_sim [OF Cons.prems, of offset 0] obtain s1 where
      rd: "ReadByteFromEC sim_io offset 0 s = (1, regs (hw s) (ucast offset), s1)"
      "regs (hw s1) = regs (hw s)" "sim_ready (hw s1)"
      by blast
    obtain rs s' where ro: "run_ops sim_io ops s1 = (rs, s')" by fastforce
    with Cons.IH [OF rd(3)] rd(2) have "spec_run (regs (hw s)) ops = (rs, regs (hw s'))"
      "sim_ready (hw s')" by auto
    with rd(1) ro Rd show ?thesis by simp
  next
    case (Wr offset v)
    from WriteByteToEC_sim [OF Cons.prems, of offset v] obtain s1 where
      wr: "WriteByteToEC sim_io offset v s = (1, s1)"
      "regs (hw s1) = (regs (hw s))(ucast offset := v)" "sim_ready (hw s1)"
      by blast
    obtain rs s' where ro: "run_ops sim_io ops s1 = (rs, s')" by fastforce
    with Cons.IH [OF wr(3)] wr(2) have "spec_run ((regs (hw s))(ucast offset := v)) ops = (rs, regs (hw s'))"
      "sim_ready (hw s')" by (auto simp del: fun_upd_apply)
    with wr(1) ro Wr show ?thesis by (simp del: fun_upd_apply)
  qed
qed

theorem run_ops_refines_witness:
  "sim_ready (hw (demo_io [3, 9, 0, 5])) \<and>
   (case run_ops sim_io [Wr 0x3A 0x3C, Rd 0x3A, Rd 0x2F] (demo_io [3, 9, 0, 5]) of (rs, s') \<Rightarrow>
     (rs, regs (hw s')) = spec_run (regs (hw (demo_io [3, 9, 0, 5]))) [Wr 0x3A 0x3C, Rd 0x3A, Rd 0x2F] \<and>
     sim_ready (hw s'))"
proof
  show r: "sim_ready (hw (demo_io [3, 9, 0, 5]))" by (simp add: demo_io_def demo_ec_def sim_ready_def)
  show "case run_ops sim_io [Wr 0x3A 0x3C, Rd 0x3A, Rd 0x2F] (demo_io [3, 9, 0, 5]) of (rs, s') \<Rightarrow>
     (rs, regs (hw s')) = spec_run (regs (hw (demo_io [3, 9, 0, 5]))) [Wr 0x3A 0x3C, Rd 0x3A, Rd 0x2F] \<and>
     sim_ready (hw s')"
    by (rule run_ops_refines [OF r])
qed

subsection \<open>Late replies and stale output\<close>

text \<open>C16: once the controller's output buffer holds a byte nobody reads, every later
  read and write fails in its idle wait, and the buffer stays full: the transport
  never drains a stale reply, so it cannot recover by itself.\<close>

theorem run_ops_stale_obf:
  "obf (hw s) \<Longrightarrow>
   case run_ops sim_io ops s of (rs, s') \<Rightarrow>
     rs = map failed_res ops \<and> obf (hw s') \<and> regs (hw s') = regs (hw s)"
proof (induction ops arbitrary: s)
  case Nil
  then show ?case by simp
next
  case (Cons op ops)
  show ?case
  proof (cases op)
    case (Rd offset)
    from ReadByteFromEC_sim_obf [OF Cons.prems, of offset 0] obtain s1 where
      rd: "ReadByteFromEC sim_io offset 0 s = (0, 0, s1)" "obf (hw s1)" "regs (hw s1) = regs (hw s)"
      by blast
    obtain rs s' where ro: "run_ops sim_io ops s1 = (rs, s')" by fastforce
    with Cons.IH [OF rd(2)] rd(3) rd(1) Rd show ?thesis by simp
  next
    case (Wr offset v)
    from WriteByteToEC_sim_obf [OF Cons.prems, of offset v] obtain s1 where
      wr: "WriteByteToEC sim_io offset v s = (0, s1)" "obf (hw s1)" "regs (hw s1) = regs (hw s)"
      by blast
    obtain rs s' where ro: "run_ops sim_io ops s1 = (rs, s')" by fastforce
    with Cons.IH [OF wr(2)] wr(3) wr(1) Wr show ?thesis by simp
  qed
qed

theorem run_ops_stale_obf_witness:
  "obf (hw ((demo_io [])\<lparr>hw := (demo_ec [])\<lparr>obf := True\<rparr>\<rparr>)) \<and>
   (case run_ops sim_io [Rd 0x2F, Wr 0x3A 0x3C] ((demo_io [])\<lparr>hw := (demo_ec [])\<lparr>obf := True\<rparr>\<rparr>) of
      (rs, s') \<Rightarrow> rs = map failed_res [Rd 0x2F, Wr 0x3A 0x3C] \<and> obf (hw s') \<and>
        regs (hw s') = regs (hw ((demo_io [])\<lparr>hw := (demo_ec [])\<lparr>obf := True\<rparr>\<rparr>)))"
proof
  show o: "obf (hw ((demo_io [])\<lparr>hw := (demo_ec [])\<lparr>obf := True\<rparr>\<rparr>))" by simp
  show "case run_ops sim_io [Rd 0x2F, Wr 0x3A 0x3C] ((demo_io [])\<lparr>hw := (demo_ec [])\<lparr>obf := True\<rparr>\<rparr>) of
      (rs, s') \<Rightarrow> rs = map failed_res [Rd 0x2F, Wr 0x3A 0x3C] \<and> obf (hw s') \<and>
        regs (hw s') = regs (hw ((demo_io [])\<lparr>hw := (demo_ec [])\<lparr>obf := True\<rparr>\<rparr>))"
    by (rule run_ops_stale_obf [OF o])
qed

text \<open>A read whose offset the controller answers after the data-ready budget: the
  last wait times out with the reply still on its way, and the sweep fails.\<close>

lemma read_sweep_sim_late:
  assumes "busy (hw s) < 100" "\<not> obf (hw s)" "delays (hw s) = d1 # d2 # ds" "d1 < 10" "10 \<le> d2"
  shows "\<exists>s'. read_sweep sim_io off s = Swept False s' \<and> obf (hw s') \<and> regs (hw s') = regs (hw s)"
proof -
  let ?e = "hw s"
  let ?e2 = "sim_write EC_DATAPORT (ucast off) ((sim_write EC_CTRLPORT EC_CTRLPORT_READ ?e)\<lparr>busy := 0\<rparr>)"
  obtain s2 c where sw: "ec_sweep sim_io EC_CTRLPORT_READ obf_full (ucast off) s =
       (case poll sim_io obf_full iTimeout 0 (WritePort sim_io EC_DATAPORT (ucast off) s2) of
          (ok3, s3) \<Rightarrow> Swept ok3 s3)"
    and h2: "hw s2 = (sim_write EC_CTRLPORT EC_CTRLPORT_READ ?e)\<lparr>busy := 0, clock := c\<rparr>"
    and "c = clock ?e + 10 * busy ?e + 10 * fst (next_delay (delays ?e))"
    by (rule ec_sweep_prefix_sim [OF refl assms(1,2)]) (use assms(3,4) in \<open>simp add: next_delay_def\<close>)
  let ?w2 = "WritePort sim_io EC_DATAPORT (ucast off) s2"
  have hw2: "hw ?w2 = ?e2\<lparr>clock := c\<rparr>" by (rule WritePort_sim_data_after [OF h2])
  have e2: "busy ?e2 = d2" "obf ?e2" "regs ?e2 = regs ?e"
    using assms(3) by (simp_all add: next_delay_def)
  obtain s3 where p3: "poll sim_io obf_full iTimeout 0 ?w2 = (False, s3)"
    and h3: "hw s3 = (hw ?w2)\<lparr>busy := busy (hw ?w2) - 10, clock := clock (hw ?w2) + 10 * 10\<rparr>"
    using poll_sim_timeout [of ?w2 "hw ?w2" obf_full iTimeout 0] hw2 e2 assms(5) by fastforce
  from sw p3 have "read_sweep sim_io off s = Swept False s3" by (simp add: read_sweep_is_ec_sweep)
  moreover have "obf (hw s3) \<and> regs (hw s3) = regs ?e" using h3 hw2 e2 by simp
  ultimately show ?thesis by blast
qed

text \<open>C17: a read whose offset the controller answers later than the 100 ms
  data-ready budget fails, and leaves the late reply in the output buffer: the
  retry's idle wait sees OBF set and gives up, and nothing reads the data port.
  With C16, every later transaction then fails too.\<close>

theorem ReadByteFromEC_late_reply:
  "busy (hw s) < 100 \<Longrightarrow> \<not> obf (hw s) \<Longrightarrow> delays (hw s) = d1 # d2 # ds \<Longrightarrow> d1 < 10 \<Longrightarrow> 10 \<le> d2 \<Longrightarrow>
   case ReadByteFromEC sim_io offset pdata s of (r, d, s') \<Rightarrow>
     r = 0 \<and> d = pdata \<and> obf (hw s') \<and> regs (hw s') = regs (hw s)"
proof -
  assume a: "busy (hw s) < 100" "\<not> obf (hw s)" "delays (hw s) = d1 # d2 # ds" "d1 < 10" "10 \<le> d2"
  obtain s1 where s1: "read_sweep sim_io offset s = Swept False s1" "obf (hw s1)"
    "regs (hw s1) = regs (hw s)"
    using read_sweep_sim_late [OF a] by blast
  obtain s2 where s2: "read_sweep sim_io offset s1 = Return0 s2" "obf (hw s2)"
    "regs (hw s2) = regs (hw s1)"
    using ec_sweep_sim_obf [OF s1(2), of EC_CTRLPORT_READ obf_full "ucast offset"]
    by (auto simp: read_sweep_is_ec_sweep)
  have "setup_loop (read_sweep sim_io offset) 5 False s = Return0 s2"
    using s1(1) s2(1) by (simp add: setup_loop_step setup_loop_Return0)
  with s1 s2 show ?thesis by (simp add: ReadByteFromEC_def)
qed

theorem ReadByteFromEC_late_reply_witness:
  "busy (hw (demo_io [0, 12])) < 100 \<and> \<not> obf (hw (demo_io [0, 12])) \<and>
   delays (hw (demo_io [0, 12])) = 0 # 12 # [] \<and> (0::nat) < 10 \<and> (10::nat) \<le> 12 \<and>
   (case ReadByteFromEC sim_io 0x2F 0 (demo_io [0, 12]) of (r, d, s') \<Rightarrow>
     r = 0 \<and> d = 0 \<and> obf (hw s') \<and> regs (hw s') = regs (hw (demo_io [0, 12])))"
proof -
  have a: "busy (hw (demo_io [0, 12])) < 100" "\<not> obf (hw (demo_io [0, 12]))"
    "delays (hw (demo_io [0, 12])) = 0 # 12 # []"
    by (simp_all add: demo_io_def demo_ec_def)
  show ?thesis using a ReadByteFromEC_late_reply [OF a] by simp
qed

text \<open>C21: the spec's retry property for writes, for every script of late offsets:
  if the controller accepts the offset too late (but within the next idle wait) in
  the first \<open>N\<close> sweeps and in time afterwards, the write succeeds and assigns the
  register when \<open>N < 5\<close>, and fails with the register file untouched when
  \<open>N \<ge> 5\<close>.\<close>

theorem WriteByteToEC_stalls:
  "busy (hw s) < 100 \<Longrightarrow> \<not> obf (hw s) \<Longrightarrow> list_all stall_ok ps \<Longrightarrow>
   delays (hw s) = stall_script ps @ ds \<Longrightarrow> list_all (\<lambda>d. d < 10) ds \<Longrightarrow>
   case WriteByteToEC sim_io offset v s of (r, s') \<Rightarrow>
     if length ps < 5 then r = 1 \<and> regs (hw s') = (regs (hw s))(ucast offset := v)
     else r = 0 \<and> regs (hw s') = regs (hw s)"
proof -
  assume a: "busy (hw s) < 100" "\<not> obf (hw s)" "list_all stall_ok ps"
    "delays (hw s) = stall_script ps @ ds" "list_all (\<lambda>d. d < 10) ds"
  show ?thesis
  proof (cases "length ps < 5")
    case True
    from write_loop_stalls_ok [OF a True, of offset] obtain s1 where
      "setup_loop (write_sweep sim_io offset) 5 False s = Swept True s1"
      "regs (hw s1) = regs (hw s)" "phase (hw s1) = WrAddr (ucast offset)"
      by auto
    with True show ?thesis by (simp add: WriteByteToEC_def)
  next
    case False
    from write_loop_stalls_fail [OF a(1-4), of 5 offset] False obtain s1 where
      "setup_loop (write_sweep sim_io offset) 5 False s = Swept False s1" "regs (hw s1) = regs (hw s)"
      by auto
    with False show ?thesis by (simp add: WriteByteToEC_def)
  qed
qed

theorem WriteByteToEC_stalls_witness:
  "busy (hw (demo_io [0, 15, 0, 15, 0, 15, 0, 0, 0])) < 100 \<and>
   \<not> obf (hw (demo_io [0, 15, 0, 15, 0, 15, 0, 0, 0])) \<and>
   list_all stall_ok [(0, 15), (0, 15), (0, 15)] \<and>
   delays (hw (demo_io [0, 15, 0, 15, 0, 15, 0, 0, 0])) = stall_script [(0, 15), (0, 15), (0, 15)] @ [0, 0, 0] \<and>
   list_all (\<lambda>d. d < (10::nat)) [0, 0, 0] \<and>
   (case WriteByteToEC sim_io 0x3A 0x3C (demo_io [0, 15, 0, 15, 0, 15, 0, 0, 0]) of (r, s') \<Rightarrow>
      r = 1 \<and> regs (hw s') = (regs (hw (demo_io [0, 15, 0, 15, 0, 15, 0, 0, 0])))(ucast (0x3A :: c_int) := 0x3C))"
proof -
  have a: "busy (hw (demo_io [0, 15, 0, 15, 0, 15, 0, 0, 0])) < 100"
    "\<not> obf (hw (demo_io [0, 15, 0, 15, 0, 15, 0, 0, 0]))"
    "list_all stall_ok [(0, 15), (0, 15), (0, 15)]"
    "delays (hw (demo_io [0, 15, 0, 15, 0, 15, 0, 0, 0])) = stall_script [(0, 15), (0, 15), (0, 15)] @ [0, 0, 0]"
    "list_all (\<lambda>d. d < (10::nat)) [0, 0, 0]"
    by (simp_all add: demo_io_def demo_ec_def stall_ok_def stall_script_def)
  show ?thesis using a WriteByteToEC_stalls [OF a, of "0x3A" "0x3C"] by simp
qed

subsection \<open>The diagnostic log under a long run\<close>

lemma run_reads_log:
  "sim_ready (hw s) \<Longrightarrow> 0 < verbosity s \<Longrightarrow>
   case run_ops sim_io (replicate n (Rd offset)) s of (rs, s') \<Rightarrow>
     rs = replicate n (RdRes 1 (regs (hw s) (ucast offset))) \<and>
     length (logbuf s) + 28 * n \<le> length (logbuf s') \<and> verbosity s' = verbosity s \<and>
     regs (hw s') = regs (hw s) \<and> sim_ready (hw s')"
proof (induction n arbitrary: s)
  case 0
  then show ?case by simp
next
  case (Suc n)
  from ReadByteFromEC_sim [OF Suc.prems(1), of offset 0] Suc.prems(2) obtain s1 where
    rd: "ReadByteFromEC sim_io offset 0 s = (1, regs (hw s) (ucast offset), s1)"
    "regs (hw s1) = regs (hw s)" "sim_ready (hw s1)" "verbosity s1 = verbosity s"
    "logbuf s1 = logbuf s @ readec_entry offset (regs (hw s) (ucast offset))"
    by auto
  have l: "length (logbuf s) + 28 \<le> length (logbuf s1)"
    using rd(5) length_readec_entry [of offset "regs (hw s) (ucast offset)"] by simp
  obtain rs s' where ro: "run_ops sim_io (replicate n (Rd offset)) s1 = (rs, s')" by fastforce
  with Suc.IH [OF rd(3)] rd(2,4) Suc.prems(2)
  have "rs = replicate n (RdRes 1 (regs (hw s) (ucast offset)))"
    "length (logbuf s1) + 28 * n \<le> length (logbuf s')" "verbosity s' = verbosity s"
    "regs (hw s') = regs (hw s)" "sim_ready (hw s')"
    by auto
  with rd(1) ro l show ?case by simp
qed

text \<open>C20: \<^verbatim>\<open>logbuf\<close> is never cleared and every successful read with
  \<^verbatim>\<open>verbosity > 0\<close> appends at least 28 characters, so 293 successful reads on
  a ready controller put more than the 8192 characters of \<^verbatim>\<open>char logbuf[8192]\<close>
  into it: the \<^verbatim>\<open>sprintf\<close> of line 118 writes past the end of the array.\<close>

theorem readec_log_overflow:
  "sim_ready (hw s) \<Longrightarrow> 0 < verbosity s \<Longrightarrow>
   case run_ops sim_io (replicate 293 (Rd offset)) s of (rs, s') \<Rightarrow>
     rs = replicate 293 (RdRes 1 (regs (hw s) (ucast offset))) \<and> LOGBUF_SIZE < length (logbuf s')"
  using run_reads_log [of s 293 offset] by (auto simp: LOGBUF_SIZE_def)

theorem readec_log_overflow_witness:
  "sim_ready (hw (demo_io [])) \<and> 0 < verbosity (demo_io []) \<and>
   (case run_ops sim_io (replicate 293 (Rd 0x2F)) (demo_io []) of (rs, s') \<Rightarrow>
     rs = replicate 293 (RdRes 1 (regs (hw (demo_io [])) (ucast (0x2F :: c_int)))) \<and>
     LOGBUF_SIZE < length (logbuf s'))"
proof -
  have a: "sim_ready (hw (demo_io []))" "0 < verbosity (demo_io [])"
    by (simp_all add: demo_io_def demo_ec_def sim_ready_def)
  show ?thesis using a readec_log_overflow [of "demo_io []" "0x2F", OF a] by blast
qed

subsection \<open>Latency on a ready controller\<close>

text \<open>C27: on a ready controller a write and a read each spend exactly 10 ms of
  \<^verbatim>\<open>::Sleep\<close> per status sample that finds the controller busy: the busy time left
  at the call, then the latencies of the command byte and of the offset byte. The
  sweep succeeds at once, so this is below 300 ms, against up to 1.2 s per sweep
  and 6 s per call on a controller that does not answer (C6, C7).\<close>

theorem transaction_latency:
  "sim_ready (hw s) \<Longrightarrow>
   clock (hw (snd (WriteByteToEC sim_io off v s))) =
     clock (hw s) + 10 * (busy (hw s) + fst (next_delay (delays (hw s))) + fst (next_delay (tl (delays (hw s))))) \<and>
   clock (hw (snd (snd (ReadByteFromEC sim_io off p s)))) =
     clock (hw s) + 10 * (busy (hw s) + fst (next_delay (delays (hw s))) + fst (next_delay (tl (delays (hw s))))) \<and>
   10 * (busy (hw s) + fst (next_delay (delays (hw s))) + fst (next_delay (tl (delays (hw s))))) < 300"
proof -
  assume r: "sim_ready (hw s)"
  from WriteByteToEC_sim [OF r, of off v] ReadByteFromEC_sim [OF r, of off p] sim_ready_sweep [OF r]
    sim_ready_def r
  show ?thesis by auto
qed

theorem transaction_latency_witness:
  "sim_ready (hw (demo_io [3, 4])) \<and>
   clock (hw (snd (WriteByteToEC sim_io 0x2F 0x3C (demo_io [3, 4])))) = 70 \<and>
   clock (hw (snd (snd (ReadByteFromEC sim_io 0x2F 0 (demo_io [3, 4]))))) = 70"
proof -
  have r: "sim_ready (hw (demo_io [3, 4]))" by (simp add: demo_io_def demo_ec_def sim_ready_def)
  have "clock (hw (snd (WriteByteToEC sim_io 0x2F 0x3C (demo_io [3, 4])))) =
     clock (hw (demo_io [3, 4])) + 10 * (busy (hw (demo_io [3, 4])) + fst (next_delay (delays (hw (demo_io [3, 4])))) +
       fst (next_delay (tl (delays (hw (demo_io [3, 4])))))) \<and>
   clock (hw (snd (snd (ReadByteFromEC sim_io 0x2F 0 (demo_io [3, 4]))))) =
     clock (hw (demo_io [3, 4])) + 10 * (busy (hw (demo_io [3, 4])) + fst (next_delay (delays (hw (demo_io [3, 4])))) +
       fst (next_delay (tl (delays (hw (demo_io [3, 4])))))) \<and>
   10 * (busy (hw (demo_io [3, 4])) + fst (next_delay (delays (hw (demo_io [3, 4])))) +
       fst (next_delay (tl (delays (hw (demo_io [3, 4])))))) < 300"
    by (rule transaction_latency [OF r])
  with r show ?thesis by (simp add: demo_io_def demo_ec_def next_delay_def)
qed

end
