(* ===== verification/XactStep.thy ===== *)
theory XactStep
  imports ReadEC WriteEC
begin

text \<open>
  The two transactions of \<^verbatim>\<open>portio.cpp\<close> as small-step machines: one step performs at
  most one call of a port primitive, so that the steps of two callers can be
  interleaved on a shared controller. The thread state \<open>xthread\<close> holds the locals of
  \<^verbatim>\<open>ReadByteFromEC\<close> / \<^verbatim>\<open>WriteByteToEC\<close> (\<^verbatim>\<open>iTime\<close>, \<^verbatim>\<open>numSetupTries\<close>,
  \<^verbatim>\<open>iOK\<close>), the return value and \<^verbatim>\<open>*pdata\<close>, and a program counter \<open>xpc\<close> whose
  values are the control points of the source: the three polling loops, the two port
  writes of a sweep, the decrement of \<^verbatim>\<open>numSetupTries\<close> that ends the loop body, the
  code after the loop, and termination. A status sample and the \<^verbatim>\<open>::Sleep\<close> after
  it form one step (the sleep touches no port). \<open>xread_exec\<close> and \<open>xwrite_exec\<close> show that a thread run
  alone computes exactly the big-step \<open>ReadByteFromEC\<close> / \<open>WriteByteToEC\<close>.
\<close>

datatype xact = XRead c_int | XWrite c_int u8

primrec xact_cmd :: "xact \<Rightarrow> u8" where
  "xact_cmd (XRead offset) = EC_CTRLPORT_READ"
| "xact_cmd (XWrite offset v) = EC_CTRLPORT_WRITE"

primrec xact_final :: "xact \<Rightarrow> u8 \<Rightarrow> bool" where
  "xact_final (XRead offset) = obf_full"
| "xact_final (XWrite offset v) = buffers_clear"

primrec xact_offset :: "xact \<Rightarrow> c_int" where
  "xact_offset (XRead offset) = offset"
| "xact_offset (XWrite offset v) = offset"

datatype xpc = IdleWait | SendCmd | CmdWait | SendOffset | FinalWait | Decrement | Finish | Done

record xthread =
  t_pc :: xpc
  t_time :: int
  t_tries :: int
  t_ok :: bool
  t_ret :: int
  t_data :: u8

text \<open>Entry: \<^verbatim>\<open>iOK = false\<close>, \<^verbatim>\<open>numSetupTries = 5\<close>, the \<^verbatim>\<open>while\<close> test passed,
  the first \<^verbatim>\<open>for\<close> loop started with \<^verbatim>\<open>iTime = 0\<close>; \<open>t_data\<close> is \<^verbatim>\<open>*pdata\<close>.\<close>

definition xinit :: "u8 \<Rightarrow> xthread" where
  "xinit pdata = \<lparr>t_pc = IdleWait, t_time = 0, t_tries = 5, t_ok = False, t_ret = 0, t_data = pdata\<rparr>"

text \<open>\<^verbatim>\<open>if (!iOK) return 0; iOK = false;\<close> after the first two polling loops.\<close>

definition after_wait :: "xpc \<Rightarrow> xthread \<Rightarrow> xthread" where
  "after_wait next t = (if \<not> t_ok t then t\<lparr>t_ret := 0, t_pc := Done\<rparr> else t\<lparr>t_ok := False, t_pc := next\<rparr>)"

text \<open>One iteration of a polling loop: the loop test, the status sample, and either the
  \<^verbatim>\<open>break\<close> (continuation \<open>hit\<close>) or the sleep and \<^verbatim>\<open>iTime += iTick\<close>; a failed
  test leaves the loop (continuation \<open>tout\<close>).\<close>

definition wait_step :: "'d port_io \<Rightarrow> (u8 \<Rightarrow> bool) \<Rightarrow> int \<Rightarrow> (xthread \<Rightarrow> xthread) \<Rightarrow>
    (xthread \<Rightarrow> xthread) \<Rightarrow> xthread \<Rightarrow> 'd ec_io \<Rightarrow> xthread \<times> 'd ec_io" where
  "wait_step io cond budget hit tout t s =
     (if t_time t < budget then
        (case ReadPort io EC_CTRLPORT s of
           (b, s1) \<Rightarrow>
             if cond (ec_char_byte b) then (hit t, s1)
             else (t\<lparr>t_time := t_time t + iTick\<rparr>, Sleep io (nat iTick) s1))
      else (tout t, s))"

fun xstep :: "'d port_io \<Rightarrow> xact \<Rightarrow> xthread \<times> 'd ec_io \<Rightarrow> xthread \<times> 'd ec_io" where
  "xstep io x (t, s) =
     (case t_pc t of
        IdleWait \<Rightarrow>
          wait_step io buffers_clear iTimeoutBuf (\<lambda>t. after_wait SendCmd (t\<lparr>t_ok := True\<rparr>))
            (after_wait SendCmd) t s
      | SendCmd \<Rightarrow> (t\<lparr>t_pc := CmdWait, t_time := 0\<rparr>, WritePort io EC_CTRLPORT (xact_cmd x) s)
      | CmdWait \<Rightarrow>
          wait_step io buffers_clear iTimeout (\<lambda>t. after_wait SendOffset (t\<lparr>t_ok := True\<rparr>))
            (after_wait SendOffset) t s
      | SendOffset \<Rightarrow>
          (t\<lparr>t_pc := FinalWait, t_time := 0\<rparr>, WritePort io EC_DATAPORT (ucast (xact_offset x)) s)
      | FinalWait \<Rightarrow>
          wait_step io (xact_final x) iTimeout (\<lambda>t. t\<lparr>t_ok := True, t_tries := 1, t_pc := Decrement\<rparr>)
            (\<lambda>t. t\<lparr>t_pc := Decrement\<rparr>) t s
      | Decrement \<Rightarrow>
          (if 0 < t_tries t - 1 then t\<lparr>t_tries := t_tries t - 1, t_pc := IdleWait, t_time := 0\<rparr>
           else t\<lparr>t_tries := t_tries t - 1, t_pc := Finish\<rparr>, s)
      | Finish \<Rightarrow>
          (if \<not> t_ok t then (t\<lparr>t_ret := 0, t_pc := Done\<rparr>, s)
           else (case x of
                   XRead offset \<Rightarrow>
                     (case ReadPort io EC_DATAPORT s of
                        (d, s1) \<Rightarrow>
                          (t\<lparr>t_ret := 1, t_data := d, t_pc := Done\<rparr>,
                           if 0 < verbosity s1 then s1\<lparr>logbuf := logbuf s1 @ readec_entry offset d\<rparr>
                           else s1))
                 | XWrite offset v \<Rightarrow> (t\<lparr>t_ret := 1, t_pc := Done\<rparr>, WritePort io EC_DATAPORT v s)))
      | Done \<Rightarrow> (t, s))"

declare xstep.simps [simp del]

text \<open>Running a thread alone for a number of steps, the fuel; 700 steps are enough
  for either transaction (\<open>xrun_read\<close>, \<open>xrun_write\<close>).\<close>

definition xrun :: "'d port_io \<Rightarrow> xact \<Rightarrow> nat \<Rightarrow> xthread \<times> 'd ec_io \<Rightarrow> xthread \<times> 'd ec_io" where
  "xrun io x fuel = xstep io x ^^ fuel"

text \<open>The ranges the locals keep: \<^verbatim>\<open>iTime\<close> a multiple of \<^verbatim>\<open>iTick\<close> within the
  budget of its loop, \<^verbatim>\<open>numSetupTries\<close> between 0 and 5 and positive inside the
  loop, \<^verbatim>\<open>iOK\<close> false in the phases that have not yet succeeded and only with one
  try left at the decrement, the return value 0 or 1.\<close>

definition xthread_wf :: "xthread \<Rightarrow> bool" where
  "xthread_wf t \<longleftrightarrow>
     0 \<le> t_time t \<and> t_time t \<le> 1000 \<and> t_time t mod 10 = 0 \<and>
     0 \<le> t_tries t \<and> t_tries t \<le> 5 \<and>
     (t_pc t \<in> {CmdWait, FinalWait} \<longrightarrow> t_time t \<le> 100) \<and>
     (t_pc t \<in> {IdleWait, SendCmd, CmdWait, SendOffset, FinalWait} \<longrightarrow> \<not> t_ok t \<and> 0 < t_tries t) \<and>
     (t_pc t = Decrement \<longrightarrow> 0 < t_tries t \<and> (t_ok t \<longrightarrow> t_tries t = 1)) \<and>
     (t_pc t = Finish \<longrightarrow> t_tries t = 0) \<and>
     (t_ret t = 0 \<or> t_ret t = 1)"

text \<open>The steps a thread has left at most, from its control point and locals: a polling
  loop at \<^verbatim>\<open>iTime\<close> \<open>\<tau>\<close> with budget \<open>b\<close> takes at most \<open>\<lceil>(b - \<tau>) / 10\<rceil> + 1\<close>
  more steps, a sweep at most 125, and each try still left 126.\<close>

definition wait_cost :: "int \<Rightarrow> int \<Rightarrow> nat" where
  "wait_cost budget \<tau> = Suc (nat ((budget - \<tau> + 9) div 10))"

definition dec_cost :: "int \<Rightarrow> nat" where
  "dec_cost n = Suc (Suc (126 * (nat n - 1)))"

definition xmeasure :: "xthread \<Rightarrow> nat" where
  "xmeasure t =
     (case t_pc t of
        IdleWait \<Rightarrow> wait_cost 1000 (t_time t) + 24 + dec_cost (t_tries t)
      | SendCmd \<Rightarrow> 24 + dec_cost (t_tries t)
      | CmdWait \<Rightarrow> wait_cost 100 (t_time t) + 12 + dec_cost (t_tries t)
      | SendOffset \<Rightarrow> 12 + dec_cost (t_tries t)
      | FinalWait \<Rightarrow> wait_cost 100 (t_time t) + dec_cost (t_tries t)
      | Decrement \<Rightarrow> dec_cost (t_tries t)
      | Finish \<Rightarrow> 1
      | Done \<Rightarrow> 0)"

subsection \<open>A polling loop as a run of steps\<close>

lemma wait_step_sample:
  "t_time t < budget \<Longrightarrow> ReadPort io EC_CTRLPORT s = (b, s1) \<Longrightarrow>
   wait_step io cond budget hit tout t s =
     (if cond b then (hit t, s1) else (t\<lparr>t_time := t_time t + 10\<rparr>, Sleep io 10 s1))"
  by (simp add: wait_step_def iTick_def)

lemma wait_step_exit: "\<not> t_time t < budget \<Longrightarrow> wait_step io cond budget hit tout t s = (tout t, s)"
  by (simp add: wait_step_def)

text \<open>A machine that behaves as a polling loop on every value of \<open>iTime\<close> runs the loop
  as \<open>poll\<close> does, in at most one step more than the samples the budget allows.\<close>

lemma wait_seg:
  assumes f: "\<And>\<tau> s. f (t\<lparr>t_time := \<tau>\<rparr>, s) = wait_step io cond budget hit tout (t\<lparr>t_time := \<tau>\<rparr>) s"
  shows "poll io cond budget \<tau> s = (ok, s') \<Longrightarrow>
    \<exists>n \<tau>'. n \<le> poll_ticks budget \<tau> + 1 \<and>
      (f ^^ n) (t\<lparr>t_time := \<tau>\<rparr>, s) = ((if ok then hit else tout) (t\<lparr>t_time := \<tau>'\<rparr>), s')"
proof (induction "poll_ticks budget \<tau>" arbitrary: \<tau> s ok s')
  case 0
  then have stop: "\<not> \<tau> < budget" using poll_ticks_pos by fastforce
  with "0.prems" have "ok = False" "s' = s" by simp_all
  moreover have "(f ^^ 1) (t\<lparr>t_time := \<tau>\<rparr>, s) = (tout (t\<lparr>t_time := \<tau>\<rparr>), s)"
    using stop by (simp add: f wait_step_exit)
  ultimately show ?case by (intro exI [of _ 1] exI [of _ \<tau>]) simp
next
  case (Suc k)
  then have lt: "\<tau> < budget" using poll_ticks_stop by fastforce
  obtain b s1 where rd: "ReadPort io EC_CTRLPORT s = (b, s1)" by fastforce
  have st: "f (t\<lparr>t_time := \<tau>\<rparr>, s) =
      (if cond b then (hit (t\<lparr>t_time := \<tau>\<rparr>), s1) else (t\<lparr>t_time := \<tau> + 10\<rparr>, Sleep io 10 s1))"
    using wait_step_sample [of "t\<lparr>t_time := \<tau>\<rparr>", OF _ rd] lt by (simp add: f)
  show ?case
  proof (cases "cond b")
    case True
    with Suc.prems lt rd have "ok = True" "s' = s1" by (simp_all add: poll_step)
    with True st show ?thesis by (intro exI [of _ 1] exI [of _ \<tau>]) simp
  next
    case False
    with Suc.prems lt rd have p: "poll io cond budget (\<tau> + 10) (Sleep io 10 s1) = (ok, s')"
      by (simp add: poll_step)
    have k: "k = poll_ticks budget (\<tau> + 10)" using Suc.hyps(2) poll_ticks_step [OF lt] by simp
    from Suc.hyps(1) [OF k p] obtain n \<tau>' where n: "n \<le> poll_ticks budget (\<tau> + 10) + 1"
      "(f ^^ n) (t\<lparr>t_time := \<tau> + 10\<rparr>, Sleep io 10 s1) = ((if ok then hit else tout) (t\<lparr>t_time := \<tau>'\<rparr>), s')"
      by blast
    have "(f ^^ Suc n) (t\<lparr>t_time := \<tau>\<rparr>, s) = (f ^^ n) (f (t\<lparr>t_time := \<tau>\<rparr>, s))"
      by (simp only: funpow_Suc_right o_apply)
    also have "\<dots> = (f ^^ n) (t\<lparr>t_time := \<tau> + 10\<rparr>, Sleep io 10 s1)" using False st by simp
    also have "\<dots> = ((if ok then hit else tout) (t\<lparr>t_time := \<tau>'\<rparr>), s')" by (rule n(2))
    finally have "(f ^^ Suc n) (t\<lparr>t_time := \<tau>\<rparr>, s) = ((if ok then hit else tout) (t\<lparr>t_time := \<tau>'\<rparr>), s')" .
    moreover have "Suc n \<le> poll_ticks budget \<tau> + 1" using n(1) poll_ticks_step [OF lt] by simp
    ultimately show ?thesis by blast
  qed
qed

lemma steps_trans:
  "(f ^^ n1) a = b \<Longrightarrow> (f ^^ n2) b = c \<Longrightarrow> (f ^^ (n2 + n1)) a = c"
  by (simp add: funpow_add)

text \<open>The first two polling loops, with \<^verbatim>\<open>if (!iOK) return 0; iOK = false;\<close> after them.\<close>

lemma xwait_after:
  assumes "\<not> t_ok t"
    and f: "\<And>\<tau> s. xstep io x (t\<lparr>t_time := \<tau>\<rparr>, s) =
      wait_step io cond budget (\<lambda>t. after_wait q (t\<lparr>t_ok := True\<rparr>)) (after_wait q) (t\<lparr>t_time := \<tau>\<rparr>) s"
    and p: "poll io cond budget 0 s = (ok, s')"
  shows "\<exists>n \<tau>'. n \<le> poll_ticks budget 0 + 1 \<and>
    (xstep io x ^^ n) (t\<lparr>t_time := 0\<rparr>, s) =
      (if ok then t\<lparr>t_time := \<tau>', t_pc := q\<rparr> else t\<lparr>t_time := \<tau>', t_ret := 0, t_pc := Done\<rparr>, s')"
proof -
  from wait_seg [of "xstep io x", OF f p] obtain n \<tau>' where
    "n \<le> poll_ticks budget 0 + 1" "(xstep io x ^^ n) (t\<lparr>t_time := 0\<rparr>, s) =
      ((if ok then \<lambda>t. after_wait q (t\<lparr>t_ok := True\<rparr>) else after_wait q) (t\<lparr>t_time := \<tau>'\<rparr>), s')"
    by blast
  with assms(1) show ?thesis by (intro exI [of _ n] exI [of _ \<tau>']) (simp add: after_wait_def)
qed

lemma xsweep:
  assumes "t_pc t = IdleWait" "\<not> t_ok t"
  shows "\<exists>n t'. n \<le> 125 \<and>
    (xstep io x ^^ n) (t\<lparr>t_time := 0\<rparr>, s) =
      (t', sweep_state (ec_sweep io (xact_cmd x) (xact_final x) (ucast (xact_offset x)) s)) \<and>
    t_data t' = t_data t \<and>
    (case ec_sweep io (xact_cmd x) (xact_final x) (ucast (xact_offset x)) s of
       Return0 s1 \<Rightarrow> t_pc t' = Done \<and> t_ret t' = 0
     | Swept ok s1 \<Rightarrow> t_pc t' = Decrement \<and> t_ok t' = ok \<and> t_tries t' = (if ok then 1 else t_tries t))"
proof -
  obtain ok1 s1 where p1: "poll io buffers_clear iTimeoutBuf 0 s = (ok1, s1)" by fastforce
  from xwait_after [OF assms(2) _ p1, of x SendCmd] assms(1) obtain n1 \<tau>1 where
    n1: "n1 \<le> 101" "(xstep io x ^^ n1) (t\<lparr>t_time := 0\<rparr>, s) =
      (if ok1 then t\<lparr>t_time := \<tau>1, t_pc := SendCmd\<rparr> else t\<lparr>t_time := \<tau>1, t_ret := 0, t_pc := Done\<rparr>, s1)"
    by (auto simp: xstep.simps)
  show ?thesis
  proof (cases ok1)
    case False
    with p1 n1 show ?thesis by (intro exI [of _ n1]) (auto simp: ec_sweep_def)
  next
    case True
    let ?w1 = "WritePort io EC_CTRLPORT (xact_cmd x) s1"
    let ?t2 = "t\<lparr>t_pc := CmdWait\<rparr>"
    have c1: "(xstep io x ^^ 1) (t\<lparr>t_time := \<tau>1, t_pc := SendCmd\<rparr>, s1) = (?t2\<lparr>t_time := 0\<rparr>, ?w1)"
      by (simp add: xstep.simps)
    obtain ok2 s2 where p2: "poll io buffers_clear iTimeout 0 ?w1 = (ok2, s2)" by fastforce
    from xwait_after [of ?t2, OF _ _ p2, of x SendOffset] assms(2) obtain n2 \<tau>2 where
      n2: "n2 \<le> 11" "(xstep io x ^^ n2) (?t2\<lparr>t_time := 0\<rparr>, ?w1) =
        (if ok2 then ?t2\<lparr>t_time := \<tau>2, t_pc := SendOffset\<rparr> else ?t2\<lparr>t_time := \<tau>2, t_ret := 0, t_pc := Done\<rparr>, s2)"
      by (auto simp: xstep.simps)
    have a2: "(xstep io x ^^ (n2 + (1 + n1))) (t\<lparr>t_time := 0\<rparr>, s) =
        (if ok2 then ?t2\<lparr>t_time := \<tau>2, t_pc := SendOffset\<rparr> else ?t2\<lparr>t_time := \<tau>2, t_ret := 0, t_pc := Done\<rparr>, s2)"
      using steps_trans [OF steps_trans [OF n1(2) [unfolded if_P [OF True]] c1] n2(2)] .
    show ?thesis
    proof (cases ok2)
      case False
      with True p1 p2 a2 n1(1) n2(1) show ?thesis by (intro exI [of _ "n2 + (1 + n1)"]) (auto simp: ec_sweep_def)
    next
      case ok2: True
      let ?w2 = "WritePort io EC_DATAPORT (ucast (xact_offset x)) s2"
      let ?t3 = "t\<lparr>t_pc := FinalWait\<rparr>"
      have c2: "(xstep io x ^^ 1) (?t2\<lparr>t_time := \<tau>2, t_pc := SendOffset\<rparr>, s2) = (?t3\<lparr>t_time := 0\<rparr>, ?w2)"
        by (simp add: xstep.simps)
      obtain ok3 s3 where p3: "poll io (xact_final x) iTimeout 0 ?w2 = (ok3, s3)" by fastforce
      from wait_seg [of "xstep io x" ?t3, where hit = "\<lambda>t. t\<lparr>t_ok := True, t_tries := 1, t_pc := Decrement\<rparr>"
          and tout = "\<lambda>t. t\<lparr>t_pc := Decrement\<rparr>", OF _ p3] obtain n3 \<tau>3 where
        n3: "n3 \<le> 11" "(xstep io x ^^ n3) (?t3\<lparr>t_time := 0\<rparr>, ?w2) =
          (if ok3 then ?t3\<lparr>t_time := \<tau>3, t_ok := True, t_tries := 1, t_pc := Decrement\<rparr>
           else ?t3\<lparr>t_time := \<tau>3, t_pc := Decrement\<rparr>, s3)"
        by (cases ok3) (auto simp: xstep.simps)
      have "(xstep io x ^^ (n3 + (1 + (n2 + (1 + n1))))) (t\<lparr>t_time := 0\<rparr>, s) =
          (if ok3 then ?t3\<lparr>t_time := \<tau>3, t_ok := True, t_tries := 1, t_pc := Decrement\<rparr>
           else ?t3\<lparr>t_time := \<tau>3, t_pc := Decrement\<rparr>, s3)"
        using steps_trans [OF steps_trans [OF a2 [unfolded if_P [OF ok2]] c2] n3(2)] .
      with True ok2 p1 p2 p3 n1(1) n2(1) n3(1) assms(2) show ?thesis
        by (intro exI [of _ "n3 + (1 + (n2 + (1 + n1)))"]) (auto simp: ec_sweep_def)
    qed
  qed
qed

text \<open>The retry loop: from the first polling loop with \<open>n\<close> tries left, the thread
  runs the loop as \<open>setup_loop\<close> does, in at most 126 steps per sweep.\<close>

lemma xloop:
  "0 < n \<Longrightarrow> t_pc t = IdleWait \<Longrightarrow> \<not> t_ok t \<Longrightarrow> t_tries t = int n \<Longrightarrow>
   \<exists>k t'. k \<le> 126 * n \<and>
     (xstep io x ^^ k) (t\<lparr>t_time := 0\<rparr>, s) =
       (t', sweep_state (setup_loop (ec_sweep io (xact_cmd x) (xact_final x) (ucast (xact_offset x))) (int n) False s)) \<and>
     t_data t' = t_data t \<and>
     (case setup_loop (ec_sweep io (xact_cmd x) (xact_final x) (ucast (xact_offset x))) (int n) False s of
        Return0 s1 \<Rightarrow> t_pc t' = Done \<and> t_ret t' = 0
      | Swept ok s1 \<Rightarrow> t_pc t' = Finish \<and> t_ok t' = ok)"
proof (induction n arbitrary: t s)
  case 0
  then show ?case by simp
next
  case (Suc m)
  let ?body = "ec_sweep io (xact_cmd x) (xact_final x) (ucast (xact_offset x))"
  from xsweep [OF Suc.prems(2,3), of io x s] obtain n1 t1 where
    n1: "n1 \<le> 125" "(xstep io x ^^ n1) (t\<lparr>t_time := 0\<rparr>, s) = (t1, sweep_state (?body s))"
    "t_data t1 = t_data t"
    "case ?body s of Return0 s1 \<Rightarrow> t_pc t1 = Done \<and> t_ret t1 = 0
       | Swept ok s1 \<Rightarrow> t_pc t1 = Decrement \<and> t_ok t1 = ok \<and> t_tries t1 = (if ok then 1 else t_tries t)"
    by blast
  show ?case
  proof (cases "?body s")
    case (Return0 s1)
    with n1 show ?thesis by (intro exI [of _ n1] exI [of _ t1]) (simp add: setup_loop_step)
  next
    case (Swept ok s1)
    with n1(4) Suc.prems(4) have t1: "t_pc t1 = Decrement" "t_ok t1 = ok"
      "t_tries t1 = (if ok then 1 else int (Suc m))" by simp_all
    from n1(2) Swept have r1: "(xstep io x ^^ n1) (t\<lparr>t_time := 0\<rparr>, s) = (t1, s1)" by simp
    have loop: "setup_loop ?body (int (Suc m)) False s = setup_loop ?body ((if ok then 1 else int (Suc m)) - 1) ok s1"
      using Swept by (simp add: setup_loop_step)
    show ?thesis
    proof (cases "ok \<or> m = 0")
      case True
      let ?t2 = "t1\<lparr>t_tries := t_tries t1 - 1, t_pc := Finish\<rparr>"
      have "(xstep io x ^^ 1) (t1, s1) = (?t2, s1)" using t1 True by (auto simp: xstep.simps)
      from steps_trans [OF r1 this] have "(xstep io x ^^ (1 + n1)) (t\<lparr>t_time := 0\<rparr>, s) = (?t2, s1)" .
      moreover have "setup_loop ?body (int (Suc m)) False s = Swept ok s1" using loop True by auto
      ultimately show ?thesis using t1 n1(1,3) by (intro exI [of _ "1 + n1"] exI [of _ ?t2]) simp
    next
      case False
      let ?t2 = "t1\<lparr>t_tries := int m, t_pc := IdleWait, t_time := 0\<rparr>"
      have "(xstep io x ^^ 1) (t1, s1) = (?t2, s1)" using t1 False by (simp add: xstep.simps)
      from steps_trans [OF r1 this] have a: "(xstep io x ^^ (1 + n1)) (t\<lparr>t_time := 0\<rparr>, s) = (?t2, s1)" .
      from False have m: "0 < m" and nok: "\<not> ok" by auto
      from Suc.IH [OF m, of ?t2 s1] nok obtain k t' where
        k: "k \<le> 126 * m" "(xstep io x ^^ k) (?t2\<lparr>t_time := 0\<rparr>, s1) = (t', sweep_state (setup_loop ?body (int m) False s1))"
        "t_data t' = t_data ?t2"
        "case setup_loop ?body (int m) False s1 of Return0 s2 \<Rightarrow> t_pc t' = Done \<and> t_ret t' = 0
           | Swept ok s2 \<Rightarrow> t_pc t' = Finish \<and> t_ok t' = ok"
        using t1 by auto
      have "(xstep io x ^^ (k + (1 + n1))) (t\<lparr>t_time := 0\<rparr>, s) = (t', sweep_state (setup_loop ?body (int m) False s1))"
        using steps_trans [OF a] k(2) by simp
      moreover have "setup_loop ?body (int (Suc m)) False s = setup_loop ?body (int m) False s1"
        using loop nok by simp
      ultimately show ?thesis using k(1,3,4) n1(1,3)
        by (intro exI [of _ "k + (1 + n1)"] exI [of _ t']) simp
    qed
  qed
qed

subsection \<open>A thread run alone computes the big-step transaction\<close>

lemma xstep_Done: "t_pc t = Done \<Longrightarrow> (xstep io x ^^ m) (t, s) = (t, s)"
  by (induction m) (simp_all add: xstep.simps)

lemma xrun_reaches:
  "k \<le> fuel \<Longrightarrow> (xstep io x ^^ k) a = (t, s) \<Longrightarrow> t_pc t = Done \<Longrightarrow> xrun io x fuel a = (t, s)"
proof -
  assume k: "k \<le> fuel" "(xstep io x ^^ k) a = (t, s)" "t_pc t = Done"
  have "xrun io x fuel a = (xstep io x ^^ (fuel - k + k)) a" using k(1) by (simp add: xrun_def)
  also have "\<dots> = (xstep io x ^^ (fuel - k)) (t, s)" using k(2) by (simp add: funpow_add)
  finally show ?thesis using xstep_Done [OF k(3)] by simp
qed

lemma xinit_loop:
  "\<exists>k t'. k \<le> 630 \<and>
     (xstep io x ^^ k) (xinit pdata, s) =
       (t', sweep_state (setup_loop (ec_sweep io (xact_cmd x) (xact_final x) (ucast (xact_offset x))) 5 False s)) \<and>
     t_data t' = pdata \<and>
     (case setup_loop (ec_sweep io (xact_cmd x) (xact_final x) (ucast (xact_offset x))) 5 False s of
        Return0 s1 \<Rightarrow> t_pc t' = Done \<and> t_ret t' = 0
      | Swept ok s1 \<Rightarrow> t_pc t' = Finish \<and> t_ok t' = ok)"
proof -
  have i: "(xinit pdata)\<lparr>t_time := 0\<rparr> = xinit pdata" by (simp add: xinit_def)
  show ?thesis using xloop [of 5 "xinit pdata" io x s] by (simp add: xinit_def i [unfolded xinit_def])
qed

lemma xread_exec:
  "\<exists>k t'. k \<le> 631 \<and> (xstep io (XRead offset) ^^ k) (xinit pdata, s) = (t', snd (snd (ReadByteFromEC io offset pdata s))) \<and>
     t_pc t' = Done \<and> t_ret t' = fst (ReadByteFromEC io offset pdata s) \<and>
     t_data t' = fst (snd (ReadByteFromEC io offset pdata s))"
proof -
  from xinit_loop [of io "XRead offset" pdata s] obtain k t' where
    k: "k \<le> 630" "(xstep io (XRead offset) ^^ k) (xinit pdata, s) =
         (t', sweep_state (setup_loop (read_sweep io offset) 5 False s))" "t_data t' = pdata"
      "case setup_loop (read_sweep io offset) 5 False s of Return0 s1 \<Rightarrow> t_pc t' = Done \<and> t_ret t' = 0
         | Swept ok s1 \<Rightarrow> t_pc t' = Finish \<and> t_ok t' = ok"
    by (auto simp: read_sweep_is_ec_sweep)
  show ?thesis
  proof (cases "setup_loop (read_sweep io offset) 5 False s")
    case (Return0 s1)
    with k show ?thesis by (intro exI [of _ k] exI [of _ t']) (simp add: ReadByteFromEC_def)
  next
    case (Swept ok s1)
    obtain d s2 where rd: "ReadPort io EC_DATAPORT s1 = (d, s2)" by fastforce
    let ?t2 = "if ok then t'\<lparr>t_ret := 1, t_data := d, t_pc := Done\<rparr> else t'\<lparr>t_ret := 0, t_pc := Done\<rparr>"
    let ?s2 = "if ok then (if 0 < verbosity s2 then s2\<lparr>logbuf := logbuf s2 @ readec_entry offset d\<rparr> else s2) else s1"
    from Swept k have "(xstep io (XRead offset) ^^ k) (xinit pdata, s) = (t', s1)" by simp
    moreover have "(xstep io (XRead offset) ^^ 1) (t', s1) = (?t2, ?s2)"
      using Swept k(4) rd by (simp add: xstep.simps)
    ultimately have "(xstep io (XRead offset) ^^ (1 + k)) (xinit pdata, s) = (?t2, ?s2)"
      by (rule steps_trans)
    with Swept k(1,3) rd show ?thesis
      by (intro exI [of _ "1 + k"] exI [of _ ?t2]) (simp add: ReadByteFromEC_def)
  qed
qed

lemma xwrite_exec:
  "\<exists>k t'. k \<le> 631 \<and> (xstep io (XWrite offset v) ^^ k) (xinit pdata, s) = (t', snd (WriteByteToEC io offset v s)) \<and>
     t_pc t' = Done \<and> t_ret t' = fst (WriteByteToEC io offset v s) \<and> t_data t' = pdata"
proof -
  from xinit_loop [of io "XWrite offset v" pdata s] obtain k t' where
    k: "k \<le> 630" "(xstep io (XWrite offset v) ^^ k) (xinit pdata, s) =
         (t', sweep_state (setup_loop (write_sweep io offset) 5 False s))" "t_data t' = pdata"
      "case setup_loop (write_sweep io offset) 5 False s of Return0 s1 \<Rightarrow> t_pc t' = Done \<and> t_ret t' = 0
         | Swept ok s1 \<Rightarrow> t_pc t' = Finish \<and> t_ok t' = ok"
    by (auto simp: write_sweep_is_ec_sweep)
  show ?thesis
  proof (cases "setup_loop (write_sweep io offset) 5 False s")
    case (Return0 s1)
    with k show ?thesis by (intro exI [of _ k] exI [of _ t']) (simp add: WriteByteToEC_def)
  next
    case (Swept ok s1)
    let ?t2 = "if ok then t'\<lparr>t_ret := 1, t_pc := Done\<rparr> else t'\<lparr>t_ret := 0, t_pc := Done\<rparr>"
    let ?s2 = "if ok then WritePort io EC_DATAPORT v s1 else s1"
    from Swept k have "(xstep io (XWrite offset v) ^^ k) (xinit pdata, s) = (t', s1)" by simp
    moreover have "(xstep io (XWrite offset v) ^^ 1) (t', s1) = (?t2, ?s2)"
      using Swept k(4) by (simp add: xstep.simps)
    ultimately have "(xstep io (XWrite offset v) ^^ (1 + k)) (xinit pdata, s) = (?t2, ?s2)"
      by (rule steps_trans)
    with Swept k(1,3) show ?thesis
      by (intro exI [of _ "1 + k"] exI [of _ ?t2]) (simp add: WriteByteToEC_def)
  qed
qed

lemma xrun_read:
  "\<exists>t'. xrun io (XRead offset) 700 (xinit pdata, s) = (t', snd (snd (ReadByteFromEC io offset pdata s))) \<and>
     t_pc t' = Done \<and> t_ret t' = fst (ReadByteFromEC io offset pdata s) \<and>
     t_data t' = fst (snd (ReadByteFromEC io offset pdata s))"
proof -
  from xread_exec [of io offset pdata s] obtain k t' where
    k: "k \<le> 631" "(xstep io (XRead offset) ^^ k) (xinit pdata, s) = (t', snd (snd (ReadByteFromEC io offset pdata s)))"
    "t_pc t' = Done" "t_ret t' = fst (ReadByteFromEC io offset pdata s)"
    "t_data t' = fst (snd (ReadByteFromEC io offset pdata s))"
    by blast
  have "xrun io (XRead offset) 700 (xinit pdata, s) = (t', snd (snd (ReadByteFromEC io offset pdata s)))"
    using k(1) by (intro xrun_reaches [OF _ k(2) k(3)]) simp
  with k(3-5) show ?thesis by blast
qed

lemma xrun_write:
  "\<exists>t'. xrun io (XWrite offset v) 700 (xinit pdata, s) = (t', snd (WriteByteToEC io offset v s)) \<and>
     t_pc t' = Done \<and> t_ret t' = fst (WriteByteToEC io offset v s) \<and> t_data t' = pdata"
proof -
  from xwrite_exec [of io offset v pdata s] obtain k t' where
    k: "k \<le> 631" "(xstep io (XWrite offset v) ^^ k) (xinit pdata, s) = (t', snd (WriteByteToEC io offset v s))"
    "t_pc t' = Done" "t_ret t' = fst (WriteByteToEC io offset v s)" "t_data t' = pdata"
    by blast
  have "xrun io (XWrite offset v) 700 (xinit pdata, s) = (t', snd (WriteByteToEC io offset v s))"
    using k(1) by (intro xrun_reaches [OF _ k(2) k(3)]) simp
  with k(3-5) show ?thesis by blast
qed

subsection \<open>The locals stay in range\<close>

lemma tick_within:
  "10 dvd (a :: int) \<Longrightarrow> a < 1000 \<Longrightarrow> a \<le> 990"
  "10 dvd (a :: int) \<Longrightarrow> a < 100 \<Longrightarrow> a \<le> 90"
  by (auto elim!: dvdE)

lemma fst_wait_step:
  "fst (wait_step io cond budget hit tout t s) =
     (if t_time t < budget then
        (if cond (fst (ReadPort io EC_CTRLPORT s)) then hit t else t\<lparr>t_time := t_time t + 10\<rparr>)
      else tout t)"
  by (simp add: wait_step_def iTick_def split: prod.split)

lemma xinit_wf: "xthread_wf (xinit pdata)"
  by (simp add: xinit_def xthread_wf_def)

lemma xstep_wf: "xthread_wf t \<Longrightarrow> xthread_wf (fst (xstep io x (t, s)))"
  by (cases "t_pc t")
     (auto simp: xstep.simps fst_wait_step after_wait_def xthread_wf_def tick_within poll_consts
        split: prod.split xact.split)

subsection \<open>A ranking function\<close>

lemma wait_cost_tick: "\<tau> < budget \<Longrightarrow> wait_cost budget \<tau> = Suc (wait_cost budget (\<tau> + 10))"
proof -
  assume lt: "\<tau> < budget"
  have "(budget - \<tau> + 9) div 10 = (budget - (\<tau> + 10) + 9) div 10 + 1"
    using div_add_self2 [of 10 "budget - (\<tau> + 10) + 9"] by simp
  moreover have "0 \<le> (budget - (\<tau> + 10) + 9) div 10" using lt by simp
  ultimately show ?thesis by (simp add: wait_cost_def nat_add_distrib)
qed

lemma wait_cost_exit: "\<not> \<tau> < budget \<Longrightarrow> wait_cost budget \<tau> = 1"
  by (simp add: wait_cost_def)

lemma wait_cost_pos: "0 < wait_cost budget \<tau>"
  by (simp add: wait_cost_def)

lemma dec_cost_pred: "0 < n - 1 \<Longrightarrow> 125 + dec_cost (n - 1) < dec_cost n"
  by (simp add: dec_cost_def nat_diff_distrib)

lemma xmeasure_xinit: "xmeasure (xinit p) = 631"
  by (simp add: xmeasure_def xinit_def wait_cost_def dec_cost_def)

lemma xmeasure_Done: "xmeasure t = 0 \<longleftrightarrow> t_pc t = Done"
  by (simp add: xmeasure_def wait_cost_pos dec_cost_def split: xpc.split)

lemma xstep_measure: "t_pc t \<noteq> Done \<Longrightarrow> xmeasure (fst (xstep io x (t, s))) < xmeasure t"
  apply (cases "t_pc t")
         apply (auto simp: xstep.simps fst_wait_step after_wait_def xmeasure_def wait_cost_tick wait_cost_exit
      wait_cost_pos poll_consts dec_cost_pred split: prod.split xact.split)
   apply (simp_all add: dec_cost_def)
  done

lemma xstep_measure_le: "xmeasure (fst (xstep io x (t, s))) \<le> xmeasure t - 1"
  using xstep_measure [of t io x s] xmeasure_Done [of t] by (cases "t_pc t = Done") (simp_all add: xstep.simps)

end
