(* ===== verification/Interleave.thy ===== *)
theory Interleave
  imports XactStep DriverSim
begin

text \<open>
  Two callers of the transport on one controller. \<^verbatim>\<open>portio.cpp\<close> takes no lock, so
  when two threads call \<^verbatim>\<open>ReadByteFromEC\<close> / \<^verbatim>\<open>WriteByteToEC\<close> at once their
  port accesses interleave; the spec (section 5) leaves the serialisation to the
  environment. A configuration holds both threads of \<open>XactStep\<close> and the shared
  transport state; \<open>sched_step\<close> lets the scheduler's choice run one step of one
  thread, \<open>sched_run\<close> follows a schedule, and \<open>reach2\<close> is the set of
  configurations some schedule reaches from two fresh calls. The last section shows
  with the ranking of \<open>XactStep\<close> that every call returns whatever the schedule.
\<close>

type_synonym 'd config = "xthread \<times> xthread \<times> 'd ec_io"

definition sched_step :: "'d port_io \<Rightarrow> xact \<Rightarrow> xact \<Rightarrow> bool \<Rightarrow> 'd config \<Rightarrow> 'd config" where
  "sched_step io x1 x2 first c =
     (case c of
        (t1, t2, s) \<Rightarrow>
          if first then (case xstep io x1 (t1, s) of (t1', s') \<Rightarrow> (t1', t2, s'))
          else (case xstep io x2 (t2, s) of (t2', s') \<Rightarrow> (t1, t2', s')))"

fun sched_run :: "'d port_io \<Rightarrow> xact \<Rightarrow> xact \<Rightarrow> bool list \<Rightarrow> 'd config \<Rightarrow> 'd config" where
  "sched_run io x1 x2 [] c = c"
| "sched_run io x1 x2 (b # bs) c = sched_run io x1 x2 bs (sched_step io x1 x2 b c)"

inductive reach2 :: "'d port_io \<Rightarrow> xact \<Rightarrow> xact \<Rightarrow> 'd config \<Rightarrow> bool" for io x1 x2 where
  start: "io_trace s = [] \<Longrightarrow> reach2 io x1 x2 (xinit p1, xinit p2, s)"
| step: "reach2 io x1 x2 c \<Longrightarrow> reach2 io x1 x2 (sched_step io x1 x2 b c)"

text \<open>The bytes a transaction may put on the bus.\<close>

primrec bus_writes :: "xact \<Rightarrow> (u16 \<times> u8) set" where
  "bus_writes (XRead offset) = {(EC_CTRLPORT, EC_CTRLPORT_READ), (EC_DATAPORT, ucast offset)}"
| "bus_writes (XWrite offset v) =
     {(EC_CTRLPORT, EC_CTRLPORT_WRITE), (EC_DATAPORT, ucast offset), (EC_DATAPORT, v)}"

text \<open>The litmus schedule: the reader sends READ, the writer sends WRITE, the reader
  sends its offset, the writer sends its offset; then the writer and the reader run
  to the end.\<close>

definition litmus_schedule :: "bool list" where
  "litmus_schedule = [True, True, False, False, True, True, False, False] @ replicate 5 False @ replicate 40 True"

subsection \<open>One step of one thread\<close>

lemma wait_step_trace:
  "\<exists>evs. io_trace (snd (wait_step io cond budget hit tout t s)) = io_trace s @ evs \<and> set (port_writes evs) \<subseteq> B"
  by (auto simp: wait_step_def ReadPort_def split: prod.split)

lemma xstep_trace:
  "\<exists>evs. io_trace (snd (xstep io x (t, s))) = io_trace s @ evs \<and> set (port_writes evs) \<subseteq> bus_writes x"
proof (cases "t_pc t")
  case Finish
  then show ?thesis
    by (cases x) (auto simp: xstep.simps ReadPort_def split: prod.split)
next
  case SendCmd
  then show ?thesis by (cases x) (auto simp: xstep.simps)
next
  case SendOffset
  then show ?thesis by (cases x) (auto simp: xstep.simps)
next
  case IdleWait
  then show ?thesis by (simp add: xstep.simps) (rule wait_step_trace)
next
  case CmdWait
  then show ?thesis by (simp add: xstep.simps) (rule wait_step_trace)
next
  case FinalWait
  then show ?thesis by (simp add: xstep.simps) (rule wait_step_trace)
qed (auto simp: xstep.simps)

lemma sched_run_append:
  "sched_run io x1 x2 (bs @ cs) c = sched_run io x1 x2 cs (sched_run io x1 x2 bs c)"
  by (induction bs arbitrary: c) simp_all

lemma reach2_sched_run: "reach2 io x1 x2 c \<Longrightarrow> reach2 io x1 x2 (sched_run io x1 x2 bs c)"
  by (induction bs arbitrary: c) (simp_all add: reach2.step)

lemma sched_step_cases:
  "sched_step io x1 x2 b (t1, t2, s) =
     (if b then (fst (xstep io x1 (t1, s)), t2, snd (xstep io x1 (t1, s)))
      else (t1, fst (xstep io x2 (t2, s)), snd (xstep io x2 (t2, s))))"
  by (simp add: sched_step_def split: prod.split)

subsection \<open>Every interleaving\<close>

text \<open>C22: under every interleaving of two calls, on every device, the locals of both
  threads stay in the ranges of \<open>xthread_wf\<close>: \<^verbatim>\<open>iTime\<close> within its loop's
  budget in steps of 10, \<^verbatim>\<open>numSetupTries\<close> between 0 and 5, \<^verbatim>\<open>iOK\<close> set only
  after a final wait, the return value 0 or 1.\<close>

theorem reach2_wf:
  "reach2 io x1 x2 c \<Longrightarrow> case c of (t1, t2, s) \<Rightarrow> xthread_wf t1 \<and> xthread_wf t2"
proof (induction rule: reach2.induct)
  case (start s p1 p2)
  then show ?case by (simp add: xinit_wf)
next
  case (step c b)
  obtain t1 t2 s where c: "c = (t1, t2, s)" by (cases c) auto
  from step.IH c have w: "xthread_wf t1" "xthread_wf t2" by simp_all
  have "xthread_wf (fst (xstep io x1 (t1, s)))" "xthread_wf (fst (xstep io x2 (t2, s)))"
    using xstep_wf [OF w(1)] xstep_wf [OF w(2)] by blast+
  with w c show ?case by (simp only: sched_step_cases) (auto split: prod.split)
qed

lemma litmus_reachable:
  "reach2 sim_io (XRead 0x2F) (XWrite 0x3A 0x3C)
     (sched_run sim_io (XRead 0x2F) (XWrite 0x3A 0x3C) litmus_schedule (xinit 0, xinit 0, demo_io []))"
  by (rule reach2_sched_run, rule reach2.start) (simp add: demo_io_def)

theorem reach2_wf_witness:
  "reach2 sim_io (XRead 0x2F) (XWrite 0x3A 0x3C)
     (sched_run sim_io (XRead 0x2F) (XWrite 0x3A 0x3C) litmus_schedule (xinit 0, xinit 0, demo_io [])) \<and>
   (case sched_run sim_io (XRead 0x2F) (XWrite 0x3A 0x3C) litmus_schedule (xinit 0, xinit 0, demo_io []) of
      (t1, t2, s) \<Rightarrow> xthread_wf t1 \<and> xthread_wf t2)"
  using litmus_reachable reach2_wf [OF litmus_reachable] by blast

text \<open>C23: under every interleaving of two calls, on every device, the only bytes
  written to the ports are the commands, offsets and new value of the two calls.\<close>

theorem reach2_bus:
  "reach2 io x1 x2 c \<Longrightarrow>
   case c of (t1, t2, s) \<Rightarrow> set (port_writes (io_trace s)) \<subseteq> bus_writes x1 \<union> bus_writes x2"
proof (induction rule: reach2.induct)
  case (start s p1 p2)
  then show ?case by simp
next
  case (step c b)
  obtain t1 t2 s where c: "c = (t1, t2, s)" by (cases c) auto
  obtain evs1 where e1: "io_trace (snd (xstep io x1 (t1, s))) = io_trace s @ evs1"
    "set (port_writes evs1) \<subseteq> bus_writes x1" using xstep_trace by blast
  obtain evs2 where e2: "io_trace (snd (xstep io x2 (t2, s))) = io_trace s @ evs2"
    "set (port_writes evs2) \<subseteq> bus_writes x2" using xstep_trace by blast
  from step.IH c e1 e2 show ?case by (auto simp: sched_step_cases)
qed

theorem reach2_bus_witness:
  "reach2 sim_io (XRead 0x2F) (XWrite 0x3A 0x3C)
     (sched_run sim_io (XRead 0x2F) (XWrite 0x3A 0x3C) litmus_schedule (xinit 0, xinit 0, demo_io [])) \<and>
   (case sched_run sim_io (XRead 0x2F) (XWrite 0x3A 0x3C) litmus_schedule (xinit 0, xinit 0, demo_io []) of
      (t1, t2, s) \<Rightarrow> set (port_writes (io_trace s)) \<subseteq> bus_writes (XRead 0x2F) \<union> bus_writes (XWrite 0x3A 0x3C))"
  using litmus_reachable reach2_bus [OF litmus_reachable] by blast

subsection \<open>An interleaving that corrupts a register\<close>

text \<open>C24: on every simulated controller that answers at once (not busy, output buffer
  empty, no latencies), whatever its registers, for every read offset \<open>o1\<close>, write
  offset \<open>o2\<close> with a different low byte, and new value \<open>v\<close>, the read and the write
  interleaved by \<open>litmus_schedule\<close> both return 1, yet the only register that
  changes is the reader's, which receives the write's offset byte, and the read
  returns that byte: \<open>v\<close> is lost and a register no caller wrote is corrupted. In
  neither serial order (C15, C26) does a register other than \<open>o2\<close>'s change, so
  without the caller's lock the corruption is silent.\<close>

theorem interleaving_corrupts:
  "busy (hw s) = 0 \<Longrightarrow> \<not> obf (hw s) \<Longrightarrow> delays (hw s) = [] \<Longrightarrow> ucast o1 \<noteq> (ucast o2 :: u8) \<Longrightarrow>
   case sched_run sim_io (XRead o1) (XWrite o2 v) litmus_schedule (xinit p1, xinit p2, s) of
     (t1, t2, s') \<Rightarrow>
       t_pc t1 = Done \<and> t_pc t2 = Done \<and> t_ret t1 = 1 \<and> t_ret t2 = 1 \<and> t_data t1 = ucast o2 \<and>
       regs (hw s') = (regs (hw s))(ucast o1 := ucast o2)"
  by (simp add: litmus_schedule_def replicate_numeral_Cons sched_step_cases xstep.simps wait_step_def ReadPort_sim_ctrl
      ReadPort_sim_data xinit_def after_wait_def poll_consts ec_char_byte_def next_delay_def iTick_def)

theorem interleaving_corrupts_witness:
  "busy (hw (demo_io [])) = 0 \<and> \<not> obf (hw (demo_io [])) \<and> delays (hw (demo_io [])) = [] \<and>
   ucast (0x2F :: c_int) \<noteq> (ucast (0x3A :: c_int) :: u8) \<and>
   (case sched_run sim_io (XRead 0x2F) (XWrite 0x3A 0x3C) litmus_schedule (xinit 0, xinit 0, demo_io []) of
     (t1, t2, s') \<Rightarrow>
       t_pc t1 = Done \<and> t_pc t2 = Done \<and> t_ret t1 = 1 \<and> t_ret t2 = 1 \<and> t_data t1 = ucast (0x3A :: c_int) \<and>
       regs (hw s') = (regs (hw (demo_io [])))(ucast (0x2F :: c_int) := ucast (0x3A :: c_int)))"
proof -
  have h: "busy (hw (demo_io [])) = 0" "\<not> obf (hw (demo_io []))" "delays (hw (demo_io [])) = []"
    "ucast (0x2F :: c_int) \<noteq> (ucast (0x3A :: c_int) :: u8)"
    by (simp_all add: demo_io_def demo_ec_def)
  show ?thesis using h interleaving_corrupts [OF h, of "0x3C" 0 0] by simp
qed

subsection \<open>Every caller finishes, whatever the other does\<close>

text \<open>Each step of a thread lowers its ranking \<open>xmeasure\<close>, and a step of the other
  thread leaves it alone.\<close>

lemma sched_run_measure:
  "xmeasure (fst (sched_run io x1 x2 bs (t1, t2, s))) \<le> xmeasure t1 - length (filter id bs) \<and>
   xmeasure (fst (snd (sched_run io x1 x2 bs (t1, t2, s)))) \<le> xmeasure t2 - length (filter Not bs)"
proof (induction bs arbitrary: t1 t2 s)
  case Nil
  then show ?case by simp
next
  case (Cons b bs)
  show ?case
  proof (cases b)
    case True
    with Cons.IH [of "fst (xstep io x1 (t1, s))" t2 "snd (xstep io x1 (t1, s))"]
      xstep_measure_le [of io x1 t1 s] show ?thesis by (auto simp: sched_step_cases)
  next
    case False
    with Cons.IH [of t1 "fst (xstep io x2 (t2, s))" "snd (xstep io x2 (t2, s))"]
      xstep_measure_le [of io x2 t2 s] show ?thesis by (auto simp: sched_step_cases)
  qed
qed

text \<open>C25: under every interleaving of two calls, on every device, each call has
  returned once it has been scheduled 631 times, whatever the other call does in
  between: the transport cannot starve or deadlock a caller that keeps running.\<close>

theorem sched_run_terminates:
  "case sched_run io x1 x2 bs (xinit p1, xinit p2, s) of (t1, t2, s') \<Rightarrow>
     (631 \<le> length (filter id bs) \<longrightarrow> t_pc t1 = Done) \<and> (631 \<le> length (filter Not bs) \<longrightarrow> t_pc t2 = Done)"
  using sched_run_measure [of io x1 x2 bs "xinit p1" "xinit p2" s]
    xmeasure_Done [of "fst (sched_run io x1 x2 bs (xinit p1, xinit p2, s))"]
    xmeasure_Done [of "fst (snd (sched_run io x1 x2 bs (xinit p1, xinit p2, s)))"]
  by (auto simp: xmeasure_xinit split: prod.split)

theorem sched_run_terminates_witness:
  "631 \<le> length (filter id (litmus_schedule @ replicate 631 False @ replicate 631 True)) \<and>
   631 \<le> length (filter Not (litmus_schedule @ replicate 631 False @ replicate 631 True)) \<and>
   (case sched_run sim_io (XRead 0x2F) (XWrite 0x3A 0x3C) (litmus_schedule @ replicate 631 False @ replicate 631 True)
           (xinit 0, xinit 0, demo_io []) of
      (t1, t2, s') \<Rightarrow> t_pc t1 = Done \<and> t_pc t2 = Done)"
proof -
  have c: "631 \<le> length (filter id (litmus_schedule @ replicate 631 False @ replicate 631 True)) \<and>
           631 \<le> length (filter Not (litmus_schedule @ replicate 631 False @ replicate 631 True))"
    by (simp add: litmus_schedule_def)
  have i: "case sched_run sim_io (XRead 0x2F) (XWrite 0x3A 0x3C)
                (litmus_schedule @ replicate 631 False @ replicate 631 True) (xinit 0, xinit 0, demo_io []) of
             (t1, t2, s') \<Rightarrow>
               (631 \<le> length (filter id (litmus_schedule @ replicate 631 False @ replicate 631 True)) \<longrightarrow>
                  t_pc t1 = Done) \<and>
               (631 \<le> length (filter Not (litmus_schedule @ replicate 631 False @ replicate 631 True)) \<longrightarrow>
                  t_pc t2 = Done)"
    by (rule sched_run_terminates)
  show ?thesis using c i by (simp split: prod.splits)
qed

end
