(* ===== verification/SerialLock.thy ===== *)
theory SerialLock
  imports Interleave
begin

text \<open>
  The serialisation the spec (section 5) asks of the environment: a mutual-exclusion
  lock held for the lifetime of one whole transaction, retries included. The lock is
  not code of \<^verbatim>\<open>portio.cpp\<close>; it is modelled from the spec on top of the two
  transaction threads of \<open>XactStep\<close>. A thread that is scheduled takes the lock if
  it is free, runs one step while it holds it, and gives it back with its last
  step; a thread scheduled while the other holds the lock is blocked and the
  step changes nothing. \<open>locked_run_linearizable\<close> shows that the contract is
  enough: whatever the schedule, two calls that have both returned have done
  what the two big-step calls do one after the other.
\<close>

datatype lock = Free | Held bool

primrec swap_lock :: "lock \<Rightarrow> lock" where
  "swap_lock Free = Free"
| "swap_lock (Held b) = Held (\<not> b)"

definition locked_step :: "'d port_io \<Rightarrow> xact \<Rightarrow> xact \<Rightarrow> bool \<Rightarrow> lock \<times> 'd config \<Rightarrow> lock \<times> 'd config" where
  "locked_step io x1 x2 b lc =
     (case lc of
        (l, c) \<Rightarrow>
          if l = Free \<or> l = Held b then
            (case sched_step io x1 x2 b c of
               (t1', t2', s') \<Rightarrow>
                 (if t_pc (if b then t1' else t2') = Done then Free else Held b, t1', t2', s'))
          else (l, c))"

fun locked_run :: "'d port_io \<Rightarrow> xact \<Rightarrow> xact \<Rightarrow> bool list \<Rightarrow> lock \<times> 'd config \<Rightarrow> lock \<times> 'd config" where
  "locked_run io x1 x2 [] lc = lc"
| "locked_run io x1 x2 (b # bs) lc = locked_run io x1 x2 bs (locked_step io x1 x2 b lc)"

text \<open>A serial run: the thread that went first ran \<open>i\<close> steps alone, then the other
  ran \<open>j\<close> steps; the result lists the first thread first.\<close>

definition serial_from :: "'d port_io \<Rightarrow> xact \<Rightarrow> xact \<Rightarrow> nat \<Rightarrow> nat \<Rightarrow> xthread \<Rightarrow> xthread \<Rightarrow>
    'd ec_io \<Rightarrow> 'd config" where
  "serial_from io xa xb i j ta tb s =
     (case xrun io xa i (ta, s) of
        (ta', s1) \<Rightarrow> (case xrun io xb j (tb, s1) of (tb', s2) \<Rightarrow> (ta', tb', s2)))"

text \<open>What the lock tells about a serial run whose first thread is \<open>Held True\<close>: the
  second thread starts only once the first has returned, the holder has not yet
  returned, and a free lock means that no thread has started or the running ones
  have returned.\<close>

definition held_ok :: "lock \<Rightarrow> nat \<Rightarrow> nat \<Rightarrow> xthread \<Rightarrow> xthread \<Rightarrow> bool" where
  "held_ok l i j ta tb \<longleftrightarrow>
     (0 < j \<longrightarrow> t_pc ta = Done) \<and>
     (l = Held True \<longrightarrow> j = 0 \<and> t_pc ta \<noteq> Done) \<and>
     (l = Held False \<longrightarrow> 0 < j \<and> t_pc tb \<noteq> Done) \<and>
     (l = Free \<longrightarrow> (i = 0 \<and> j = 0) \<or> (t_pc ta = Done \<and> (j = 0 \<or> t_pc tb = Done)))"

text \<open>The lock is held only by a thread that has not returned.\<close>

definition lock_wf :: "lock \<times> 'd config \<Rightarrow> bool" where
  "lock_wf lc \<longleftrightarrow>
     (case lc of (l, t1, t2, s) \<Rightarrow> (l = Held True \<longrightarrow> t_pc t1 \<noteq> Done) \<and> (l = Held False \<longrightarrow> t_pc t2 \<noteq> Done))"

text \<open>A round-robin scheduler: \<open>n\<close> rounds, each giving one step to each caller.\<close>

definition round_robin :: "nat \<Rightarrow> bool list" where
  "round_robin n = concat (replicate n [True, False])"

subsection \<open>Runs under the lock are serial\<close>

lemma swap_lock_swap_lock [simp]: "swap_lock (swap_lock l) = l"
  by (cases l) simp_all

lemma swap_lock_Free [simp]: "swap_lock l = Free \<longleftrightarrow> l = Free"
  by (cases l) simp_all

lemma swap_lock_Held [simp]: "swap_lock l = Held b \<longleftrightarrow> l = Held (\<not> b)"
  by (cases l) auto

lemma locked_step_swap:
  "locked_step io x1 x2 b (l, t1, t2, s) =
     (case locked_step io x2 x1 (\<not> b) (swap_lock l, t2, t1, s) of
        (l', t2', t1', s') \<Rightarrow> (swap_lock l', t1', t2', s'))"
  by (cases l; cases b) (simp_all add: locked_step_def sched_step_cases case_prod_beta)


lemma xrun_Suc: "xrun io x (Suc n) a = xstep io x (xrun io x n a)"
  by (simp add: xrun_def)

lemma serial_from_first:
  "serial_from io xa xb i 0 ta tb s = (case xrun io xa i (ta, s) of (ta', s1) \<Rightarrow> (ta', tb, s1))"
  by (simp add: serial_from_def xrun_def split: prod.split)

lemma serial_from_step_first:
  "sched_step io xa xb True (serial_from io xa xb i 0 ta tb s) = serial_from io xa xb (Suc i) 0 ta tb s"
  by (simp add: serial_from_first xrun_Suc sched_step_def split: prod.split)

lemma serial_from_step_second:
  "sched_step io xa xb False (serial_from io xa xb i j ta tb s) = serial_from io xa xb i (Suc j) ta tb s"
  by (simp add: serial_from_def xrun_Suc sched_step_def split: prod.split)

lemma sched_step_Done_first:
  "t_pc ta = Done \<Longrightarrow> sched_step io xa xb True (ta, tb, s) = (ta, tb, s)"
  by (simp add: sched_step_def xstep.simps)

lemma serial_from_zero: "serial_from io xa xb 0 0 ta tb s = (ta, tb, s)"
  by (simp add: serial_from_def xrun_def)

lemma xinit_not_Done: "t_pc (xinit p) \<noteq> Done"
  by (simp add: xinit_def)

lemma locked_step_go:
  "l = Free \<or> l = Held b \<Longrightarrow> sched_step io x1 x2 b c = (t1', t2', s') \<Longrightarrow>
   locked_step io x1 x2 b (l, c) = (if t_pc (if b then t1' else t2') = Done then Free else Held b, t1', t2', s')"
  by (simp add: locked_step_def)

lemma locked_step_blocked: "l \<noteq> Free \<Longrightarrow> l \<noteq> Held b \<Longrightarrow> locked_step io x1 x2 b (l, c) = (l, c)"
  by (simp add: locked_step_def)

text \<open>One step under the lock keeps a run serial; from the start, a step of the
  second thread makes it the first.\<close>

lemma serial_step:
  assumes r: "serial_from io xa xb i j ta0 tb0 s = (ta, tb, s')"
    and h: "held_ok l i j ta tb"
    and st: "locked_step io xa xb b (l, ta, tb, s') = (l', ta', tb', s'')"
  shows "(\<exists>i' j'. serial_from io xa xb i' j' ta0 tb0 s = (ta', tb', s'') \<and> held_ok l' i' j' ta' tb') \<or>
         (serial_from io xb xa 1 0 tb0 ta0 s = (tb', ta', s'') \<and> held_ok (swap_lock l') 1 0 tb' ta')"
proof (cases "l = Free \<or> l = Held b")
  case False
  with st have "(l', ta', tb', s'') = (l, ta, tb, s')" by (simp add: locked_step_blocked)
  with r h show ?thesis by blast
next
  case go: True
  show ?thesis
  proof (cases b)
    case b: True
    from go b have go1: "l = Free \<or> l = Held True" by simp
    from st b have st1: "locked_step io xa xb True (l, ta, tb, s') = (l', ta', tb', s'')" by simp
    show ?thesis
    proof (cases "j = 0 \<and> (l = Held True \<or> i = 0)")
      case True
      obtain u1 u2 u3 where u: "serial_from io xa xb (Suc i) 0 ta0 tb0 s = (u1, u2, u3)"
        by (cases "serial_from io xa xb (Suc i) 0 ta0 tb0 s") auto
      have sch: "sched_step io xa xb True (ta, tb, s') = (u1, u2, u3)"
        using r u True serial_from_step_first [of io xa xb i ta0 tb0 s] by simp
      have "(l', ta', tb', s'') = (if t_pc u1 = Done then Free else Held True, u1, u2, u3)"
        using st1 locked_step_go [OF go1 sch] by auto
      moreover have "tb = u2" using r u True serial_from_first [of io xa xb] by (auto split: prod.splits)
      ultimately show ?thesis using u True by (auto simp: held_ok_def)
    next
      case False
      with go1 h have dn: "t_pc ta = Done" "l = Free" by (auto simp: held_ok_def)
      with st1 have "(l', ta', tb', s'') = (Free, ta, tb, s')"
        by (simp add: locked_step_go sched_step_Done_first)
      with r h dn show ?thesis by blast
    qed
  next
    case b: False
    from go b have go2: "l = Free \<or> l = Held False" by simp
    from st b have st2: "locked_step io xa xb False (l, ta, tb, s') = (l', ta', tb', s'')" by simp
    show ?thesis
    proof (cases "l = Free \<and> i = 0 \<and> j = 0")
      case True
      obtain u2 u3 where u: "xstep io xb (tb0, s) = (u2, u3)" by fastforce
      from r True have c0: "(ta, tb, s') = (ta0, tb0, s)" by (simp add: serial_from_zero)
      have sch: "sched_step io xa xb False (ta, tb, s') = (ta0, u2, u3)"
        using c0 u by (simp add: sched_step_def)
      have "(l', ta', tb', s'') = (if t_pc u2 = Done then Free else Held False, ta0, u2, u3)"
        using st2 locked_step_go [OF go2 sch] by auto
      moreover have "serial_from io xb xa 1 0 tb0 ta0 s = (u2, ta0, u3)"
        using u by (simp add: serial_from_def xrun_def)
      ultimately show ?thesis by (auto simp: held_ok_def)
    next
      case False
      with go b h have dn: "t_pc ta = Done" "l = Held False \<longrightarrow> t_pc tb \<noteq> Done"
        by (auto simp: held_ok_def)
      obtain u1 u2 u3 where u: "serial_from io xa xb i (Suc j) ta0 tb0 s = (u1, u2, u3)"
        by (cases "serial_from io xa xb i (Suc j) ta0 tb0 s") auto
      have sch: "sched_step io xa xb False (ta, tb, s') = (u1, u2, u3)"
        using r u serial_from_step_second [of io xa xb i j ta0 tb0 s] by simp
      have "(l', ta', tb', s'') = (if t_pc u2 = Done then Free else Held False, u1, u2, u3)"
        using st2 locked_step_go [OF go2 sch] by auto
      moreover have "u1 = ta" using r u by (simp add: serial_from_def split: prod.splits)
      ultimately show ?thesis using u dn by (auto simp: held_ok_def)
    qed
  qed
qed

lemma locked_run_serial_inv:
  "(\<exists>i j. serial_from io x1 x2 i j t10 t20 s = (t1, t2, s') \<and> held_ok l i j t1 t2) \<or>
   (\<exists>i j. serial_from io x2 x1 i j t20 t10 s = (t2, t1, s') \<and> held_ok (swap_lock l) i j t2 t1) \<Longrightarrow>
   locked_run io x1 x2 bs (l, t1, t2, s') = (l', t1', t2', s'') \<Longrightarrow>
   (\<exists>i j. serial_from io x1 x2 i j t10 t20 s = (t1', t2', s'') \<and> held_ok l' i j t1' t2') \<or>
   (\<exists>i j. serial_from io x2 x1 i j t20 t10 s = (t2', t1', s'') \<and> held_ok (swap_lock l') i j t2' t1')"
proof (induction bs arbitrary: l t1 t2 s')
  case Nil
  then show ?case by simp
next
  case (Cons b bs)
  obtain lm m1 m2 sm where m: "locked_step io x1 x2 b (l, t1, t2, s') = (lm, m1, m2, sm)"
    by (cases "locked_step io x1 x2 b (l, t1, t2, s')") auto
  have m': "locked_step io x2 x1 (\<not> b) (swap_lock l, t2, t1, s') = (swap_lock lm, m2, m1, sm)"
    using m locked_step_swap [of io x1 x2 b l t1 t2 s'] by (auto split: prod.splits)
  have "(\<exists>i j. serial_from io x1 x2 i j t10 t20 s = (m1, m2, sm) \<and> held_ok lm i j m1 m2) \<or>
        (\<exists>i j. serial_from io x2 x1 i j t20 t10 s = (m2, m1, sm) \<and> held_ok (swap_lock lm) i j m2 m1)"
    using Cons.prems(1)
  proof
    assume "\<exists>i j. serial_from io x1 x2 i j t10 t20 s = (t1, t2, s') \<and> held_ok l i j t1 t2"
    then obtain i j where "serial_from io x1 x2 i j t10 t20 s = (t1, t2, s')" "held_ok l i j t1 t2" by blast
    from serial_step [OF this m] show ?thesis by blast
  next
    assume "\<exists>i j. serial_from io x2 x1 i j t20 t10 s = (t2, t1, s') \<and> held_ok (swap_lock l) i j t2 t1"
    then obtain i j where "serial_from io x2 x1 i j t20 t10 s = (t2, t1, s')" "held_ok (swap_lock l) i j t2 t1"
      by blast
    from serial_step [OF this m'] show ?thesis by auto
  qed
  with Cons.IH Cons.prems(2) m show ?case by simp
qed

lemma xinit_exec:
  "\<exists>k t' s'. k \<le> 631 \<and> (xstep io x ^^ k) (xinit p, s) = (t', s') \<and> t_pc t' = Done"
proof (cases x)
  case (XRead offset)
  then show ?thesis using xread_exec [of io offset p s] by blast
next
  case (XWrite offset v)
  then show ?thesis using xwrite_exec [of io offset v p s] by blast
qed

text \<open>A thread that has returned has returned with the state of its complete run.\<close>

lemma xrun_Done_700:
  assumes n: "xrun io x n (xinit p, s) = (t, s')" and d: "t_pc t = Done"
  shows "xrun io x 700 (xinit p, s) = (t, s')"
proof -
  obtain k t2 s2 where k: "k \<le> 631" "(xstep io x ^^ k) (xinit p, s) = (t2, s2)" "t_pc t2 = Done"
    using xinit_exec by blast
  have "(xstep io x ^^ (k + n)) (xinit p, s) = (t, s')"
    using n xstep_Done [OF d, of k io x s'] by (simp add: funpow_add xrun_def)
  moreover have "(xstep io x ^^ (n + k)) (xinit p, s) = (t2, s2)"
    using k(2) xstep_Done [OF k(3), of n io x s2] by (simp add: funpow_add)
  ultimately have "(t, s') = (t2, s2)" by (simp add: add.commute)
  with k show ?thesis using xrun_reaches [of k 700 io x "(xinit p, s)" t2 s2] by simp
qed

lemma serial_done:
  assumes "serial_from io xa xb i j (xinit pa) (xinit pb) s = (ta, tb, s')"
    and "t_pc ta = Done" "t_pc tb = Done"
  shows "\<exists>s1. xrun io xa 700 (xinit pa, s) = (ta, s1) \<and> xrun io xb 700 (xinit pb, s1) = (tb, s')"
proof -
  obtain ta1 s1 where a: "xrun io xa i (xinit pa, s) = (ta1, s1)" by fastforce
  with assms(1) have b: "xrun io xb j (xinit pb, s1) = (tb, s')" and e: "ta1 = ta"
    by (auto simp: serial_from_def split: prod.splits)
  show ?thesis using xrun_Done_700 [OF a [unfolded e] assms(2)] xrun_Done_700 [OF b assms(3)] by blast
qed

subsection \<open>The lock's contract is enough\<close>

text \<open>C26: with each call run under one lock held from its first port access to its
  return, as the spec requires of the environment, every schedule of a read and a
  write in which both calls have returned has the effect of the two big-step calls in
  one of the two orders: the read's result and the write's on the state the read
  left, or the other way round. Together with C24 (the same calls without the lock
  corrupt a register) this is the case for the lock.\<close>

theorem locked_run_linearizable:
  assumes "locked_run io (XRead o1) (XWrite o2 v) bs (Free, xinit p1, xinit p2, s) = (l, t1, t2, s')"
    and "t_pc t1 = Done" "t_pc t2 = Done"
  shows "(\<exists>s1. ReadByteFromEC io o1 p1 s = (t_ret t1, t_data t1, s1) \<and> WriteByteToEC io o2 v s1 = (t_ret t2, s')) \<or>
         (\<exists>s2. WriteByteToEC io o2 v s = (t_ret t2, s2) \<and> ReadByteFromEC io o1 p1 s2 = (t_ret t1, t_data t1, s'))"
proof -
  have "held_ok Free 0 0 (xinit p1) (xinit p2)" by (simp add: held_ok_def)
  then have "(\<exists>i j. serial_from io (XRead o1) (XWrite o2 v) i j (xinit p1) (xinit p2) s = (xinit p1, xinit p2, s) \<and>
      held_ok Free i j (xinit p1) (xinit p2))"
    using serial_from_zero by blast
  from locked_run_serial_inv [OF disjI1 [OF this] assms(1)]
  show ?thesis
  proof
    assume "\<exists>i j. serial_from io (XRead o1) (XWrite o2 v) i j (xinit p1) (xinit p2) s = (t1, t2, s') \<and>
      held_ok l i j t1 t2"
    then obtain s1 where r: "xrun io (XRead o1) 700 (xinit p1, s) = (t1, s1)"
      and w: "xrun io (XWrite o2 v) 700 (xinit p2, s1) = (t2, s')"
      using serial_done assms(2,3) by blast
    have "ReadByteFromEC io o1 p1 s = (t_ret t1, t_data t1, s1)"
      using xrun_read [of io o1 p1 s] r by (auto simp: prod_eq_iff)
    moreover have "WriteByteToEC io o2 v s1 = (t_ret t2, s')"
      using xrun_write [of io o2 v p2 s1] w by (auto simp: prod_eq_iff)
    ultimately show ?thesis by blast
  next
    assume "\<exists>i j. serial_from io (XWrite o2 v) (XRead o1) i j (xinit p2) (xinit p1) s = (t2, t1, s') \<and>
      held_ok (swap_lock l) i j t2 t1"
    then obtain s2 where w: "xrun io (XWrite o2 v) 700 (xinit p2, s) = (t2, s2)"
      and r: "xrun io (XRead o1) 700 (xinit p1, s2) = (t1, s')"
      using serial_done assms(2,3) by blast
    have "WriteByteToEC io o2 v s = (t_ret t2, s2)"
      using xrun_write [of io o2 v p2 s] w by (auto simp: prod_eq_iff)
    moreover have "ReadByteFromEC io o1 p1 s2 = (t_ret t1, t_data t1, s')"
      using xrun_read [of io o1 p1 s2] r by (auto simp: prod_eq_iff)
    ultimately show ?thesis by blast
  qed
qed

text \<open>The litmus schedule of C24, then ten more steps of the writer, under the lock: the
  reader holds the lock from its first step, so the writer's steps wait until the
  read has returned \<open>0x30\<close>; then the write stores \<open>0x3C\<close> in register \<open>0x3A\<close>.\<close>

lemma locked_litmus:
  "case locked_run sim_io (XRead 0x2F) (XWrite 0x3A 0x3C) (litmus_schedule @ replicate 10 False)
          (Free, xinit 0, xinit 0, demo_io []) of
     (l, t1, t2, s') \<Rightarrow>
       l = Free \<and> t_pc t1 = Done \<and> t_pc t2 = Done \<and> t_ret t1 = 1 \<and> t_ret t2 = 1 \<and> t_data t1 = 0x30 \<and>
       regs (hw s') 0x2F = 0x30 \<and> regs (hw s') 0x3A = 0x3C"
  by code_simp

theorem locked_run_linearizable_witness:
  "case locked_run sim_io (XRead 0x2F) (XWrite 0x3A 0x3C) (litmus_schedule @ replicate 10 False)
          (Free, xinit 0, xinit 0, demo_io []) of
     (l, t1, t2, s') \<Rightarrow>
       t_pc t1 = Done \<and> t_pc t2 = Done \<and>
       ((\<exists>s1. ReadByteFromEC sim_io 0x2F 0 (demo_io []) = (t_ret t1, t_data t1, s1) \<and>
              WriteByteToEC sim_io 0x3A 0x3C s1 = (t_ret t2, s')) \<or>
        (\<exists>s2. WriteByteToEC sim_io 0x3A 0x3C (demo_io []) = (t_ret t2, s2) \<and>
              ReadByteFromEC sim_io 0x2F 0 s2 = (t_ret t1, t_data t1, s')))"
proof -
  obtain l t1 t2 s' where r: "locked_run sim_io (XRead 0x2F) (XWrite 0x3A 0x3C) (litmus_schedule @ replicate 10 False)
      (Free, xinit 0, xinit 0, demo_io []) = (l, t1, t2, s')"
    by (cases "locked_run sim_io (XRead 0x2F) (XWrite 0x3A 0x3C) (litmus_schedule @ replicate 10 False)
      (Free, xinit 0, xinit 0, demo_io [])") auto
  from locked_litmus r have d: "t_pc t1 = Done" "t_pc t2 = Done" by simp_all
  from locked_run_linearizable [OF r d] r d show ?thesis by simp
qed

subsection \<open>The lock does not deadlock\<close>

lemma locked_run_append:
  "locked_run io x1 x2 (bs @ cs) lc = locked_run io x1 x2 cs (locked_run io x1 x2 bs lc)"
  by (induction bs arbitrary: lc) simp_all

lemma locked_step_wf: "lock_wf lc \<Longrightarrow> lock_wf (locked_step io x1 x2 b lc)"
  by (auto simp: lock_wf_def locked_step_def sched_step_cases split: prod.splits)

lemma locked_run_wf: "lock_wf lc \<Longrightarrow> lock_wf (locked_run io x1 x2 bs lc)"
  by (induction bs arbitrary: lc) (simp_all add: locked_step_wf)

text \<open>No step raises a thread's ranking; in a round, the thread holding the lock, or
  either thread when it is free, takes a step that lowers its ranking, unless both
  have returned.\<close>

lemma locked_step_measure:
  "locked_step io x1 x2 b (l, t1, t2, s) = (l', t1', t2', s') \<Longrightarrow>
   xmeasure t1' \<le> xmeasure t1 - (if b \<and> (l = Free \<or> l = Held b) then 1 else 0) \<and>
   xmeasure t2' \<le> xmeasure t2 - (if \<not> b \<and> (l = Free \<or> l = Held b) then 1 else 0)"
  using xstep_measure_le [of io x1 t1 s] xstep_measure_le [of io x2 t2 s]
  by (auto simp: locked_step_def sched_step_cases split: prod.splits if_splits)

lemma locked_round_measure:
  assumes w: "lock_wf (l, t1, t2, s)"
    and r: "locked_run io x1 x2 [True, False] (l, t1, t2, s) = (l', t1', t2', s')"
  shows "xmeasure t1' + xmeasure t2' \<le> xmeasure t1 + xmeasure t2 - 1"
proof -
  obtain l1 u1 u2 s1 where m1: "locked_step io x1 x2 True (l, t1, t2, s) = (l1, u1, u2, s1)"
    by (cases "locked_step io x1 x2 True (l, t1, t2, s)") auto
  with r have m2: "locked_step io x1 x2 False (l1, u1, u2, s1) = (l', t1', t2', s')" by simp
  have a: "xmeasure u1 \<le> xmeasure t1 - (if l = Free \<or> l = Held True then 1 else 0)" "xmeasure u2 \<le> xmeasure t2"
    using locked_step_measure [OF m1] by auto
  have b: "xmeasure t1' \<le> xmeasure u1" "xmeasure t2' \<le> xmeasure u2 - (if l1 = Free \<or> l1 = Held False then 1 else 0)"
    using locked_step_measure [OF m2] by auto
  show ?thesis
  proof (cases "l = Free \<or> l = Held True")
    case go: True
    show ?thesis
    proof (cases "t_pc t1 = Done")
      case False
      then have "0 < xmeasure t1" using xmeasure_Done [of t1] by simp
      then show ?thesis using go a b by auto
    next
      case True
      with go w have "l = Free" by (auto simp: lock_wf_def)
      with m1 True have "l1 = Free" "u1 = t1" "u2 = t2"
        by (simp_all add: locked_step_go sched_step_Done_first)
      moreover have "xmeasure t1 = 0" using True xmeasure_Done by blast
      ultimately show ?thesis using b by simp
    qed
  next
    case False
    then have h: "l = Held False" by (cases l) auto
    with w have "0 < xmeasure t2" using xmeasure_Done [of t2] by (simp add: lock_wf_def)
    moreover from h m1 have "l1 = Held False" "u2 = t2" by (simp_all add: locked_step_blocked)
    ultimately show ?thesis using a b h by simp
  qed
qed

lemma locked_round_robin_measure:
  "lock_wf (l, t1, t2, s) \<Longrightarrow> locked_run io x1 x2 (round_robin n) (l, t1, t2, s) = (l', t1', t2', s') \<Longrightarrow>
   xmeasure t1' + xmeasure t2' \<le> xmeasure t1 + xmeasure t2 - n"
proof (induction n arbitrary: l t1 t2 s)
  case 0
  then show ?case by (simp add: round_robin_def)
next
  case (Suc n)
  obtain l1 u1 u2 s1 where m: "locked_run io x1 x2 [True, False] (l, t1, t2, s) = (l1, u1, u2, s1)"
    by (cases "locked_run io x1 x2 [True, False] (l, t1, t2, s)") auto
  have r: "round_robin (Suc n) = [True, False] @ round_robin n" by (simp add: round_robin_def)
  have w: "lock_wf (l1, u1, u2, s1)" using locked_run_wf [OF Suc.prems(1)] m by metis
  have "locked_run io x1 x2 (round_robin n) (l1, u1, u2, s1) = (l', t1', t2', s')"
    using Suc.prems(2) m by (simp add: r locked_run_append)
  from Suc.IH [OF w this] locked_round_measure [OF Suc.prems(1) m] show ?case by simp
qed

text \<open>C28: under the lock and a round-robin scheduler, two calls of either kind, on
  every device, have both returned after 1262 rounds: the lock never deadlocks or
  starves a caller, and the second caller waits at most for the first one's 631 steps.\<close>

theorem locked_round_robin_terminates:
  "1262 \<le> n \<Longrightarrow>
   case locked_run io x1 x2 (round_robin n) (Free, xinit p1, xinit p2, s) of (l, t1, t2, s') \<Rightarrow>
     t_pc t1 = Done \<and> t_pc t2 = Done"
proof -
  assume n: "1262 \<le> n"
  obtain l t1 t2 s' where r: "locked_run io x1 x2 (round_robin n) (Free, xinit p1, xinit p2, s) = (l, t1, t2, s')"
    by (cases "locked_run io x1 x2 (round_robin n) (Free, xinit p1, xinit p2, s)") auto
  have "lock_wf (Free, xinit p1, xinit p2, s)" by (simp add: lock_wf_def)
  from locked_round_robin_measure [OF this r] n have "xmeasure t1 = 0" "xmeasure t2 = 0"
    by (simp_all add: xmeasure_xinit)
  with r show ?thesis by (simp add: xmeasure_Done)
qed

theorem locked_round_robin_terminates_witness:
  "1262 \<le> (1262 :: nat) \<and>
   (case locked_run sim_io (XRead 0x2F) (XWrite 0x3A 0x3C) (round_robin 1262) (Free, xinit 0, xinit 0, demo_io []) of
      (l, t1, t2, s') \<Rightarrow> t_pc t1 = Done \<and> t_pc t2 = Done)"
proof
  show "1262 \<le> (1262 :: nat)" by simp
  show "case locked_run sim_io (XRead 0x2F) (XWrite 0x3A 0x3C) (round_robin 1262) (Free, xinit 0, xinit 0, demo_io []) of
      (l, t1, t2, s') \<Rightarrow> t_pc t1 = Done \<and> t_pc t2 = Done"
    by (rule locked_round_robin_terminates) simp
qed

end
