(* ===== verification/Spec2Isabelle.thy ===== *)
theory Spec2Isabelle
  imports ReadEC WriteEC DriverSim Interleave SerialLock
begin

text \<open>
  \<^bold>\<open>EC byte transport of TPFanControl\<close> (\<^verbatim>\<open>src/TPFanControl/portio.cpp\<close>).

  The program part modelled here is the driver that reads and writes one register
  of a laptop's embedded controller (EC) through two I/O ports, the data port
  0x1600 and the control/status port 0x1604: \<^verbatim>\<open>FANCONTROL::ReadByteFromEC\<close>
  and \<^verbatim>\<open>FANCONTROL::WriteByteToEC\<close>. Each runs up to five sweeps of a handshake
  (wait for the input and output buffers to be empty, write a command, wait
  again, write the register offset, wait for the final condition), polling the
  status port every 10 ms, and then reads or writes the data port. The hardware,
  the TVicPort primitives \<^verbatim>\<open>ReadPort\<close>/\<^verbatim>\<open>WritePort\<close> and \<^verbatim>\<open>::Sleep\<close>
  are not part of the repository.

  \<^bold>\<open>Theories.\<close>
  \<^item> \<open>Prelude\<close>: the machine types (\<open>u8\<close>, \<open>u16\<close>, the 32-bit \<^verbatim>\<open>int\<close> as
    \<open>c_int\<close>), rule collections, cast lemmas.
  \<^item> \<open>PortIO\<close>: the constants of lines 34--49, the device interface
    \<open>'d port_io\<close> (any device state \<open>'d\<close> with a read, a write and a sleep
    operation), the transport state \<open>'d ec_io\<close> (device, bus trace, the globals
    \<^verbatim>\<open>verbosity\<close> and \<^verbatim>\<open>logbuf\<close>) and the primitives \<open>ReadPort\<close>,
    \<open>WritePort\<close>, \<open>Sleep\<close>, each of which appends an \<open>io_event\<close> to the trace.
  \<^item> \<open>Poll\<close>: the six polling \<^verbatim>\<open>for\<close> loops as one function \<open>poll\<close> (a
    \<^theory_text>\<open>function\<close> with a measure on the remaining budget), the status
    conditions, the inductive specification \<open>poll_run\<close> of a poll's trace with
    the refinement lemma \<open>poll_trace\<close>, and the handshake discipline
    \<open>handshake_ok\<close> of a trace.
  \<^item> \<open>SetupLoop\<close>: the \<^verbatim>\<open>while (numSetupTries > 0)\<close> loop shared by both
    operations, generic in the sweep, with its reference policy \<open>retry\<close>.
  \<^item> \<open>Sweep\<close>: the handshake sweep \<open>ec_sweep\<close> parameterised by command and final
    condition, and the trace lemmas of a sweep and of the whole loop.
  \<^item> \<open>DiagLog\<close>: the \<^verbatim>\<open>logbuf\<close> record of line 118 with the \<^verbatim>\<open>%x\<close>/\<^verbatim>\<open>%02x\<close>
    conversions (modelled from the C standard), a hexadecimal reader, and the
    sign extension of the \<^verbatim>\<open>char\<close> argument.
  \<^item> \<open>ReadEC\<close>, \<open>WriteEC\<close>: \<open>read_sweep\<close>/\<open>ReadByteFromEC\<close> and
    \<open>write_sweep\<close>/\<open>WriteByteToEC\<close> translated from the source, proved equal
    to instances of \<open>ec_sweep\<close>, and their properties.
  \<^item> \<open>SimEC\<close>: the simulated controller the spec's tests run against (spec
    sections 6 and 8; not code of the repository): a register file, the command
    phase, an input-buffer busy counter that each status read decrements, the
    output-buffer flag and byte, and a script of latencies, one per port write.
    \<open>sim_io\<close> is it as a \<open>port_io\<close>; \<open>poll_sim_ready\<close> and
    \<open>poll_sim_timeout\<close> compute what a poll does on it.
  \<^item> \<open>DriverSim\<close>: the driver run on the simulator. \<open>run_ops\<close> is a caller that
    serialises its calls (the contract of spec section 5) issuing a list of
    \<open>ec_op\<close>s; \<open>spec_op\<close>/\<open>spec_run\<close> are the abstract register-file
    specification of the transport.
  \<^item> \<open>XactStep\<close>: both functions again as a small-step machine \<open>xstep\<close> over the
    thread state \<open>xthread\<close> (the locals \<^verbatim>\<open>iTime\<close>, \<^verbatim>\<open>numSetupTries\<close>,
    \<^verbatim>\<open>iOK\<close>, the return value, \<^verbatim>\<open>*pdata\<close> and a program counter \<open>xpc\<close> at
    the source's control points), one port access per step; \<open>wait_step\<close> is one
    iteration of a polling loop and \<open>after_wait\<close> the \<^verbatim>\<open>if (!iOK) return 0\<close>
    after it. \<open>xrun\<close> runs a thread alone with fuel. The ranking \<open>xmeasure\<close>
    bounds the steps a thread has left from its control point and locals (631 at
    entry) and drops with each of its steps.
  \<^item> \<open>Interleave\<close>: two callers without a lock (spec section 5): \<open>sched_step\<close>
    runs one step of the thread the scheduler picks, \<open>sched_run\<close> follows a
    schedule, and \<open>reach2\<close> is the inductive set of configurations reachable from
    two fresh calls.
  \<^item> \<open>SerialLock\<close>: the serialisation spec section 5 asks of the environment, a
    lock held by a caller from its first port access to its return
    (\<open>locked_step\<close>, \<open>locked_run\<close>; modelled from the spec, since the
    source takes no lock), and the proof that runs under it are serial
    (\<open>serial_from\<close>, \<open>held_ok\<close>).

  \<^bold>\<open>What is proved.\<close> For every device: both operations keep the handshake
  discipline on the bus and write nothing but their command, the offset and (for a
  write) the new value (C1, C2); their outcome is either a failure that leaves
  \<^verbatim>\<open>*pdata\<close> and the log alone or a success whose last bus event is the data
  transfer (C3, C4); the retry loop implements "up to five sweeps" (C5); a call
  returns within 600 status samples and 6000 ms of sleep (C6, C7); a controller
  that never becomes idle makes a call fail after exactly 100 samples and 1000 ms
  (C8, C9); writes never log (C10); the offset is truncated to a byte (C11).
  On the simulated controller, when every latency is below the 100 ms phase
  budget (\<open>sim_ready\<close>): a write is the register-file assignment and a read
  the lookup at the offset's low byte, and the controller stays ready (C12, C13,
  refinement); a write followed by a read returns the value (C14); any serialised
  sequence of transactions refines \<open>spec_run\<close> (C15). When the controller
  answers a read later than the budget, the read fails with the reply left in the
  output buffer (C17), and from then on every transaction fails, since nothing
  drains a stale reply (C16). The spec's retry scenario for writes holds in its
  general form: offsets accepted late in the first \<open>N\<close> sweeps make a write
  succeed if \<open>N < 5\<close> and fail otherwise (C21).
  The log: a record's fields read back as the offset and the promoted data
  argument (C18), but a data byte of
  \<open>0x80\<close> or more is printed as eight digits (C19), and 293 verbose reads
  overflow the 8192-byte \<^verbatim>\<open>logbuf\<close> (C20).
  Small steps and concurrency: a thread of \<open>xstep\<close> run alone computes the
  results of the big-step functions (\<open>xread_exec\<close>, \<open>xwrite_exec\<close>, helper
  lemmas used for C26). Under every interleaving of two calls the locals of both
  threads stay in their ranges (C22, by rule induction over \<open>reach2\<close>), and only
  the two calls' commands, offsets and data reach the bus (C23). On every
  controller that answers at once, whatever its registers, offsets and value, one
  interleaving writes the writer's offset into the reader's register and loses the
  new value, with both calls reporting success (C24). Whatever the schedule, each
  call has returned once it has been scheduled 631 times (C25, by the ranking
  \<open>xmeasure\<close>): no interleaving makes a call hang. With the spec's lock around
  each call, every schedule in which both calls have returned has the effect of
  the two big-step calls in one of the two orders (C26), and the lock does not
  deadlock: under round-robin scheduling both calls return within 1262 rounds
  (C28). On a ready simulated controller a call sleeps exactly 10 ms per busy
  status sample, under 300 ms in all (C27).

  \<^bold>\<open>Bounds and fuel.\<close> No fuel is needed: every loop of the source is bounded by
  its counter (\<open>iTime\<close> against the budget, \<open>numSetupTries\<close>), and the model's
  functions are total with measures on those counters. The simulator's scripted
  latencies are counted in status samples (10 ms each); \<open>sim_ready\<close> bounds them
  by 10 samples, the short budget, which is exactly what the refinement needs:
  with a latency of 10 or more the phase wait times out (C17, C21).
  A transaction takes at most 126 small steps per sweep and one more after the
  loop, 631 in all, so \<open>xrun\<close> with fuel 700 has finished; a finished thread is a
  fixed point of \<open>xstep\<close>, so more fuel changes nothing. The same 631 is the
  value of \<open>xmeasure\<close> at entry, which gives the 631 steps of C25 and, for the
  sum of both threads' rankings, the 1262 rounds of C28. The 300 ms of C27 is 10 ms
  times the at most 9 + 9 + 9 busy samples \<open>sim_ready\<close> allows.

  \<^bold>\<open>Not modelled.\<close> The physical EC (only the abstract device interface and a
  simulated controller from the spec are modelled), wall-clock time beyond the
  sleep durations, more than two concurrent callers (the construction of
  \<open>Interleave\<close> extends to more, nothing new is shown by it), interleavings inside
  a status sample and its sleep (the sleep touches no port, so one step holds
  both), and the global \<^verbatim>\<open>lasterrorstring\<close> (line 53): it is declared
  and never read or written by the two operations, so there is no behaviour of it
  to model. The TVicPort primitives and \<^verbatim>\<open>::Sleep\<close> are library code outside
  the repository; they are modelled only by the interface \<open>port_io\<close> and the
  trace each call leaves.
\<close>

subsection \<open>A controller that never becomes idle\<close>

definition stuck_ec :: "unit port_io" where
  "stuck_ec = \<lparr>read_port = (\<lambda>p h. (EC_STAT_IBF, h)), write_port = (\<lambda>p v h. h),
               sleep_ms = (\<lambda>ms h. h)\<rparr>"

definition idle_state :: "unit ec_io" where
  "idle_state = \<lparr>hw = (), io_trace = [], verbosity = 1, logbuf = []\<rparr>"

lemma stuck_ec_never_idle: "\<forall>h. \<not> buffers_clear (fst (read_port stuck_ec EC_CTRLPORT h))"
  by (simp add: stuck_ec_def buffers_clear_def ec_consts)

theorem ReadByteFromEC_never_idle_witness:
  "(\<forall>h. \<not> buffers_clear (fst (read_port stuck_ec EC_CTRLPORT h))) \<and>
   (case ReadByteFromEC stuck_ec 0x2F 7 idle_state of (r, d, s') \<Rightarrow>
      r = 0 \<and> d = 7 \<and> logbuf s' = logbuf idle_state \<and>
      (\<exists>evs. io_trace s' = io_trace idle_state @ evs \<and> status_reads evs = 100 \<and>
             slept_total evs = 1000 \<and> port_writes evs = []))"
  using stuck_ec_never_idle ReadEC.ReadByteFromEC_never_idle [OF stuck_ec_never_idle] by simp

theorem WriteByteToEC_never_idle_witness:
  "(\<forall>h. \<not> buffers_clear (fst (read_port stuck_ec EC_CTRLPORT h))) \<and>
   (case WriteByteToEC stuck_ec 0x3A 0x3C idle_state of (r, s') \<Rightarrow>
      r = 0 \<and> (\<exists>evs. io_trace s' = io_trace idle_state @ evs \<and> status_reads evs = 100 \<and>
                    slept_total evs = 1000 \<and> port_writes evs = []))"
  using stuck_ec_never_idle WriteEC.WriteByteToEC_never_idle [OF stuck_ec_never_idle] by simp

end
